(* ===== verification/Modbus_Prelude.thy ===== *)
theory Modbus_Prelude
  imports Main "HOL-Library.Word" "HOL-Library.Monad_Syntax"
begin

text \<open>
  Shared vocabulary of the modbus\_pp development.

  Machine integers keep their width: \<open>byte\<close> is \<open>byte_t\<close> (\<open>std::uint8_t\<close>), \<open>u16\<close> is
  \<open>register_t\<close>, \<open>address_t\<close> and \<open>quantity_t\<close>, \<open>u32\<close> and \<open>u64\<close> the wider unsigned types.
  \<open>std::size_t\<close> values that are container sizes are natural numbers; where the code's
  arithmetic on them can wrap, the wrap is written out.

  Undefined behaviour is the value \<open>None\<close> of an \<open>option\<close>: every read through a pointer is
  \<open>fetch\<close> (one element) or \<open>fetch_range\<close> (a half-open range), which are \<open>None\<close> outside the
  memory they read. A theorem that a parser never returns \<open>None\<close> is a memory-safety
  theorem. Error returns are values of \<open>Result\<close> (theory \<open>Error_Result\<close>), not \<open>None\<close>.

  Two collections carry the component proofs: \<open>be_simps\<close> (big-endian bytes and words) and
  \<open>mem_simps\<close> (reads from lists built by appending).
\<close>

unbundle bit_operations_syntax

named_theorems be_simps "splitting words into big-endian bytes and joining them again"
named_theorems mem_simps "reads from concatenated buffers"

section \<open>Primitive type aliases (core/types.hpp)\<close>

type_synonym byte = "8 word"
type_synonym u16 = "16 word"
type_synonym u32 = "32 word"
type_synonym u64 = "64 word"
type_synonym register = u16
type_synonym address = u16
type_synonym quantity = u16
type_synonym unit_id = byte

section \<open>Big-endian pairs\<close>

text \<open>
  \<open>hi8\<close> and \<open>lo8\<close> are \<open>static_cast<byte_t>(v >> 8)\<close> and \<open>static_cast<byte_t>(v & 0xFF)\<close>;
  \<open>be16\<close> is \<open>(static_cast<uint16_t>(h) << 8) | l\<close>. The code writes these three
  expressions out in every serialiser and parser.
\<close>

definition hi8 :: "u16 \<Rightarrow> byte" where
  "hi8 w = ucast (drop_bit 8 w)"

definition lo8 :: "u16 \<Rightarrow> byte" where
  "lo8 w = ucast (w AND 0xFF)"

definition be16 :: "byte \<Rightarrow> byte \<Rightarrow> u16" where
  "be16 h l = push_bit 8 (ucast h) OR ucast l"

lemma mask8_16: "(0xFF :: u16) = mask 8"
  by (simp add: mask_eq_exp_minus_1)

lemma be16_hi8_lo8 [be_simps]: "be16 (hi8 w) (lo8 w) = w"
  by (rule bit_word_eqI) (auto simp: be16_def hi8_def lo8_def mask8_16 bit_simps)

lemma hi8_be16 [be_simps]: "hi8 (be16 a b) = a"
  by (rule bit_word_eqI) (auto simp: be16_def hi8_def bit_simps dest: bit_imp_le_length)

lemma lo8_be16 [be_simps]: "lo8 (be16 a b) = b"
  by (rule bit_word_eqI) (auto simp: be16_def lo8_def mask8_16 bit_simps dest: bit_imp_le_length)

lemma be16_inject [be_simps]: "be16 a b = be16 c d \<longleftrightarrow> a = c \<and> b = d"
  by (metis hi8_be16 lo8_be16)

lemma be16_eq_0_iff: "be16 a b = 0 \<longleftrightarrow> a = 0 \<and> b = 0"
proof -
  have "be16 0 0 = 0" by (simp add: be16_def)
  then show ?thesis by (metis be16_inject)
qed

lemma unat_u16_less: "unat (w :: u16) < 65536"
  by (rule order.strict_trans2 [OF unsigned_less]) simp

text \<open>The four big-endian bytes of a 32-bit value, and the value read back.\<close>

definition bytes32 :: "u32 \<Rightarrow> byte list" where
  "bytes32 v = [ucast (drop_bit 24 v AND 0xFF), ucast (drop_bit 16 v AND 0xFF),
                ucast (drop_bit 8 v AND 0xFF), ucast (v AND 0xFF)]"

definition be32 :: "byte \<Rightarrow> byte \<Rightarrow> byte \<Rightarrow> byte \<Rightarrow> u32" where
  "be32 a b c d = push_bit 24 (ucast a) OR push_bit 16 (ucast b) OR push_bit 8 (ucast c) OR ucast d"

lemma mask8_32: "(0xFF :: u32) = mask 8"
  by (simp add: mask_eq_exp_minus_1)

lemma byte_position_cases:
  assumes "n < 32"
  obtains "n < (8::nat)" | k where "n = 8 + k" "k < 8" | k where "n = 16 + k" "k < 8"
    | k where "n = 24 + k" "k < 8"
proof -
  consider "n < 8" | "8 \<le> n" "n < 16" | "16 \<le> n" "n < 24" | "24 \<le> n" by linarith
  then show thesis
    using assms that(1) that(2)[of "n - 8"] that(3)[of "n - 16"] that(4)[of "n - 24"]
    by cases simp_all
qed

lemma be32_bytes32 [be_simps]:
  "be32 (ucast (drop_bit 24 v AND 0xFF)) (ucast (drop_bit 16 v AND 0xFF))
        (ucast (drop_bit 8 v AND 0xFF)) (ucast (v AND 0xFF)) = v"
proof (rule bit_word_eqI)
  fix n :: nat
  assume "n < LENGTH(32)"
  then have "n < 32" by simp
  then show "bit (be32 (ucast (drop_bit 24 v AND 0xFF)) (ucast (drop_bit 16 v AND 0xFF))
      (ucast (drop_bit 8 v AND 0xFF)) (ucast (v AND 0xFF))) n = bit v n"
    by (cases rule: byte_position_cases) (auto simp: be32_def mask8_32 bit_simps)
qed

lemma bytes32_be32 [be_simps]: "bytes32 (be32 a b c d) = [a, b, c, d]"
  unfolding bytes32_def list.inject
  by (intro conjI; (rule bit_word_eqI)?)
     (auto simp: be32_def mask8_32 bit_simps dest: bit_imp_le_length)

lemma length_bytes32 [simp]: "length (bytes32 v) = 4"
  by (simp add: bytes32_def)

section \<open>Register lists as bytes\<close>

text \<open>
  \<open>regs_to_bytes\<close> is the serialising loop
  \<open>for (auto reg : regs) { push_back(reg >> 8); push_back(reg & 0xFF); }\<close>;
  \<open>bytes_to_regs\<close> is the parsing loop \<open>for (i = k; i + 1 < size; i += 2)\<close> over the bytes
  from offset \<open>k\<close> on: an odd last byte is dropped.
\<close>

fun regs_to_bytes :: "register list \<Rightarrow> byte list" where
  "regs_to_bytes [] = []"
| "regs_to_bytes (r # rs) = hi8 r # lo8 r # regs_to_bytes rs"

fun bytes_to_regs :: "byte list \<Rightarrow> register list" where
  "bytes_to_regs (h # l # bs) = be16 h l # bytes_to_regs bs"
| "bytes_to_regs bs = []"

lemma bytes_to_regs_to_bytes [be_simps]: "bytes_to_regs (regs_to_bytes rs) = rs"
  by (induction rs) (auto simp: be_simps)

lemma length_regs_to_bytes [simp]: "length (regs_to_bytes rs) = 2 * length rs"
  by (induction rs) auto

lemma length_bytes_to_regs [simp]: "length (bytes_to_regs bs) = length bs div 2"
  by (induction bs rule: bytes_to_regs.induct) auto

lemma regs_to_bytes_append: "regs_to_bytes (xs @ ys) = regs_to_bytes xs @ regs_to_bytes ys"
  by (induction xs) auto

lemma regs_to_bytes_inject [be_simps]: "regs_to_bytes xs = regs_to_bytes ys \<longleftrightarrow> xs = ys"
  by (metis bytes_to_regs_to_bytes)

section \<open>Checked reads\<close>

definition fetch :: "'a list \<Rightarrow> nat \<Rightarrow> 'a option" where
  "fetch xs i = (if i < length xs then Some (xs ! i) else None)"

definition fetch_range :: "'a list \<Rightarrow> nat \<Rightarrow> nat \<Rightarrow> 'a list option" where
  "fetch_range xs a b = (if a \<le> b \<and> b \<le> length xs then Some (take (b - a) (drop a xs)) else None)"

lemma fetch_lt: "i < length xs \<Longrightarrow> fetch xs i = Some (xs ! i)"
  by (simp add: fetch_def)

lemma fetch_eq_None_iff: "fetch xs i = None \<longleftrightarrow> length xs \<le> i"
  by (auto simp: fetch_def)

lemma fetch_eq_Some_iff: "fetch xs i = Some x \<longleftrightarrow> i < length xs \<and> x = xs ! i"
  by (auto simp: fetch_def)

lemma fetch_append: "fetch (xs @ ys) i = (if i < length xs then fetch xs i else fetch ys (i - length xs))"
  by (auto simp: fetch_def nth_append)

lemma fetch_append_at [mem_simps]: "length xs = n \<Longrightarrow> fetch (xs @ y # ys) n = Some y"
  by (auto simp: fetch_def)

lemma fetch_Cons_0 [mem_simps]: "fetch (x # xs) 0 = Some x"
  by (simp add: fetch_def)

lemma fetch_Cons_Suc [mem_simps]: "fetch (x # xs) (Suc n) = fetch xs n"
  by (simp add: fetch_def)

lemma fetch_Cons_numeral [mem_simps]: "fetch (x # xs) (numeral k) = fetch xs (pred_numeral k)"
  by (simp add: fetch_def numeral_eq_Suc)

lemma fetch_append_length [mem_simps]:
  "fetch (xs @ ys) (length xs) = fetch ys 0"
  "fetch (xs @ ys) (Suc (length xs)) = fetch ys 1"
  "fetch (xs @ ys) (Suc (Suc (length xs))) = fetch ys 2"
  "fetch (xs @ ys) (length xs + k) = fetch ys k"
  by (auto simp: fetch_def nth_append numeral_2_eq_2)

lemma fetch_Cons_1 [mem_simps]: "fetch (x # xs) 1 = fetch xs 0"
  by (simp add: fetch_def)

lemma fetch_take: "i < n \<Longrightarrow> fetch (take n xs) i = fetch xs i"
  by (auto simp: fetch_def)

lemma fetch_range_le:
  "a \<le> b \<Longrightarrow> b \<le> length xs \<Longrightarrow> fetch_range xs a b = Some (take (b - a) (drop a xs))"
  by (simp add: fetch_range_def)

lemma fetch_range_eq_None_iff: "fetch_range xs a b = None \<longleftrightarrow> \<not> (a \<le> b \<and> b \<le> length xs)"
  by (simp add: fetch_range_def)

lemma fetch_range_append [mem_simps]:
  "length xs = a \<Longrightarrow> length ys = b - a \<Longrightarrow> a \<le> b \<Longrightarrow> fetch_range (xs @ ys @ zs) a b = Some ys"
  by (simp add: fetch_range_def)

lemma fetch_range_append_length [mem_simps]:
  "fetch_range (xs @ ys) (length xs + a) (length xs + b) = fetch_range ys a b"
  "fetch_range (xs @ ys) (length xs) (length xs + b) = fetch_range ys 0 b"
  by (auto simp: fetch_range_def)

lemma fetch_range_take: "b \<le> n \<Longrightarrow> fetch_range (take n xs) a b =
    (if b \<le> length xs then fetch_range xs a b else None)"
  by (auto simp: fetch_range_def min_def take_drop)

section \<open>Small list facts\<close>

lemma length_ge_split:
  assumes "n \<le> length xs"
  obtains ys zs where "xs = ys @ zs" "length ys = n"
  using assms by (metis append_take_drop_id length_take min.absorb2)

lemma take_drop_append_split: "a \<le> b \<Longrightarrow> take (b - a) (drop a xs) @ drop b xs = drop a xs"
  by (metis append_take_drop_id drop_drop le_add_diff_inverse2)

lemma foldl_map_list: "foldl f a (map g xs) = foldl (\<lambda>s x. f s (g x)) a xs"
  by (induction xs arbitrary: a) auto

lemma of_nat_unat_length [simp]:
  "length xs < 2 ^ LENGTH('a::len) \<Longrightarrow> unat (of_nat (length xs) :: 'a word) = length xs"
  by (simp add: unat_of_nat take_bit_nat_eq_self_iff)

end
