(* ===== verification/Core_Types.thy ===== *)
theory Core_Types
  imports Modbus_Prelude
begin

text \<open>
  Component \<open>core/types.hpp\<close>: the tagged wrapper \<open>StrongType<Tag, T>\<close> and the non-owning
  view \<open>span_t<T>\<close>.

  A \<open>StrongType\<close> is a machine word with a phantom tag, so that an address and a count have
  different HOL types as they have different C++ types; its six comparison operators are an
  instance of \<open>linorder\<close>, the increments wrap at the width of the word.

  A span is the pair of \<open>data_\<close> and \<open>size_\<close>. The pointer is represented by the elements that
  may be read from it (the rest of the buffer it points into), so a span whose \<open>size_\<close>
  exceeds the buffer can be built, as in C++, and only a read outside the buffer is
  undefined (\<open>None\<close>).
\<close>

section \<open>StrongType\<close>

datatype (dead 'tag, 'a) StrongType = StrongType (raw: 'a)

datatype AddressTag = AddressTag
datatype QuantityTag = QuantityTag
datatype UnitIdTag = UnitIdTag

type_synonym RegisterAddress = "(AddressTag, address) StrongType"
type_synonym RegisterCount = "(QuantityTag, quantity) StrongType"
type_synonym UnitId = "(UnitIdTag, unit_id) StrongType"

definition StrongType_default :: "('tag, 'n::len word) StrongType" where
  "StrongType_default = StrongType 0"

definition pre_inc :: "('tag, 'n::len word) StrongType
    \<Rightarrow> ('tag, 'n word) StrongType \<times> ('tag, 'n word) StrongType" where
  "pre_inc s = (let s' = StrongType (raw s + 1) in (s', s'))"

definition post_inc :: "('tag, 'n::len word) StrongType
    \<Rightarrow> ('tag, 'n word) StrongType \<times> ('tag, 'n word) StrongType" where
  "post_inc s = (StrongType (raw s + 1), s)"

text \<open>The six comparison operators; the library's order on the type is the code's.\<close>

definition StrongType_eq :: "('tag, 'a) StrongType \<Rightarrow> ('tag, 'a) StrongType \<Rightarrow> bool" where
  "StrongType_eq a b \<longleftrightarrow> raw a = raw b"

definition StrongType_ne :: "('tag, 'a) StrongType \<Rightarrow> ('tag, 'a) StrongType \<Rightarrow> bool" where
  "StrongType_ne a b \<longleftrightarrow> raw a \<noteq> raw b"

definition StrongType_lt :: "('tag, 'a::ord) StrongType \<Rightarrow> ('tag, 'a) StrongType \<Rightarrow> bool" where
  "StrongType_lt a b \<longleftrightarrow> raw a < raw b"

definition StrongType_le :: "('tag, 'a::ord) StrongType \<Rightarrow> ('tag, 'a) StrongType \<Rightarrow> bool" where
  "StrongType_le a b \<longleftrightarrow> raw a \<le> raw b"

definition StrongType_gt :: "('tag, 'a::ord) StrongType \<Rightarrow> ('tag, 'a) StrongType \<Rightarrow> bool" where
  "StrongType_gt a b \<longleftrightarrow> raw b < raw a"

definition StrongType_ge :: "('tag, 'a::ord) StrongType \<Rightarrow> ('tag, 'a) StrongType \<Rightarrow> bool" where
  "StrongType_ge a b \<longleftrightarrow> raw b \<le> raw a"

lemmas StrongType_compare_defs = StrongType_eq_def StrongType_ne_def StrongType_lt_def StrongType_le_def
  StrongType_gt_def StrongType_ge_def

instantiation StrongType :: (type, linorder) linorder
begin

definition "less_eq a b \<longleftrightarrow> StrongType_le a b" for a :: "('a, 'b) StrongType"

definition "less a b \<longleftrightarrow> StrongType_lt a b" for a :: "('a, 'b) StrongType"

instance
  by intro_classes
     (auto simp: less_eq_StrongType_def less_StrongType_def StrongType_compare_defs intro: StrongType.expand)

end

lemma StrongType_less_iff: "a < b \<longleftrightarrow> raw a < raw b"
  by (simp add: less_StrongType_def StrongType_lt_def)

lemma StrongType_compare [simp]:
  "StrongType_eq a b \<longleftrightarrow> a = b" "StrongType_ne a b \<longleftrightarrow> a \<noteq> b"
  "StrongType_lt x y \<longleftrightarrow> x < y" "StrongType_le x y \<longleftrightarrow> x \<le> y"
  "StrongType_gt x y \<longleftrightarrow> y < x" "StrongType_ge x y \<longleftrightarrow> y \<le> x"
  for x y :: "('tag, 'a::linorder) StrongType"
  by (auto simp: less_eq_StrongType_def less_StrongType_def StrongType_compare_defs intro: StrongType.expand)

text \<open>The increment is by one except at the largest value, where it wraps to the smallest.\<close>

lemma pre_inc_less_iff:
  fixes s :: "('tag, 'n::len word) StrongType"
  shows "s < fst (pre_inc s) \<longleftrightarrow> raw s \<noteq> - 1"
proof -
  have "raw s < raw s + 1 \<longleftrightarrow> raw s \<noteq> - 1"
    using inc_less_eq_self_iff_eq [of "raw s"] by auto
  then show ?thesis by (simp add: pre_inc_def StrongType_less_iff Let_def)
qed

lemma post_inc_pre_inc: "fst (post_inc s) = fst (pre_inc s)" "snd (post_inc s) = s"
  by (simp_all add: post_inc_def pre_inc_def Let_def)

section \<open>span\_t\<close>

datatype 'a span = Span (sp_mem: "'a list") (sp_size: nat)

definition span_of :: "'a list \<Rightarrow> 'a span" where
  "span_of xs = Span xs (length xs)"

definition span_default :: "'a span" where
  "span_default = Span [] 0"

definition span_empty :: "'a span \<Rightarrow> bool" where
  "span_empty s \<longleftrightarrow> sp_size s = 0"

definition span_at :: "'a span \<Rightarrow> nat \<Rightarrow> 'a option" where
  "span_at s i = fetch (sp_mem s) i"

definition span_range :: "'a span \<Rightarrow> nat \<Rightarrow> nat \<Rightarrow> 'a list option" where
  "span_range s a b = fetch_range (sp_mem s) a b"

definition span_elems :: "'a span \<Rightarrow> 'a list option" where
  "span_elems s = span_range s 0 (sp_size s)"

definition subspan :: "'a span \<Rightarrow> nat \<Rightarrow> nat \<Rightarrow> 'a span option" where
  "subspan s offset count =
     (if offset \<le> length (sp_mem s) then Some (Span (drop offset (sp_mem s)) count) else None)"

definition span_first :: "'a span \<Rightarrow> nat \<Rightarrow> 'a span" where
  "span_first s count = Span (sp_mem s) count"

definition span_last :: "'a span \<Rightarrow> nat \<Rightarrow> 'a span option" where
  "span_last s count =
     (if count \<le> sp_size s then subspan s (sp_size s - count) count else None)"

text \<open>
  A span is \<^emph>\<open>valid\<close> when the whole of \<open>[begin, end)\<close> may be read. Spans made from a
  container are valid; \<open>subspan\<close>, \<open>first\<close> and \<open>last\<close> keep validity within the bounds of the
  view, and then denote the corresponding slice of its elements.
\<close>

definition span_valid :: "'a span \<Rightarrow> bool" where
  "span_valid s \<longleftrightarrow> sp_size s \<le> length (sp_mem s)"

definition span_list :: "'a span \<Rightarrow> 'a list" where
  "span_list s = take (sp_size s) (sp_mem s)"

lemma span_valid_of [simp, intro]: "span_valid (span_of xs)"
  by (simp add: span_valid_def span_of_def)

lemma span_list_of [simp]: "span_list (span_of xs) = xs"
  by (simp add: span_list_def span_of_def)

lemma span_of_sel [simp]: "sp_mem (span_of xs) = xs" "sp_size (span_of xs) = length xs"
  by (simp_all add: span_of_def)

lemma length_span_list [simp]: "span_valid s \<Longrightarrow> length (span_list s) = sp_size s"
  by (simp add: span_valid_def span_list_def)

lemma span_elems_valid: "span_valid s \<Longrightarrow> span_elems s = Some (span_list s)"
  by (simp add: span_elems_def span_range_def span_valid_def span_list_def fetch_range_le)

lemma span_at_valid:
  "span_valid s \<Longrightarrow> i < sp_size s \<Longrightarrow> span_at s i = Some (span_list s ! i)"
  by (simp add: span_at_def span_valid_def span_list_def fetch_lt)

lemma span_range_valid:
  "span_valid s \<Longrightarrow> a \<le> b \<Longrightarrow> b \<le> sp_size s \<Longrightarrow>
   span_range s a b = Some (take (b - a) (drop a (span_list s)))"
  by (simp add: span_range_def span_valid_def span_list_def fetch_range_le drop_take)

lemma subspan_valid:
  assumes "span_valid s" "offset + count \<le> sp_size s" "subspan s offset count = Some t"
  shows "span_valid t \<and> span_list t = take count (drop offset (span_list s))"
  using assms
  by (auto simp: subspan_def span_valid_def span_list_def drop_take split: if_splits)

lemma span_last_valid:
  assumes "span_valid s" "count \<le> sp_size s"
  shows "\<exists>t. span_last s count = Some t \<and> span_valid t
           \<and> span_list t = drop (sp_size s - count) (span_list s)"
  using assms
  by (auto simp: span_last_def subspan_def span_valid_def span_list_def drop_take)

end
