(* ===== verification/Error_Result.thy ===== *)
theory Error_Result
  imports Modbus_Prelude
begin

text \<open>
  Components \<open>core/error.hpp\<close>, \<open>core/error.cpp\<close> and \<open>core/result.hpp\<close>: the error codes, their
  \<open>std::error_category\<close>, and the result type every fallible operation returns.

  An \<open>ErrorCode\<close> is an \<open>int\<close> at run time and the code casts arbitrary bytes to it, so a
  \<open>std::error_code\<close> holds an integer and a category; the enumerators are a datatype with
  their underlying values (\<open>ErrorCode_value\<close>). \<open>Result<T>\<close> is the variant of a value and an
  error code. \<open>Result<void>\<close> stores only an error code and succeeds when that code is zero,
  which is why \<open>return r.error()\<close> across the two types keeps the integer and not the case.
  The assertions of \<open>result.hpp\<close> are off in the model, as they are with \<open>NDEBUG\<close>.
\<close>

section \<open>Error codes (core/error.hpp)\<close>

datatype ErrorCode =
    Success
  | IllegalFunction | IllegalDataAddress | IllegalDataValue | SlaveDeviceFailure
  | Acknowledge | SlaveDeviceBusy | NegativeAcknowledge | MemoryParityError
  | GatewayPathUnavailable | GatewayTargetFailed
  | AuthenticationFailed | SessionExpired | HMACMismatch | PipelineOverflow
  | SubscriptionLimitReached | PayloadTooLarge | FragmentReassemblyFailed
  | TransportDisconnected | TimeoutExpired | TypeCodecMismatch | UnsupportedVersion
  | CorrelationMismatch | BatchPartialFailure | InvalidFrame | CrcMismatch
  | DeserializationFailed

fun ErrorCode_value :: "ErrorCode \<Rightarrow> int" where
  "ErrorCode_value Success = 0"
| "ErrorCode_value IllegalFunction = 1"
| "ErrorCode_value IllegalDataAddress = 2"
| "ErrorCode_value IllegalDataValue = 3"
| "ErrorCode_value SlaveDeviceFailure = 4"
| "ErrorCode_value Acknowledge = 5"
| "ErrorCode_value SlaveDeviceBusy = 6"
| "ErrorCode_value NegativeAcknowledge = 7"
| "ErrorCode_value MemoryParityError = 8"
| "ErrorCode_value GatewayPathUnavailable = 0x0A"
| "ErrorCode_value GatewayTargetFailed = 0x0B"
| "ErrorCode_value AuthenticationFailed = 0x80"
| "ErrorCode_value SessionExpired = 0x81"
| "ErrorCode_value HMACMismatch = 0x82"
| "ErrorCode_value PipelineOverflow = 0x83"
| "ErrorCode_value SubscriptionLimitReached = 0x84"
| "ErrorCode_value PayloadTooLarge = 0x85"
| "ErrorCode_value FragmentReassemblyFailed = 0x86"
| "ErrorCode_value TransportDisconnected = 0x87"
| "ErrorCode_value TimeoutExpired = 0x88"
| "ErrorCode_value TypeCodecMismatch = 0x89"
| "ErrorCode_value UnsupportedVersion = 0x8A"
| "ErrorCode_value CorrelationMismatch = 0x8B"
| "ErrorCode_value BatchPartialFailure = 0x8C"
| "ErrorCode_value InvalidFrame = 0x8D"
| "ErrorCode_value CrcMismatch = 0x8E"
| "ErrorCode_value DeserializationFailed = 0x8F"

definition ErrorCode_enumerators :: "ErrorCode list" where
  "ErrorCode_enumerators =
    [Success, IllegalFunction, IllegalDataAddress, IllegalDataValue, SlaveDeviceFailure,
     Acknowledge, SlaveDeviceBusy, NegativeAcknowledge, MemoryParityError,
     GatewayPathUnavailable, GatewayTargetFailed, AuthenticationFailed, SessionExpired,
     HMACMismatch, PipelineOverflow, SubscriptionLimitReached, PayloadTooLarge,
     FragmentReassemblyFailed, TransportDisconnected, TimeoutExpired, TypeCodecMismatch,
     UnsupportedVersion, CorrelationMismatch, BatchPartialFailure, InvalidFrame, CrcMismatch,
     DeserializationFailed]"

text \<open>
  An error category is an object compared by address; the standard library and the
  application may have others. \<open>error_code_default\<close> is \<open>std::error_code{}\<close>.
\<close>

datatype category = SystemCategory | ModbusCategory | OtherCategory nat

record error_code =
  ec_value :: int
  ec_category :: category

definition error_code_default :: error_code where
  "error_code_default = \<lparr>ec_value = 0, ec_category = SystemCategory\<rparr>"

text \<open>\<open>explicit operator bool\<close> of \<open>std::error_code\<close>: true when the value is not zero.\<close>

definition ec_bool :: "error_code \<Rightarrow> bool" where
  "ec_bool ec \<longleftrightarrow> ec_value ec \<noteq> 0"

definition modbus_category :: category where
  "modbus_category = ModbusCategory"

text \<open>
  \<open>make_error_code(ErrorCode e)\<close> takes any \<open>int\<close>, since the code calls it on
  \<open>static_cast<ErrorCode>(byte)\<close>; \<open>mk_error\<close> is the call on an enumerator.
\<close>

definition make_error_code :: "int \<Rightarrow> error_code" where
  "make_error_code e = \<lparr>ec_value = e, ec_category = modbus_category\<rparr>"

definition mk_error :: "ErrorCode \<Rightarrow> error_code" where
  "mk_error e = make_error_code (ErrorCode_value e)"

subsection \<open>ModbusCategory (core/error.cpp)\<close>

definition ModbusCategory_name :: string where
  "ModbusCategory_name = ''modbus_pp''"

fun ErrorCode_message :: "ErrorCode \<Rightarrow> string" where
  "ErrorCode_message Success = ''Success''"
| "ErrorCode_message IllegalFunction = ''Illegal function''"
| "ErrorCode_message IllegalDataAddress = ''Illegal data address''"
| "ErrorCode_message IllegalDataValue = ''Illegal data value''"
| "ErrorCode_message SlaveDeviceFailure = ''Slave device failure''"
| "ErrorCode_message Acknowledge = ''Acknowledge''"
| "ErrorCode_message SlaveDeviceBusy = ''Slave device busy''"
| "ErrorCode_message NegativeAcknowledge = ''Negative acknowledge''"
| "ErrorCode_message MemoryParityError = ''Memory parity error''"
| "ErrorCode_message GatewayPathUnavailable = ''Gateway path unavailable''"
| "ErrorCode_message GatewayTargetFailed = ''Gateway target device failed to respond''"
| "ErrorCode_message AuthenticationFailed = ''Authentication failed''"
| "ErrorCode_message SessionExpired = ''Session expired''"
| "ErrorCode_message HMACMismatch = ''HMAC verification failed''"
| "ErrorCode_message PipelineOverflow = ''Pipeline capacity exceeded''"
| "ErrorCode_message SubscriptionLimitReached = ''Subscription limit reached''"
| "ErrorCode_message PayloadTooLarge = ''Payload exceeds maximum size''"
| "ErrorCode_message FragmentReassemblyFailed = ''Fragment reassembly failed''"
| "ErrorCode_message TransportDisconnected = ''Transport disconnected''"
| "ErrorCode_message TimeoutExpired = ''Timeout expired''"
| "ErrorCode_message TypeCodecMismatch = ''Type codec mismatch''"
| "ErrorCode_message UnsupportedVersion = ''Unsupported protocol version''"
| "ErrorCode_message CorrelationMismatch = ''Correlation ID mismatch''"
| "ErrorCode_message BatchPartialFailure = ''Batch operation partially failed''"
| "ErrorCode_message InvalidFrame = ''Invalid frame format''"
| "ErrorCode_message CrcMismatch = ''CRC mismatch''"
| "ErrorCode_message DeserializationFailed = ''Deserialization failed''"

text \<open>\<open>std::to_string(int)\<close>: decimal digits, most significant first, with a sign.\<close>

fun nat_to_string :: "nat \<Rightarrow> string" where
  "nat_to_string n =
     (if n < 10 then [char_of (48 + n)] else nat_to_string (n div 10) @ [char_of (48 + n mod 10)])"

declare nat_to_string.simps [simp del]

definition to_string :: "int \<Rightarrow> string" where
  "to_string i = (if i < 0 then CHR ''-'' # nat_to_string (nat (- i)) else nat_to_string (nat i))"

definition ModbusCategory_message :: "int \<Rightarrow> string" where
  "ModbusCategory_message ev =
     (case find (\<lambda>e. ErrorCode_value e = ev) ErrorCode_enumerators of
        Some e \<Rightarrow> ErrorCode_message e
      | None \<Rightarrow> ''Unknown error ('' @ to_string ev @ '')'')"

lemma ErrorCode_enumerators_complete: "e \<in> set ErrorCode_enumerators"
  by (cases e) (simp_all add: ErrorCode_enumerators_def)

lemma distinct_ErrorCode_values: "distinct (map ErrorCode_value ErrorCode_enumerators)"
  by (simp add: ErrorCode_enumerators_def)

lemma distinct_ErrorCode_messages: "distinct (map ErrorCode_message ErrorCode_enumerators)"
  by (simp add: ErrorCode_enumerators_def)

lemma ErrorCode_value_inject [simp]: "ErrorCode_value a = ErrorCode_value b \<longleftrightarrow> a = b"
  using distinct_ErrorCode_values ErrorCode_enumerators_complete
  by (auto simp: distinct_map inj_on_def)

lemma ErrorCode_message_inject: "ErrorCode_message a = ErrorCode_message b \<longleftrightarrow> a = b"
  using distinct_ErrorCode_messages ErrorCode_enumerators_complete
  by (auto simp: distinct_map inj_on_def)

lemma ErrorCode_value_byte: "0 \<le> ErrorCode_value e \<and> ErrorCode_value e < 256"
  by (cases e) simp_all

lemma ErrorCode_value_0_iff [simp]: "ErrorCode_value e = 0 \<longleftrightarrow> e = Success"
  using ErrorCode_value_inject [of e Success] by simp

lemma message_of_enumerator: "ModbusCategory_message (ErrorCode_value e) = ErrorCode_message e"
proof -
  have "find (\<lambda>x. ErrorCode_value x = ErrorCode_value e) ErrorCode_enumerators = Some e"
    by (cases e) (simp_all add: ErrorCode_enumerators_def)
  then show ?thesis by (simp add: ModbusCategory_message_def)
qed

lemma mk_error_inject [simp]: "mk_error a = mk_error b \<longleftrightarrow> a = b"
  by (simp add: mk_error_def make_error_code_def)

lemma ec_bool_mk_error [simp]: "ec_bool (mk_error e) \<longleftrightarrow> e \<noteq> Success"
  by (simp add: ec_bool_def mk_error_def make_error_code_def)

lemma ec_value_mk_error [simp]: "ec_value (mk_error e) = ErrorCode_value e"
  by (simp add: mk_error_def make_error_code_def)

text \<open>Error values that cross the wire in one byte come back unchanged.\<close>

lemma ErrorCode_through_byte:
  "make_error_code (uint (word_of_int (ErrorCode_value e) :: byte)) = mk_error e"
  using ErrorCode_value_byte [of e] by (simp add: mk_error_def uint_word_of_int take_bit_int_eq_self_iff)

section \<open>Result (core/result.hpp)\<close>

datatype 'a Result = Ok 'a | Err error_code

text \<open>
  What the constructor from \<open>std::error_code\<close> asserts. A build without \<open>NDEBUG\<close> ends the program where it does not
  hold; \<open>Err\<close> is the constructor of a build with \<open>NDEBUG\<close>.
\<close>

definition Result_assertion :: "error_code \<Rightarrow> bool" where
  "Result_assertion ec \<longleftrightarrow> ec_bool ec"

definition err :: "ErrorCode \<Rightarrow> 'a Result" where
  "err e = Err (mk_error e)"

fun has_value :: "'a Result \<Rightarrow> bool" where
  "has_value (Ok _) = True"
| "has_value (Err _) = False"

fun result_value :: "'a Result \<Rightarrow> 'a option" where
  \<comment> \<open>\<open>value()\<close>; \<open>None\<close> stands for the exception \<open>std::get\<close> throws on the wrong alternative\<close>
  "result_value (Ok x) = Some x"
| "result_value (Err _) = None"

fun result_error :: "'a Result \<Rightarrow> error_code" where
  "result_error (Ok _) = error_code_default"
| "result_error (Err ec) = ec"

fun value_or :: "'a Result \<Rightarrow> 'a \<Rightarrow> 'a" where
  "value_or (Ok x) d = x"
| "value_or (Err _) d = d"

fun and_then :: "'a Result \<Rightarrow> ('a \<Rightarrow> 'b Result) \<Rightarrow> 'b Result" where
  "and_then (Ok x) f = f x"
| "and_then (Err ec) f = Err ec"

fun result_map :: "'a Result \<Rightarrow> ('a \<Rightarrow> 'b) \<Rightarrow> 'b Result" where
  "result_map (Ok x) f = Ok (f x)"
| "result_map (Err ec) f = Err ec"

text \<open>\<open>Result<void>\<close>: constructed with no argument, or from an error code.\<close>

datatype VoidResult = VoidResult (vr_ec: error_code)

definition void_ok :: VoidResult where
  "void_ok = VoidResult error_code_default"

definition void_err :: "ErrorCode \<Rightarrow> VoidResult" where
  "void_err e = VoidResult (mk_error e)"

definition void_has_value :: "VoidResult \<Rightarrow> bool" where
  "void_has_value r \<longleftrightarrow> \<not> ec_bool (vr_ec r)"

lemma void_has_value_simps [simp]:
  "void_has_value void_ok" "void_has_value (void_err e) \<longleftrightarrow> e = Success"
  by (simp_all add: void_has_value_def void_ok_def void_err_def error_code_default_def ec_bool_def)

lemma and_then_assoc: "and_then (and_then r f) g = and_then r (\<lambda>x. and_then (f x) g)"
  by (cases r) simp_all

lemma result_map_and_then: "result_map r f = and_then r (\<lambda>x. Ok (f x))"
  by (cases r) simp_all

lemma err_inject [simp]: "err a = err b \<longleftrightarrow> a = b" "Ok x \<noteq> err a" "err a \<noteq> Ok x"
  by (simp_all add: err_def)

text \<open>
  \<open>returns_within E r\<close>: the computation \<open>r\<close> has no undefined behaviour and fails, if it fails,
  with one of the error codes \<open>E\<close>. It is the shape of every memory-safety lemma of a parser.
\<close>

fun returns_within :: "ErrorCode set \<Rightarrow> 'a Result option \<Rightarrow> bool" where
  "returns_within E None = False"
| "returns_within E (Some (Ok x)) = True"
| "returns_within E (Some (Err ec)) = (\<exists>e\<in>E. ec = mk_error e)"

lemma returns_within_err [simp]: "returns_within E (Some (err e)) \<longleftrightarrow> e \<in> E"
  by (auto simp: err_def)

lemma returns_within_map:
  "returns_within E r \<Longrightarrow> E \<subseteq> E' \<Longrightarrow> returns_within E'
     (case r of None \<Rightarrow> None | Some (Err ec) \<Rightarrow> Some (Err ec) | Some (Ok x) \<Rightarrow> Some (Ok (g x)))"
  by (cases r; cases "the r") auto

lemma returns_within_defined: "returns_within E r \<Longrightarrow> r \<noteq> None"
  by (cases r) auto

lemma returns_within_errD: "returns_within E (Some (Err ec)) \<Longrightarrow> \<exists>e\<in>E. ec = mk_error e"
  by auto

section \<open>Wire codecs\<close>

text \<open>
  The contract of every serialiser and its parser: a value the format can carry (\<open>fits\<close>) is
  read back from its own encoding. Different values then have different encodings, and bytes
  that encode a value encode no other. The components interpret it on their own operations.
\<close>

locale wire_codec =
  fixes encode :: "'a \<Rightarrow> byte list"
    and decode :: "byte list \<Rightarrow> 'a Result option"
    and fits :: "'a \<Rightarrow> bool"
  assumes decode_encode: "fits x \<Longrightarrow> decode (encode x) = Some (Ok x)"
begin

lemma encode_inject: "fits x \<Longrightarrow> fits y \<Longrightarrow> encode x = encode y \<longleftrightarrow> x = y"
  using decode_encode by (metis Result.inject(1) option.inject)

lemma decode_unique: "fits x \<Longrightarrow> encode x = bs \<Longrightarrow> decode bs = Some (Ok y) \<Longrightarrow> y = x"
  using decode_encode by fastforce

end

end
