(* ===== verification/Transport.thy ===== *)
theory Transport
  imports Complex_Main Core_Types Error_Result
begin

text \<open>
  Component \<open>transport/transport.hpp\<close>: the abstract class \<open>Transport\<close>, and the \<open>double\<close> values
  and durations that the components above it use.

  The virtual functions are the fields of a record of state transformers: a client, a server
  or a pipeline takes the record as its \<open>Transport&\<close> and threads the state \<open>'s\<close> of whatever
  implements it. A duration in milliseconds is an integer.

  A \<open>double\<close> is a rational, an infinity or a NaN; only comparisons are used of it here, and all
  of them are false on a NaN.
\<close>

type_synonym milliseconds = int

type_synonym frame = "byte list"

record 's transport =
  t_send :: "frame \<Rightarrow> 's \<Rightarrow> VoidResult \<times> 's"
  t_receive :: "milliseconds \<Rightarrow> 's \<Rightarrow> frame Result \<times> 's"
  t_connect :: "'s \<Rightarrow> VoidResult \<times> 's"
  t_disconnect :: "'s \<Rightarrow> 's"
  t_is_connected :: "'s \<Rightarrow> bool"
  t_transport_name :: string

definition default_receive_timeout :: milliseconds where
  "default_receive_timeout = 1000"

datatype double = Fin rat | PosInf | NegInf | NaN

fun d_less :: "double \<Rightarrow> double \<Rightarrow> bool" where
  "d_less (Fin a) (Fin b) \<longleftrightarrow> a < b"
| "d_less (Fin a) PosInf \<longleftrightarrow> True"
| "d_less NegInf (Fin b) \<longleftrightarrow> True"
| "d_less NegInf PosInf \<longleftrightarrow> True"
| "d_less _ _ \<longleftrightarrow> False"

lemma d_less_trans: "d_less a b \<Longrightarrow> d_less b c \<Longrightarrow> d_less a c"
  by (cases a; cases b; cases c) auto

lemma d_less_irrefl [simp]: "\<not> d_less a a"
  by (cases a) auto

lemma d_less_NaN [simp]: "\<not> d_less NaN a" "\<not> d_less a NaN"
  by (cases a; simp)+

end
