(* ===== verification/Posix.thy ===== *)
theory Posix
  imports Transport
begin

text \<open>
  The operating system as the socket and serial transports use it. None of it is code of the
  library: the calls are the fields of a record over an unknown system state \<open>'o\<close>, and what
  the transports rely on of POSIX is stated by the predicates below, which appear as
  hypotheses. \<open>read\<close> returns its bytes with its result: \<open>None\<close> is -1, \<open>Some []\<close> is 0 (end of
  file). File descriptors and the other \<open>int\<close> results are integers.
\<close>

datatype poll_event = POLLIN | POLLOUT

record 'o posix =
  px_socket :: "'o \<Rightarrow> int \<times> 'o"
  px_open :: "string \<Rightarrow> 'o \<Rightarrow> int \<times> 'o"
  px_close :: "int \<Rightarrow> 'o \<Rightarrow> 'o"
  px_getfl :: "int \<Rightarrow> 'o \<Rightarrow> int \<times> 'o"
  px_setfl :: "int \<Rightarrow> int \<Rightarrow> 'o \<Rightarrow> 'o"
  px_O_NONBLOCK :: int
  px_inet_pton :: "string \<Rightarrow> u32 option"
  px_connect :: "int \<Rightarrow> u32 \<Rightarrow> u16 \<Rightarrow> 'o \<Rightarrow> (int \<times> bool) \<times> 'o"
  px_poll :: "int \<Rightarrow> poll_event \<Rightarrow> int \<Rightarrow> 'o \<Rightarrow> int \<times> 'o"
  px_so_error :: "int \<Rightarrow> 'o \<Rightarrow> int \<times> 'o"
  px_tcp_nodelay :: "int \<Rightarrow> 'o \<Rightarrow> 'o"
  px_read :: "int \<Rightarrow> nat \<Rightarrow> 'o \<Rightarrow> byte list option \<times> 'o"
  px_write :: "int \<Rightarrow> byte list \<Rightarrow> 'o \<Rightarrow> int \<times> 'o"

text \<open>The conversion \<open>static_cast<int>(timeout.count())\<close>.\<close>

definition int_of_count :: "milliseconds \<Rightarrow> int" where
  "int_of_count ms = sint (word_of_int ms :: 32 word)"

text \<open>
  Documented behaviour. \<open>read_bounded\<close>: \<open>read\<close> returns at most the bytes asked for.
  \<open>stream_source\<close>: as long as bytes are coming in, a \<open>read\<close> of \<open>n > 0\<close> bytes returns one or
  more and at most \<open>n\<close> of them, from the front. \<open>stream_sink\<close>: a \<open>write\<close> accepts one or more
  bytes, not necessarily all.
\<close>

definition read_bounded :: "'o posix \<Rightarrow> bool" where
  "read_bounded px \<longleftrightarrow>
     (\<forall>fd n os bs os'. px_read px fd n os = (Some bs, os') \<longrightarrow> length bs \<le> n)"

definition stream_source :: "'o posix \<Rightarrow> int \<Rightarrow> ('o \<Rightarrow> byte list) \<Rightarrow> bool" where
  "stream_source px fd incoming \<longleftrightarrow>
     (\<forall>n os. 0 < n \<and> incoming os \<noteq> [] \<longrightarrow>
        (\<exists>k os'. 0 < k \<and> k \<le> n \<and> k \<le> length (incoming os)
           \<and> px_read px fd n os = (Some (take k (incoming os)), os')
           \<and> incoming os' = drop k (incoming os)))"

definition stream_ready :: "'o posix \<Rightarrow> int \<Rightarrow> ('o \<Rightarrow> byte list) \<Rightarrow> bool" where
  "stream_ready px fd incoming \<longleftrightarrow>
     (\<forall>ms os. incoming os \<noteq> [] \<longrightarrow>
        (\<exists>os'. px_poll px fd POLLIN ms os = (1, os') \<and> incoming os' = incoming os))"

definition stream_sink :: "'o posix \<Rightarrow> int \<Rightarrow> ('o \<Rightarrow> byte list) \<Rightarrow> bool" where
  "stream_sink px fd sent \<longleftrightarrow>
     (\<forall>bs os. bs \<noteq> [] \<longrightarrow>
        (\<exists>k os'. 0 < k \<and> k \<le> length bs \<and> px_write px fd bs os = (int k, os')
           \<and> sent os' = sent os @ take k bs))"

text \<open>
  \<open>fds_tracked\<close>: \<open>opened\<close> is the set of open descriptors of the process. \<open>socket\<close> and \<open>open\<close>
  fail or open a fresh one, \<open>close\<close> closes one, and the other calls open and close nothing.
\<close>

definition fresh_fd :: "('o \<Rightarrow> int set) \<Rightarrow> 'o \<Rightarrow> int \<times> 'o \<Rightarrow> bool" where
  "fresh_fd opened os r \<longleftrightarrow>
     (if fst r < 0 then opened (snd r) = opened os
      else fst r \<notin> opened os \<and> opened (snd r) = insert (fst r) (opened os))"

definition fds_tracked :: "'o posix \<Rightarrow> ('o \<Rightarrow> int set) \<Rightarrow> bool" where
  "fds_tracked px opened \<longleftrightarrow>
     (\<forall>os. fresh_fd opened os (px_socket px os))
     \<and> (\<forall>path os. fresh_fd opened os (px_open px path os))
     \<and> (\<forall>fd os. opened (px_close px fd os) = opened os - {fd})
     \<and> (\<forall>fd os. opened (snd (px_getfl px fd os)) = opened os)
     \<and> (\<forall>fd f os. opened (px_setfl px fd f os) = opened os)
     \<and> (\<forall>fd a p os. opened (snd (px_connect px fd a p os)) = opened os)
     \<and> (\<forall>fd e t os. opened (snd (px_poll px fd e t os)) = opened os)
     \<and> (\<forall>fd os. opened (snd (px_so_error px fd os)) = opened os)
     \<and> (\<forall>fd os. opened (px_tcp_nodelay px fd os) = opened os)
     \<and> (\<forall>fd n os. opened (snd (px_read px fd n os)) = opened os)
     \<and> (\<forall>fd bs os. opened (snd (px_write px fd bs os)) = opened os)"

lemma fds_tracked_calls:
  assumes "fds_tracked px opened"
  shows "fresh_fd opened os (px_socket px os)" "fresh_fd opened os (px_open px path os)"
    "opened (px_close px fd os) = opened os - {fd}"
    "opened (snd (px_getfl px fd os)) = opened os"
    "opened (px_setfl px fd f os) = opened os"
    "opened (snd (px_connect px fd a p os)) = opened os"
    "opened (snd (px_poll px fd e t os)) = opened os"
    "opened (snd (px_so_error px fd os)) = opened os"
    "opened (px_tcp_nodelay px fd os) = opened os"
    "opened (snd (px_read px fd n os)) = opened os"
    "opened (snd (px_write px fd bs os)) = opened os"
  using assms by (simp_all add: fds_tracked_def)

section \<open>A system to evaluate the models on\<close>

text \<open>
  One connection whose input arrives in the given chunks, that accepts at most \<open>wire_accept\<close>
  bytes a write, and numbers descriptors upwards from 3.
\<close>

record wire =
  wire_in :: "byte list list"
  wire_out :: "byte list"
  wire_fds :: "int list"

definition wire_read :: "nat \<Rightarrow> wire \<Rightarrow> byte list option \<times> wire" where
  "wire_read n w = (case dropWhile (\<lambda>c. c = []) (wire_in w) of
     [] \<Rightarrow> (Some [], w\<lparr>wire_in := []\<rparr>)
   | c # cs \<Rightarrow> (Some (take n c), w\<lparr>wire_in := drop n c # cs\<rparr>))"

definition next_fd :: "int list \<Rightarrow> int" where
  "next_fd fds = foldr max fds 2 + 1"

definition wire_posix :: "nat \<Rightarrow> wire posix" where
  "wire_posix accept = \<lparr>
     px_socket = (\<lambda>w. let fd = next_fd (wire_fds w) in (fd, w\<lparr>wire_fds := fd # wire_fds w\<rparr>)),
     px_open = (\<lambda>path w. let fd = next_fd (wire_fds w) in (fd, w\<lparr>wire_fds := fd # wire_fds w\<rparr>)),
     px_close = (\<lambda>fd w. w\<lparr>wire_fds := removeAll fd (wire_fds w)\<rparr>),
     px_getfl = (\<lambda>fd w. (0, w)),
     px_setfl = (\<lambda>fd fl w. w),
     px_O_NONBLOCK = 2048,
     px_inet_pton = (\<lambda>s. Some 0x7F000001),
     px_connect = (\<lambda>fd a p w. ((0, False), w)),
     px_poll = (\<lambda>fd e t w. (if concat (wire_in w) = [] then 0 else 1, w)),
     px_so_error = (\<lambda>fd w. (0, w)),
     px_tcp_nodelay = (\<lambda>fd w. w),
     px_read = (\<lambda>fd n w. wire_read n w),
     px_write = (\<lambda>fd bs w. (int (min (Suc accept) (length bs)), w\<lparr>wire_out := wire_out w @ take (Suc accept) bs\<rparr>))\<rparr>"

definition wire_incoming :: "wire \<Rightarrow> byte list" where
  "wire_incoming w = concat (wire_in w)"

lemma concat_dropWhile_Nil: "concat (dropWhile (\<lambda>c. c = []) cs) = concat cs"
  by (induction cs) auto

lemma dropWhile_Nil_Cons: "dropWhile (\<lambda>c. c = []) cs = c # cs' \<Longrightarrow> c \<noteq> [] \<and> concat cs = c @ concat cs'"
  by (induction cs) (auto split: if_splits)

lemma wire_stream_source: "stream_source (wire_posix a) fd wire_incoming"
proof -
  have "\<exists>k w'. 0 < k \<and> k \<le> n \<and> k \<le> length (wire_incoming w)
      \<and> wire_read n w = (Some (take k (wire_incoming w)), w')
      \<and> wire_incoming w' = drop k (wire_incoming w)"
    if "0 < n" "wire_incoming w \<noteq> []" for n w
  proof -
    have "dropWhile (\<lambda>c. c = []) (wire_in w) \<noteq> []"
      using that(2) by (auto simp: wire_incoming_def)
    then obtain c cs where c: "dropWhile (\<lambda>c. c = []) (wire_in w) = c # cs"
      by (meson list.exhaust)
    from dropWhile_Nil_Cons [OF c] that show ?thesis
      by (intro exI [of _ "min n (length c)"]) (auto simp: wire_read_def c wire_incoming_def min_def)
  qed
  then show ?thesis by (simp add: stream_source_def wire_posix_def)
qed

lemma wire_stream_ready: "stream_ready (wire_posix a) fd wire_incoming"
  by (simp add: stream_ready_def wire_posix_def wire_incoming_def)

lemma wire_stream_sink: "stream_sink (wire_posix a) fd wire_out"
  unfolding stream_sink_def wire_posix_def
  by (auto intro!: exI [of _ "min (Suc a) (length _)"] simp: min_def Suc_le_eq)

lemma wire_read_bounded: "read_bounded (wire_posix a)"
  by (auto simp: read_bounded_def wire_posix_def wire_read_def split: list.splits)

lemma next_fd_fresh: "next_fd fds \<notin> set fds" "0 \<le> next_fd fds"
proof -
  have "fd \<in> set fds \<Longrightarrow> fd \<le> foldr max fds 2" for fd
    by (induction fds) auto
  moreover have "2 \<le> foldr max fds 2"
    by (induction fds) auto
  ultimately show "next_fd fds \<notin> set fds" "0 \<le> next_fd fds"
    by (auto simp: next_fd_def) force
qed

lemma wire_fds_tracked: "fds_tracked (wire_posix a) (\<lambda>w. set (wire_fds w))"
  using next_fd_fresh(1) next_fd_fresh(2) [THEN leD]
  by (auto simp: fds_tracked_def fresh_fd_def wire_posix_def wire_read_def Let_def split: list.splits)

end
