(* ===== verification/Timestamps.thy ===== *)
theory Timestamps
  imports Modbus_Prelude "HOL-Library.Signed_Division"
begin

text \<open>
  Component \<open>core/timestamp.hpp\<close>: microseconds since the epoch as a signed 64-bit integer, its
  eight-byte wire form, the comparison operators, and the pair \<open>Stamped<T>\<close>.

  The \<open>std::int64_t\<close> is the 64-bit pattern, read as two's complement by \<open>sint\<close>; the
  comparisons are the signed ones and make \<open>Timestamp\<close> a linear order. \<open>Timestamp::now()\<close> reads
  the system clock (\<open>Timestamp_now\<close>, from the count of the clock): an operation of the model that
  calls it takes the reading as an argument.
  The two loops run over the list of their index values.
\<close>

datatype Timestamp = Timestamp (us_since_epoch: u64)

definition from_epoch_us :: "int \<Rightarrow> Timestamp" where
  "from_epoch_us microseconds = Timestamp (word_of_int microseconds)"

definition Timestamp_default :: Timestamp where
  "Timestamp_default = Timestamp 0"

definition epoch_microseconds :: "Timestamp \<Rightarrow> int" where
  "epoch_microseconds t = sint (us_since_epoch t)"

text \<open>
  \<open>system_clock\<close> counts in periods of its own (nanoseconds in the usual libraries: \<open>per_us = 1000\<close>);
  \<open>time_point_cast\<close> to microseconds truncates towards zero. \<open>to_time_point\<close> is the duration since the
  epoch, again in microseconds.
\<close>

definition Timestamp_now :: "int \<Rightarrow> int \<Rightarrow> Timestamp" where
  "Timestamp_now per_us ticks = Timestamp (word_of_int (ticks sdiv per_us))"

definition to_time_point :: "Timestamp \<Rightarrow> int" where
  "to_time_point t = sint (us_since_epoch t)"

lemma Timestamp_now_epoch:
  assumes "0 \<le> ticks" "0 < per_us" "ticks div per_us < 2 ^ 63"
  shows "epoch_microseconds (Timestamp_now per_us ticks) = ticks div per_us"
proof -
  have "0 \<le> ticks div per_us" using assms by (simp add: pos_imp_zdiv_nonneg_iff)
  moreover have "ticks sdiv per_us = ticks div per_us"
    using assms by (simp add: signed_divide_int_def sgn_if)
  ultimately show ?thesis using assms
    by (simp add: epoch_microseconds_def Timestamp_now_def signed_take_bit_int_eq_self sint_sbintrunc')
qed

section \<open>Wire form\<close>

fun Timestamp_serialize_loop :: "nat list \<Rightarrow> u64 \<Rightarrow> byte list \<Rightarrow> byte list" where
  "Timestamp_serialize_loop [] val buf = buf"
| "Timestamp_serialize_loop (i # is) val buf =
     Timestamp_serialize_loop is (drop_bit 8 val) (buf[i := ucast (val AND 0xFF)])"

definition Timestamp_serialize :: "Timestamp \<Rightarrow> byte list" where
  "Timestamp_serialize t =
     Timestamp_serialize_loop [7, 6, 5, 4, 3, 2, 1, 0] (us_since_epoch t) (replicate 8 0)"

fun Timestamp_deserialize_loop :: "byte list \<Rightarrow> nat list \<Rightarrow> u64 \<Rightarrow> u64 option" where
  "Timestamp_deserialize_loop mem [] val = Some val"
| "Timestamp_deserialize_loop mem (i # is) val = do {
     b \<leftarrow> fetch mem i;
     Timestamp_deserialize_loop mem is (push_bit 8 val OR ucast b)
   }"

definition Timestamp_deserialize :: "byte list \<Rightarrow> Timestamp option" where
  "Timestamp_deserialize mem =
     map_option Timestamp (Timestamp_deserialize_loop mem [0, 1, 2, 3, 4, 5, 6, 7] 0)"

section \<open>Order and Stamped\<close>

lemma epoch_microseconds_inject: "epoch_microseconds a = epoch_microseconds b \<longleftrightarrow> a = b"
  by (metis Timestamp.expand epoch_microseconds_def signed_word_eqI)

definition Timestamp_eq :: "Timestamp \<Rightarrow> Timestamp \<Rightarrow> bool" where
  "Timestamp_eq a b \<longleftrightarrow> us_since_epoch a = us_since_epoch b"

definition Timestamp_ne :: "Timestamp \<Rightarrow> Timestamp \<Rightarrow> bool" where
  "Timestamp_ne a b \<longleftrightarrow> us_since_epoch a \<noteq> us_since_epoch b"

definition Timestamp_lt :: "Timestamp \<Rightarrow> Timestamp \<Rightarrow> bool" where
  "Timestamp_lt a b \<longleftrightarrow> sint (us_since_epoch a) < sint (us_since_epoch b)"

definition Timestamp_le :: "Timestamp \<Rightarrow> Timestamp \<Rightarrow> bool" where
  "Timestamp_le a b \<longleftrightarrow> sint (us_since_epoch a) \<le> sint (us_since_epoch b)"

definition Timestamp_gt :: "Timestamp \<Rightarrow> Timestamp \<Rightarrow> bool" where
  "Timestamp_gt a b \<longleftrightarrow> sint (us_since_epoch a) > sint (us_since_epoch b)"

definition Timestamp_ge :: "Timestamp \<Rightarrow> Timestamp \<Rightarrow> bool" where
  "Timestamp_ge a b \<longleftrightarrow> sint (us_since_epoch a) \<ge> sint (us_since_epoch b)"

lemmas Timestamp_compare_defs = Timestamp_eq_def Timestamp_ne_def Timestamp_lt_def Timestamp_le_def
  Timestamp_gt_def Timestamp_ge_def

instantiation Timestamp :: linorder
begin

definition "less_eq a b \<longleftrightarrow> Timestamp_le a b" for a :: Timestamp

definition "less a b \<longleftrightarrow> Timestamp_lt a b" for a :: Timestamp

instance
  by intro_classes
     (auto simp: less_eq_Timestamp_def less_Timestamp_def Timestamp_compare_defs
       epoch_microseconds_inject [unfolded epoch_microseconds_def])

end

lemma Timestamp_less_iff: "a < b \<longleftrightarrow> epoch_microseconds a < epoch_microseconds b"
  by (simp add: less_Timestamp_def Timestamp_lt_def epoch_microseconds_def)

lemma Timestamp_compare [simp]:
  "Timestamp_eq a b \<longleftrightarrow> a = b" "Timestamp_ne a b \<longleftrightarrow> a \<noteq> b"
  "Timestamp_lt a b \<longleftrightarrow> a < b" "Timestamp_le a b \<longleftrightarrow> a \<le> b"
  "Timestamp_gt a b \<longleftrightarrow> b < a" "Timestamp_ge a b \<longleftrightarrow> b \<le> a"
  by (auto simp: less_eq_Timestamp_def less_Timestamp_def Timestamp_compare_defs intro: Timestamp.expand)

record 'a Stamped =
  stamped_value :: 'a
  stamped_timestamp :: Timestamp

definition mk_Stamped :: "'a \<Rightarrow> Timestamp \<Rightarrow> 'a Stamped" where
  "mk_Stamped v ts = \<lparr>stamped_value = v, stamped_timestamp = ts\<rparr>"

definition Stamped_now :: "Timestamp \<Rightarrow> 'a \<Rightarrow> 'a Stamped" where
  "Stamped_now now v = mk_Stamped v now"

section \<open>Facts\<close>

lemma mask8_64: "(0xFF :: u64) = mask 8"
  by (simp add: mask_eq_exp_minus_1)

lemma horner_byte:
  "push_bit 8 (drop_bit 8 v) OR ucast (ucast (v AND 0xFF) :: byte) = (v :: u64)"
proof (rule bit_word_eqI)
  fix n :: nat
  assume "n < LENGTH(64)"
  then show "bit (push_bit 8 (drop_bit 8 v) OR ucast (ucast (v AND 0xFF) :: byte)) n = bit v n"
    by (cases "n < 8") (auto simp: mask8_64 bit_simps)
qed

lemma Timestamp_serialize_unfold:
  "Timestamp_serialize (Timestamp v) =
    [ucast (drop_bit 56 v AND 0xFF), ucast (drop_bit 48 v AND 0xFF), ucast (drop_bit 40 v AND 0xFF),
     ucast (drop_bit 32 v AND 0xFF), ucast (drop_bit 24 v AND 0xFF), ucast (drop_bit 16 v AND 0xFF),
     ucast (drop_bit 8 v AND 0xFF), ucast (v AND 0xFF)]"
  by (simp add: Timestamp_serialize_def eval_nat_numeral)

lemma length_Timestamp_serialize [simp]: "length (Timestamp_serialize t) = 8"
  by (cases t) (simp add: Timestamp_serialize_unfold)

lemma Timestamp_deserialize_unfold:
  "Timestamp_deserialize (b0 # b1 # b2 # b3 # b4 # b5 # b6 # b7 # bs) =
     Some (Timestamp (foldl (\<lambda>v b. push_bit 8 v OR ucast b) 0 [b0, b1, b2, b3, b4, b5, b6, b7]))"
  by (simp add: Timestamp_deserialize_def mem_simps)

lemma Timestamp_roundtrip:
  "Timestamp_deserialize (Timestamp_serialize t @ rest) = Some t"
proof (cases t)
  case (Timestamp v)
  have top: "drop_bit 64 v = 0"
    by (rule bit_word_eqI) (auto simp: bit_simps dest: bit_imp_le_length)
  have step: "push_bit 8 (drop_bit (n + 8) v) OR ucast (ucast (drop_bit n v AND 0xFF) :: byte)
      = drop_bit n v" for n
    using horner_byte [of "drop_bit n v"] by (simp add: add.commute)
  show ?thesis
    using step [of 0] step [of 8] step [of 16] step [of 24] step [of 32] step [of 40]
      step [of 48] step [of 56] top
    by (simp add: Timestamp Timestamp_serialize_unfold Timestamp_deserialize_unfold)
qed

lemma Timestamp_deserialize_exists:
  assumes "8 \<le> length bs"
  shows "\<exists>t. Timestamp_deserialize bs = Some t"
proof -
  have "bs \<noteq> []" using assms by auto
  then show ?thesis using assms by (simp add: Timestamp_deserialize_def fetch_lt)
qed

lemma Timestamp_deserialize_take:
  "8 \<le> n \<Longrightarrow> n \<le> length bs \<Longrightarrow> Timestamp_deserialize (take n bs) = Timestamp_deserialize bs"
  by (simp add: Timestamp_deserialize_def fetch_take)

lemma list_length_8_cases:
  assumes "length xs = 8"
  obtains a b c d e f g h where "xs = [a, b, c, d, e, f, g, h]"
  using assms by (auto simp: numeral_eq_Suc length_Suc_conv)

lemma Timestamp_serialize_deserialize:
  assumes "length bs = 8" "Timestamp_deserialize bs = Some t"
  shows "Timestamp_serialize t = bs"
proof -
  obtain a b c d e f g h where bs: "bs = [a, b, c, d, e, f, g, h]"
    using assms(1) by (rule list_length_8_cases)
  from assms(2) have t: "t = Timestamp (foldl (\<lambda>v b. push_bit 8 v OR ucast b) 0 bs)"
    by (simp add: bs Timestamp_deserialize_unfold)
  show ?thesis
    unfolding t bs Timestamp_serialize_unfold list.inject
    by (intro conjI refl; rule bit_word_eqI)
       (auto simp: mask8_64 bit_simps dest: bit_imp_le_length)
qed

lemma epoch_microseconds_from:
  assumes "- (2 ^ 63) \<le> us" "us < 2 ^ 63"
  shows "epoch_microseconds (from_epoch_us us) = us"
  using assms by (simp add: epoch_microseconds_def from_epoch_us_def signed_of_int
      signed_take_bit_int_eq_self_iff)

end
