(* ===== verification/Pdu.thy ===== *)
theory Pdu
  imports Core_Types Error_Result Timestamps
begin

text \<open>
  Components \<open>core/function_codes.hpp\<close>, \<open>core/pdu.hpp\<close> and \<open>core/pdu.cpp\<close>: the function codes,
  the flags of an extended frame, and the protocol data unit with its serialiser and parser.

  An enumerator is a constructor, its underlying value is \<open>FunctionCode_value\<close> (and so on); a
  PDU holds the raw byte, because the parser casts any byte to \<open>FunctionCode\<close>. The parser
  \<open>PDU_deserialize\<close> reads through a span and is cut where the C++ changes \<open>offset\<close>: the fixed
  header, the optional timestamp, the lengths and payload, the optional HMAC.

  The lemmas show: what is serialised is parsed back (\<open>PDU_wf\<close>), the parser reads inside its
  span whatever the bytes are, it can only fail in two ways, and what it accepts is what the
  serialiser would print.
\<close>

section \<open>Function codes and flags (core/function\_codes.hpp)\<close>

datatype FunctionCode =
    ReadCoils | ReadDiscreteInputs | ReadHoldingRegisters | ReadInputRegisters
  | WriteSingleCoil | WriteSingleRegister | WriteMultipleCoils | WriteMultipleRegisters
  | ReadWriteMultipleRegs | Extended | ExtendedStream

fun FunctionCode_value :: "FunctionCode \<Rightarrow> byte" where
  "FunctionCode_value ReadCoils = 0x01"
| "FunctionCode_value ReadDiscreteInputs = 0x02"
| "FunctionCode_value ReadHoldingRegisters = 0x03"
| "FunctionCode_value ReadInputRegisters = 0x04"
| "FunctionCode_value WriteSingleCoil = 0x05"
| "FunctionCode_value WriteSingleRegister = 0x06"
| "FunctionCode_value WriteMultipleCoils = 0x0F"
| "FunctionCode_value WriteMultipleRegisters = 0x10"
| "FunctionCode_value ReadWriteMultipleRegs = 0x17"
| "FunctionCode_value Extended = 0x6E"
| "FunctionCode_value ExtendedStream = 0x6F"

datatype ExtendedFunctionCode =
    BatchRead | BatchWrite | Subscribe | Unsubscribe | EventNotification
  | AuthChallenge | AuthResponse | Discover | DiscoverResponse | PipelineBegin | PipelineEnd

fun ExtendedFunctionCode_value :: "ExtendedFunctionCode \<Rightarrow> byte" where
  "ExtendedFunctionCode_value BatchRead = 0x01"
| "ExtendedFunctionCode_value BatchWrite = 0x02"
| "ExtendedFunctionCode_value Subscribe = 0x03"
| "ExtendedFunctionCode_value Unsubscribe = 0x04"
| "ExtendedFunctionCode_value EventNotification = 0x05"
| "ExtendedFunctionCode_value AuthChallenge = 0x06"
| "ExtendedFunctionCode_value AuthResponse = 0x07"
| "ExtendedFunctionCode_value Discover = 0x08"
| "ExtendedFunctionCode_value DiscoverResponse = 0x09"
| "ExtendedFunctionCode_value PipelineBegin = 0x0A"
| "ExtendedFunctionCode_value PipelineEnd = 0x0B"

datatype FrameFlag = FlagNone | HasTimestamp | HasHMAC | IsCompressed | IsFragmented | RequiresAck

fun FrameFlag_value :: "FrameFlag \<Rightarrow> u16" where
  "FrameFlag_value FlagNone = 0x0000"
| "FrameFlag_value HasTimestamp = 0x0001"
| "FrameFlag_value HasHMAC = 0x0002"
| "FrameFlag_value IsCompressed = 0x0004"
| "FrameFlag_value IsFragmented = 0x0008"
| "FrameFlag_value RequiresAck = 0x0010"

text \<open>
  A \<open>FrameFlag\<close> variable holds any 16-bit pattern (the bitwise operators cast back to the
  enumeration), so flags in use are words.
\<close>

definition flag_or :: "u16 \<Rightarrow> u16 \<Rightarrow> u16" where
  "flag_or a b = a OR b"

definition flag_and :: "u16 \<Rightarrow> u16 \<Rightarrow> u16" where
  "flag_and a b = a AND b"

definition flag_not :: "u16 \<Rightarrow> u16" where
  "flag_not a = NOT a"

definition flag_and_assign :: "u16 \<Rightarrow> u16 \<Rightarrow> u16" where
  "flag_and_assign a b = flag_and a b"

definition has_flag :: "u16 \<Rightarrow> FrameFlag \<Rightarrow> bool" where
  "has_flag flags flag \<longleftrightarrow> flag_and flags (FrameFlag_value flag) \<noteq> FrameFlag_value FlagNone"

definition set_flag :: "u16 \<Rightarrow> FrameFlag \<Rightarrow> u16" where
  "set_flag flags flag = flag_or flags (FrameFlag_value flag)"

section \<open>FrameHeader and PDU (core/pdu.hpp)\<close>

record FrameHeader =
  version :: byte
  flags :: u16
  correlation_id :: u16
  timestamp :: "Timestamp option"
  ext_function_code :: byte
  payload_length :: u16

definition FrameHeader_default :: FrameHeader where
  "FrameHeader_default = \<lparr>version = 1, flags = FrameFlag_value FlagNone, correlation_id = 0,
     timestamp = None, ext_function_code = 0, payload_length = 0\<rparr>"

record PDU =
  function_code :: byte
  extended_header :: "FrameHeader option"
  payload :: "byte list"
  hmac :: "byte list option"

definition is_standard :: "PDU \<Rightarrow> bool" where
  "is_standard p \<longleftrightarrow> extended_header p = None"

definition is_extended :: "PDU \<Rightarrow> bool" where
  "is_extended p \<longleftrightarrow> extended_header p \<noteq> None"

section \<open>Construction (core/pdu.cpp)\<close>

definition make_standard :: "byte \<Rightarrow> byte list \<Rightarrow> PDU" where
  "make_standard fc data =
     \<lparr>function_code = fc, extended_header = None, payload = data, hmac = None\<rparr>"

definition make_extended :: "FrameHeader \<Rightarrow> byte list \<Rightarrow> byte list option \<Rightarrow> PDU" where
  "make_extended header0 pl mac =
     (let header1 = header0\<lparr>payload_length := of_nat (length pl)\<rparr>;
          header2 = (if timestamp header1 \<noteq> None
                     then header1\<lparr>flags := set_flag (flags header1) HasTimestamp\<rparr> else header1);
          header3 = (if mac \<noteq> None
                     then header2\<lparr>flags := set_flag (flags header2) HasHMAC\<rparr> else header2)
      in \<lparr>function_code = FunctionCode_value Extended, extended_header = Some header3,
          payload = pl, hmac = mac\<rparr>)"

definition is_extended_frame :: "byte span \<Rightarrow> bool option" where
  "is_extended_frame frame =
     (if span_empty frame then Some False
      else do {
        b \<leftarrow> span_at frame 0;
        Some (b = FunctionCode_value Extended \<or> b = FunctionCode_value ExtendedStream)
      })"

section \<open>Serialisation\<close>

definition PDU_serialize :: "PDU \<Rightarrow> byte list" where
  "PDU_serialize p =
     (case extended_header p of
        None \<Rightarrow> function_code p # payload p
      | Some hdr \<Rightarrow>
          [FunctionCode_value Extended, version hdr,
           hi8 (flags hdr), lo8 (flags hdr),
           hi8 (correlation_id hdr), lo8 (correlation_id hdr)]
          @ (case timestamp hdr of
               Some ts \<Rightarrow> if has_flag (flags hdr) HasTimestamp then Timestamp_serialize ts else []
             | None \<Rightarrow> [])
          @ [ext_function_code hdr, hi8 (payload_length hdr), lo8 (payload_length hdr)]
          @ payload p
          @ (case hmac p of
               Some mac \<Rightarrow> if has_flag (flags hdr) HasHMAC then mac else []
             | None \<Rightarrow> []))"

section \<open>Parsing\<close>

definition deserialize_hmac ::
  "byte span \<Rightarrow> byte \<Rightarrow> FrameHeader \<Rightarrow> byte list \<Rightarrow> nat \<Rightarrow> PDU Result option" where
  "deserialize_hmac frame fc hdr pl offset =
     (if has_flag (flags hdr) HasHMAC
      then (if sp_size frame < offset + 32 then Some (err InvalidFrame)
            else do {
              digest \<leftarrow> span_range frame offset (offset + 32);
              Some (Ok \<lparr>function_code = fc, extended_header = Some hdr, payload = pl,
                        hmac = Some digest\<rparr>)
            })
      else Some (Ok \<lparr>function_code = fc, extended_header = Some hdr, payload = pl, hmac = None\<rparr>))"

definition deserialize_payload ::
  "byte span \<Rightarrow> byte \<Rightarrow> FrameHeader \<Rightarrow> nat \<Rightarrow> PDU Result option" where
  "deserialize_payload frame fc hdr offset =
     (if sp_size frame < offset + 3 then Some (err InvalidFrame)
      else do {
        xfc \<leftarrow> span_at frame offset;
        h \<leftarrow> span_at frame (offset + 1);
        l \<leftarrow> span_at frame (offset + 2);
        let hdr' = hdr\<lparr>ext_function_code := xfc, payload_length := be16 h l\<rparr>;
        let start = offset + 3;
        let stop = start + unat (payload_length hdr');
        (if sp_size frame < stop then Some (err InvalidFrame)
         else do {
           pl \<leftarrow> span_range frame start stop;
           deserialize_hmac frame fc hdr' pl stop
         })
      })"

definition deserialize_timestamp ::
  "byte span \<Rightarrow> byte \<Rightarrow> FrameHeader \<Rightarrow> nat \<Rightarrow> PDU Result option" where
  "deserialize_timestamp frame fc hdr offset =
     (if has_flag (flags hdr) HasTimestamp
      then (if sp_size frame < offset + 8 then Some (err InvalidFrame)
            else do {
              ts \<leftarrow> Timestamp_deserialize (drop offset (sp_mem frame));
              deserialize_payload frame fc (hdr\<lparr>timestamp := Some ts\<rparr>) (offset + 8)
            })
      else deserialize_payload frame fc hdr offset)"

definition PDU_deserialize :: "byte span \<Rightarrow> PDU Result option" where
  "PDU_deserialize frame =
     (if sp_size frame < 1 then Some (err InvalidFrame)
      else do {
        fc \<leftarrow> span_at frame 0;
        if fc \<noteq> FunctionCode_value Extended \<and> fc \<noteq> FunctionCode_value ExtendedStream
        then do {
          data \<leftarrow> span_range frame 1 (sp_size frame);
          Some (Ok (make_standard fc data))
        }
        else if sp_size frame < 9 then Some (err InvalidFrame)
        else do {
          ver \<leftarrow> span_at frame 1;
          if ver \<noteq> 1 then Some (err UnsupportedVersion)
          else do {
            fh \<leftarrow> span_at frame 2;
            fl \<leftarrow> span_at frame 3;
            ch \<leftarrow> span_at frame 4;
            cl \<leftarrow> span_at frame 5;
            deserialize_timestamp frame fc
              (FrameHeader_default\<lparr>version := ver, flags := be16 fh fl, correlation_id := be16 ch cl\<rparr>)
              6
          }
        }
      })"

section \<open>What the parser accepts\<close>

text \<open>
  \<open>PDU_wire\<close> describes the PDUs the parser can produce: a standard one has no header and no
  digest, an extended one has version 1, its length field is the length of its payload, and
  the two presence flags agree with the optional fields. \<open>PDU_wf\<close> excludes the stream marker
  0x6F, which the serialiser never prints.
\<close>

definition PDU_wire :: "PDU \<Rightarrow> bool" where
  "PDU_wire p \<longleftrightarrow>
     (case extended_header p of
        None \<Rightarrow> function_code p \<noteq> FunctionCode_value Extended
                \<and> function_code p \<noteq> FunctionCode_value ExtendedStream \<and> hmac p = None
      | Some hdr \<Rightarrow>
          (function_code p = FunctionCode_value Extended
             \<or> function_code p = FunctionCode_value ExtendedStream)
          \<and> version hdr = 1
          \<and> length (payload p) < 2 ^ 16 \<and> payload_length hdr = of_nat (length (payload p))
          \<and> (timestamp hdr \<noteq> None \<longleftrightarrow> has_flag (flags hdr) HasTimestamp)
          \<and> (hmac p \<noteq> None \<longleftrightarrow> has_flag (flags hdr) HasHMAC)
          \<and> (\<forall>m. hmac p = Some m \<longrightarrow> length m = 32))"

definition PDU_wf :: "PDU \<Rightarrow> bool" where
  "PDU_wf p \<longleftrightarrow> PDU_wire p \<and> function_code p \<noteq> FunctionCode_value ExtendedStream"

text \<open>Reads of a valid span depend only on the elements of its view.\<close>

lemma deserialize_hmac_view:
  "span_valid s \<Longrightarrow> deserialize_hmac s fc hdr pl off = deserialize_hmac (span_of (span_list s)) fc hdr pl off"
  by (simp add: deserialize_hmac_def span_range_valid)

lemma deserialize_payload_view:
  "span_valid s \<Longrightarrow> deserialize_payload s fc hdr off = deserialize_payload (span_of (span_list s)) fc hdr off"
  using deserialize_hmac_view [of s]
  by (simp add: deserialize_payload_def span_range_valid span_at_valid Let_def)

lemma deserialize_timestamp_view:
  assumes "span_valid s"
  shows "deserialize_timestamp s fc hdr off = deserialize_timestamp (span_of (span_list s)) fc hdr off"
proof (cases "off + 8 \<le> sp_size s")
  case True
  then have "Timestamp_deserialize (take (sp_size s - off) (drop off (sp_mem s)))
      = Timestamp_deserialize (drop off (sp_mem s))"
    using assms by (intro Timestamp_deserialize_take) (auto simp: span_valid_def)
  moreover have "length (span_list s) = sp_size s" using assms by simp
  ultimately show ?thesis
    using True deserialize_payload_view [OF assms]
    by (simp add: deserialize_timestamp_def drop_take span_list_def [of s] del: length_take)
next
  case False
  then show ?thesis
    using assms deserialize_payload_view [OF assms] by (simp add: deserialize_timestamp_def)
qed

lemma PDU_deserialize_view:
  assumes "span_valid s"
  shows "PDU_deserialize s = PDU_deserialize (span_of (span_list s))"
  using assms deserialize_timestamp_view [OF assms]
  by (simp add: PDU_deserialize_def span_range_valid span_at_valid)

text \<open>The stages on a buffer that is split at the current offset.\<close>

lemma FrameHeader_timestamp_None [simp]:
  "timestamp hdr = None \<Longrightarrow> hdr\<lparr>timestamp := None\<rparr> = hdr"
  by (cases hdr) simp

definition opt_bytes :: "('a \<Rightarrow> byte list) \<Rightarrow> 'a option \<Rightarrow> byte list" where
  "opt_bytes f x = (case x of None \<Rightarrow> [] | Some y \<Rightarrow> f y)"

lemma opt_bytes_simps [simp]: "opt_bytes f None = []" "opt_bytes f (Some y) = f y"
  by (simp_all add: opt_bytes_def)

lemma deserialize_hmac_append:
  "deserialize_hmac (span_of (pre @ rest)) fc hdr pl (length pre) =
     Some (if has_flag (flags hdr) HasHMAC
           then (if length rest < 32 then err InvalidFrame
                 else Ok \<lparr>function_code = fc, extended_header = Some hdr, payload = pl,
                          hmac = Some (take 32 rest)\<rparr>)
           else Ok \<lparr>function_code = fc, extended_header = Some hdr, payload = pl, hmac = None\<rparr>)"
  by (simp add: deserialize_hmac_def span_range_def mem_simps fetch_range_le)

lemma deserialize_hmac_Ok_iff:
  "deserialize_hmac (span_of (pre @ rest)) fc hdr pl (length pre) = Some (Ok p) \<longleftrightarrow>
     (\<exists>mac rest'. rest = opt_bytes (\<lambda>m. m) mac @ rest'
        \<and> (mac \<noteq> None \<longleftrightarrow> has_flag (flags hdr) HasHMAC)
        \<and> (\<forall>m. mac = Some m \<longrightarrow> length m = 32)
        \<and> p = \<lparr>function_code = fc, extended_header = Some hdr, payload = pl, hmac = mac\<rparr>)"
  (is "?L \<longleftrightarrow> ?R")
proof
  assume ?L
  show ?R
  proof (cases "has_flag (flags hdr) HasHMAC")
    case True
    with \<open>?L\<close> show ?thesis
      by (intro exI [of _ "Some (take 32 rest)"] exI [of _ "drop 32 rest"])
         (auto simp: deserialize_hmac_append split: if_splits)
  next
    case False
    with \<open>?L\<close> show ?thesis by (auto simp: deserialize_hmac_append)
  qed
next
  assume ?R
  then obtain mac rest' where rest: "rest = opt_bytes (\<lambda>m. m) mac @ rest'"
    and R: "mac \<noteq> None \<longleftrightarrow> has_flag (flags hdr) HasHMAC" "\<forall>m. mac = Some m \<longrightarrow> length m = 32"
      "p = \<lparr>function_code = fc, extended_header = Some hdr, payload = pl, hmac = mac\<rparr>"
    by blast
  show ?L
    using R by (cases mac) (simp_all add: deserialize_hmac_append rest)
qed

lemma deserialize_payload_append:
  "deserialize_payload (span_of (pre @ rest)) fc hdr (length pre) =
     (case rest of
        x # h # l # r \<Rightarrow>
          (if length r < unat (be16 h l) then Some (err InvalidFrame)
           else deserialize_hmac (span_of (pre @ rest)) fc
                  (hdr\<lparr>ext_function_code := x, payload_length := be16 h l\<rparr>)
                  (take (unat (be16 h l)) r) (length pre + 3 + unat (be16 h l)))
      | _ \<Rightarrow> Some (err InvalidFrame))"
proof -
  have "fetch_range (pre @ x # h # l # r) (length pre + 3) (length pre + 3 + n) = Some (take n r)"
    if "n \<le> length r" for x h l r n
    using fetch_range_append_length(1) [of "pre @ [x, h, l]" r 0 n] that
    by (simp add: fetch_range_le add.commute add.left_commute)
  then show ?thesis
    by (auto simp: deserialize_payload_def span_range_def span_at_def mem_simps Let_def not_less
        split: list.splits)
qed

definition len_bytes :: "byte \<Rightarrow> byte list \<Rightarrow> byte list" where
  "len_bytes x pl = [x, hi8 (of_nat (length pl)), lo8 (of_nat (length pl))]"

lemma length_len_bytes [simp]: "length (len_bytes x pl) = 3"
  by (simp add: len_bytes_def)

lemma deserialize_payload_Ok_iff:
  "deserialize_payload (span_of (pre @ rest)) fc hdr (length pre) = Some (Ok p) \<longleftrightarrow>
     (\<exists>x pl r. length pl < 2 ^ 16 \<and> rest = len_bytes x pl @ pl @ r
        \<and> deserialize_hmac (span_of ((pre @ len_bytes x pl @ pl) @ r)) fc
            (hdr\<lparr>ext_function_code := x, payload_length := of_nat (length pl)\<rparr>) pl
            (length (pre @ len_bytes x pl @ pl)) = Some (Ok p))"
  (is "?L \<longleftrightarrow> (\<exists>x pl r. ?R x pl r)")
proof
  assume ?L
  then obtain x h l r where rest: "rest = x # h # l # r" and n: "unat (be16 h l) \<le> length r"
    by (auto simp: deserialize_payload_append split: list.splits if_splits)
  define pl where "pl = take (unat (be16 h l)) r"
  have len: "length pl = unat (be16 h l)" using n by (simp add: pl_def)
  have lb: "len_bytes x pl = [x, h, l]" by (simp add: len_bytes_def len be_simps)
  have r: "pl @ drop (unat (be16 h l)) r = r" by (simp add: pl_def)
  have "?R x pl (drop (unat (be16 h l)) r)"
    using \<open>?L\<close> n unat_u16_less [of "be16 h l"]
    by (simp add: rest deserialize_payload_append lb len r)
       (simp add: pl_def add.commute [of "unat (be16 h l)"] numeral_3_eq_3)
  then show "\<exists>x pl r. ?R x pl r" by blast
next
  assume "\<exists>x pl r. ?R x pl r"
  then obtain x pl r where R: "?R x pl r" by blast
  then have n: "unat (of_nat (length pl) :: u16) = length pl" by simp
  from R have rest: "rest = len_bytes x pl @ pl @ r" by simp
  from R n show ?L
    by (simp add: rest deserialize_payload_append len_bytes_def be_simps numeral_3_eq_3)
qed

lemma deserialize_payload_OkI:
  assumes "length pl < 2 ^ 16"
    and "deserialize_hmac (span_of ((pre @ len_bytes x pl @ pl) @ r)) fc
           (hdr\<lparr>ext_function_code := x, payload_length := of_nat (length pl)\<rparr>) pl
           (length (pre @ len_bytes x pl @ pl)) = Some (Ok p)"
  shows "deserialize_payload (span_of (pre @ len_bytes x pl @ pl @ r)) fc hdr (length pre) = Some (Ok p)"
  unfolding deserialize_payload_Ok_iff using assms by blast

lemma deserialize_timestamp_Ok_iff:
  assumes "timestamp hdr = None"
  shows "deserialize_timestamp (span_of (pre @ rest)) fc hdr (length pre) = Some (Ok p) \<longleftrightarrow>
     (\<exists>ts r. rest = opt_bytes Timestamp_serialize ts @ r
        \<and> (ts \<noteq> None \<longleftrightarrow> has_flag (flags hdr) HasTimestamp)
        \<and> deserialize_payload (span_of ((pre @ opt_bytes Timestamp_serialize ts) @ r)) fc
             (hdr\<lparr>timestamp := ts\<rparr>) (length (pre @ opt_bytes Timestamp_serialize ts)) = Some (Ok p))"
  (is "?L \<longleftrightarrow> (\<exists>ts r. ?R ts r)")
proof (cases "has_flag (flags hdr) HasTimestamp")
  case True
  show ?thesis
  proof
    assume ?L
    with True have len: "8 \<le> length rest"
      by (auto simp: deserialize_timestamp_def split: if_splits)
    then obtain tb r where rest: "rest = tb @ r" and tb: "length tb = 8"
      by (rule length_ge_split)
    obtain t where t: "Timestamp_deserialize rest = Some t"
      using Timestamp_deserialize_exists [OF len] by blast
    then have "Timestamp_deserialize tb = Some t"
      using Timestamp_deserialize_take [of 8 rest] len by (simp add: rest tb)
    then have "Timestamp_serialize t = tb"
      using tb by (rule Timestamp_serialize_deserialize [rotated])
    with True \<open>?L\<close> t len have "?R (Some t) r"
      by (simp add: rest tb deserialize_timestamp_def)
    then show "\<exists>ts r. ?R ts r" by blast
  next
    assume "\<exists>ts r. ?R ts r"
    then obtain ts r where R: "?R ts r" by blast
    with True obtain t where ts: "ts = Some t" by blast
    from R ts have rest: "rest = Timestamp_serialize t @ r" by simp
    from R True show ?L
      by (simp add: deserialize_timestamp_def rest ts Timestamp_roundtrip)
  qed
next
  case False
  then have "deserialize_timestamp (span_of (pre @ rest)) fc hdr (length pre) =
      deserialize_payload (span_of (pre @ rest)) fc hdr (length pre)"
    by (simp add: deserialize_timestamp_def)
  with False assms show ?thesis by simp
qed

lemma deserialize_timestamp_OkI:
  assumes "timestamp hdr = None" "ts \<noteq> None \<longleftrightarrow> has_flag (flags hdr) HasTimestamp"
    and "deserialize_payload (span_of ((pre @ opt_bytes Timestamp_serialize ts) @ r)) fc
           (hdr\<lparr>timestamp := ts\<rparr>) (length (pre @ opt_bytes Timestamp_serialize ts)) = Some (Ok p)"
  shows "deserialize_timestamp (span_of (pre @ opt_bytes Timestamp_serialize ts @ r)) fc hdr (length pre)
           = Some (Ok p)"
  unfolding deserialize_timestamp_Ok_iff [OF assms(1)] using assms(2,3) by blast

lemma PDU_deserialize_extended:
  assumes "fc = FunctionCode_value Extended \<or> fc = FunctionCode_value ExtendedStream"
    and "3 \<le> length rest"
  shows "PDU_deserialize (span_of ([fc, v, fh, fl, ch, cl] @ rest)) =
     (if v \<noteq> 1 then Some (err UnsupportedVersion)
      else deserialize_timestamp (span_of ([fc, v, fh, fl, ch, cl] @ rest)) fc
             (FrameHeader_default\<lparr>version := 1, flags := be16 fh fl, correlation_id := be16 ch cl\<rparr>)
             6)"
  using assms
  by (elim disjE) (simp_all add: PDU_deserialize_def span_at_def mem_simps)

lemma PDU_serialize_extended:
  assumes "extended_header p = Some hdr" "PDU_wire p"
  shows "PDU_serialize p =
     [FunctionCode_value Extended, 1, hi8 (flags hdr), lo8 (flags hdr),
      hi8 (correlation_id hdr), lo8 (correlation_id hdr)]
     @ opt_bytes Timestamp_serialize (timestamp hdr)
     @ len_bytes (ext_function_code hdr) (payload p) @ payload p @ opt_bytes (\<lambda>m. m) (hmac p)"
  using assms
  by (auto simp: PDU_serialize_def PDU_wire_def len_bytes_def split: option.splits)

lemma PDU_deserialize_extended_sound:
  assumes fc: "fc = FunctionCode_value Extended \<or> fc = FunctionCode_value ExtendedStream"
    and ok: "PDU_deserialize (span_of (fc # bs)) = Some (Ok p)"
  shows "PDU_wire p \<and> is_extended p \<and> function_code p = fc \<and> (\<exists>rest. bs = tl (PDU_serialize p) @ rest)"
proof -
  have "8 \<le> length bs"
    using fc ok by (auto simp: PDU_deserialize_def span_at_def mem_simps split: if_splits)
  then obtain v fh fl ch cl r where bs: "bs = v # fh # fl # ch # cl # r" and r3: "3 \<le> length r"
    by (auto simp: numeral_eq_Suc Suc_le_length_iff)
  let ?pre = "[fc, 1, fh, fl, ch, cl]"
  let ?hdr = "FrameHeader_default\<lparr>version := 1, flags := be16 fh fl, correlation_id := be16 ch cl\<rparr>"
  have v: "v = 1"
    and ts_ok: "deserialize_timestamp (span_of (?pre @ r)) fc ?hdr (length ?pre) = Some (Ok p)"
    using ok PDU_deserialize_extended [OF fc r3, of v fh fl ch cl]
    by (auto simp: bs numeral_eq_Suc split: if_splits)
  have none: "timestamp ?hdr = None" by (simp add: FrameHeader_default_def)
  from ts_ok [unfolded deserialize_timestamp_Ok_iff [OF none]]
  obtain ts r2 where r: "r = opt_bytes Timestamp_serialize ts @ r2"
    and ts: "ts \<noteq> None \<longleftrightarrow> has_flag (flags ?hdr) HasTimestamp"
    and pl_ok: "deserialize_payload (span_of ((?pre @ opt_bytes Timestamp_serialize ts) @ r2)) fc
           (?hdr\<lparr>timestamp := ts\<rparr>) (length (?pre @ opt_bytes Timestamp_serialize ts)) = Some (Ok p)"
    by blast
  from pl_ok [unfolded deserialize_payload_Ok_iff]
  obtain x pl r3 where len: "length pl < 2 ^ 16" and r2: "r2 = len_bytes x pl @ pl @ r3"
    and mac_ok: "deserialize_hmac
           (span_of (((?pre @ opt_bytes Timestamp_serialize ts) @ len_bytes x pl @ pl) @ r3)) fc
           (?hdr\<lparr>timestamp := ts, ext_function_code := x, payload_length := of_nat (length pl)\<rparr>) pl
           (length ((?pre @ opt_bytes Timestamp_serialize ts) @ len_bytes x pl @ pl)) = Some (Ok p)"
    by blast
  from mac_ok [unfolded deserialize_hmac_Ok_iff]
  obtain mac rest where r3: "r3 = opt_bytes (\<lambda>m. m) mac @ rest"
    and mac: "mac \<noteq> None \<longleftrightarrow> has_flag (be16 fh fl) HasHMAC" "\<forall>m. mac = Some m \<longrightarrow> length m = 32"
    and p: "p = \<lparr>function_code = fc, extended_header = Some (?hdr\<lparr>timestamp := ts,
        ext_function_code := x, payload_length := of_nat (length pl)\<rparr>), payload = pl, hmac = mac\<rparr>"
    by auto
  have wire: "PDU_wire p"
    using fc ts mac len by (simp add: PDU_wire_def p)
  have "bs = tl (PDU_serialize p) @ rest"
    using PDU_serialize_extended [OF _ wire]
    by (simp add: p bs v r r2 r3 be_simps)
  with wire show ?thesis by (auto simp: p is_extended_def)
qed

lemma PDU_deserialize_extended_complete:
  assumes wire: "PDU_wire p" and ext: "extended_header p = Some hdr"
  shows "PDU_deserialize (span_of (function_code p # tl (PDU_serialize p) @ rest)) = Some (Ok p)"
proof -
  let ?pre = "[function_code p, 1, hi8 (flags hdr), lo8 (flags hdr),
      hi8 (correlation_id hdr), lo8 (correlation_id hdr)]"
  let ?ts = "opt_bytes Timestamp_serialize (timestamp hdr)"
  let ?len = "len_bytes (ext_function_code hdr) (payload p)"
  let ?mac = "opt_bytes (\<lambda>m. m) (hmac p)"
  let ?h0 = "FrameHeader_default\<lparr>version := 1, flags := flags hdr, correlation_id := correlation_id hdr\<rparr>"
  have h: "?h0\<lparr>timestamp := timestamp hdr, ext_function_code := ext_function_code hdr,
      payload_length := of_nat (length (payload p))\<rparr> = hdr"
    using wire ext by (cases hdr) (simp add: PDU_wire_def FrameHeader_default_def)
  have len6: "length ?pre = 6" by simp
  have mac_ok: "deserialize_hmac (span_of (((?pre @ ?ts) @ ?len @ payload p) @ ?mac @ rest))
      (function_code p) hdr (payload p) (length ((?pre @ ?ts) @ ?len @ payload p)) = Some (Ok p)"
    unfolding deserialize_hmac_Ok_iff
    using wire ext by (intro exI [of _ "hmac p"] exI [of _ rest]) (auto simp: PDU_wire_def)
  have pl_ok: "deserialize_payload (span_of ((?pre @ ?ts) @ ?len @ payload p @ ?mac @ rest))
      (function_code p) (?h0\<lparr>timestamp := timestamp hdr\<rparr>) (length (?pre @ ?ts)) = Some (Ok p)"
    by (rule deserialize_payload_OkI, unfold h)
       (use wire ext mac_ok in \<open>auto simp: PDU_wire_def\<close>)
  have "deserialize_timestamp (span_of (?pre @ ?ts @ ?len @ payload p @ ?mac @ rest)) (function_code p)
      ?h0 (length ?pre) = Some (Ok p)"
    by (rule deserialize_timestamp_OkI [OF _ _ pl_ok])
       (use wire ext in \<open>auto simp: FrameHeader_default_def PDU_wire_def\<close>)
  then have "deserialize_timestamp (span_of (?pre @ ?ts @ ?len @ payload p @ ?mac @ rest)) (function_code p)
      ?h0 6 = Some (Ok p)"
    by (simp only: len6)
  then show ?thesis
    using wire ext
      PDU_deserialize_extended [of "function_code p" "?ts @ ?len @ payload p @ ?mac @ rest" 1
        "hi8 (flags hdr)" "lo8 (flags hdr)" "hi8 (correlation_id hdr)" "lo8 (correlation_id hdr)"]
    by (simp add: PDU_serialize_extended be_simps PDU_wire_def)
qed

lemma PDU_deserialize_standard:
  assumes "fc \<noteq> FunctionCode_value Extended" "fc \<noteq> FunctionCode_value ExtendedStream"
  shows "PDU_deserialize (span_of (fc # bs)) = Some (Ok (make_standard fc bs))"
  using assms
  by (simp add: PDU_deserialize_def span_at_def span_range_def mem_simps fetch_range_le)

lemma PDU_deserialize_Ok_iff:
  "PDU_deserialize (span_of bs) = Some (Ok p) \<longleftrightarrow>
     PDU_wire p \<and> (\<exists>rest. bs = function_code p # tl (PDU_serialize p) @ rest
                       \<and> (is_standard p \<longrightarrow> rest = []))"
proof (cases bs)
  case Nil
  then show ?thesis by (simp add: PDU_deserialize_def)
next
  case (Cons fc bs')
  show ?thesis
  proof (cases "fc = FunctionCode_value Extended \<or> fc = FunctionCode_value ExtendedStream")
    case True
    show ?thesis
    proof
      assume "PDU_deserialize (span_of bs) = Some (Ok p)"
      then have "PDU_deserialize (span_of (fc # bs')) = Some (Ok p)" by (simp only: Cons)
      from PDU_deserialize_extended_sound [OF True this]
      obtain rest where "PDU_wire p" "is_extended p" "bs = function_code p # tl (PDU_serialize p) @ rest"
        unfolding Cons by metis
      then show "PDU_wire p \<and> (\<exists>rest. bs = function_code p # tl (PDU_serialize p) @ rest
          \<and> (is_standard p \<longrightarrow> rest = []))"
        unfolding is_extended_def is_standard_def by metis
    next
      assume R: "PDU_wire p \<and> (\<exists>rest. bs = function_code p # tl (PDU_serialize p) @ rest
          \<and> (is_standard p \<longrightarrow> rest = []))"
      then obtain rest where rest: "bs = function_code p # tl (PDU_serialize p) @ rest" by blast
      with True Cons have fc: "function_code p = FunctionCode_value Extended
          \<or> function_code p = FunctionCode_value ExtendedStream" by simp
      with R obtain hdr where "extended_header p = Some hdr"
        unfolding PDU_wire_def by (cases "extended_header p") auto
      then show "PDU_deserialize (span_of bs) = Some (Ok p)"
        unfolding rest using R by (intro PDU_deserialize_extended_complete) simp_all
    qed
  next
    case False
    have "p = make_standard fc bs' \<longleftrightarrow>
        PDU_wire p \<and> (\<exists>rest. fc # bs' = function_code p # tl (PDU_serialize p) @ rest
                          \<and> (is_standard p \<longrightarrow> rest = []))" (is "?L \<longleftrightarrow> ?R")
    proof
      assume p: ?L
      from False show ?R
        unfolding p by (simp add: PDU_wire_def make_standard_def PDU_serialize_def)
    next
      assume ?R
      with False have std: "extended_header p = None" "hmac p = None" "function_code p = fc"
        by (auto simp: PDU_wire_def split: option.splits)
      with \<open>?R\<close> have "payload p = bs'"
        by (simp add: is_standard_def PDU_serialize_def)
      with std show ?L by (cases p) (simp add: make_standard_def)
    qed
    then show ?thesis
      using False PDU_deserialize_standard [of fc bs'] by (auto simp: Cons)
  qed
qed

section \<open>Memory safety\<close>

lemma deserialize_hmac_safe:
  assumes "span_valid s"
  shows "returns_within {InvalidFrame, UnsupportedVersion} (deserialize_hmac s fc hdr pl off)"
  using assms by (simp add: deserialize_hmac_def span_range_valid)

lemma deserialize_payload_safe:
  assumes "span_valid s"
  shows "returns_within {InvalidFrame, UnsupportedVersion} (deserialize_payload s fc hdr off)"
  using assms
  by (simp add: deserialize_payload_def span_range_valid span_at_valid Let_def deserialize_hmac_safe)

lemma deserialize_timestamp_safe:
  assumes "span_valid s"
  shows "returns_within {InvalidFrame, UnsupportedVersion} (deserialize_timestamp s fc hdr off)"
proof -
  have "\<exists>t. Timestamp_deserialize (drop off (sp_mem s)) = Some t" if "\<not> sp_size s < off + 8"
    using that assms by (intro Timestamp_deserialize_exists) (simp add: span_valid_def)
  then show ?thesis
    using assms by (auto simp: deserialize_timestamp_def deserialize_payload_safe)
qed

lemma PDU_deserialize_safe:
  assumes "span_valid s"
  shows "returns_within {InvalidFrame, UnsupportedVersion} (PDU_deserialize s)"
  using assms
  by (simp add: PDU_deserialize_def span_range_valid span_at_valid deserialize_timestamp_safe)

section \<open>Round trips\<close>

lemma PDU_serialize_not_Nil [simp]: "PDU_serialize p \<noteq> []"
  by (simp add: PDU_serialize_def split: option.splits)

lemma hd_PDU_serialize: "PDU_wf p \<Longrightarrow> hd (PDU_serialize p) = function_code p"
  by (auto simp: PDU_serialize_def PDU_wf_def PDU_wire_def split: option.splits)

lemma PDU_serialize_split: "PDU_wf p \<Longrightarrow> function_code p # tl (PDU_serialize p) = PDU_serialize p"
  using hd_PDU_serialize [of p] by (metis PDU_serialize_not_Nil list.collapse)

lemma PDU_roundtrip:
  assumes "PDU_wf p"
  shows "PDU_deserialize (span_of (PDU_serialize p)) = Some (Ok p)"
  using assms PDU_serialize_split [OF assms]
  by (subst PDU_deserialize_Ok_iff) (auto simp: PDU_wf_def intro: exI [of _ "[]"])

lemma PDU_roundtrip_view:
  assumes "PDU_wf p" "span_valid s" "span_list s = PDU_serialize p"
  shows "PDU_deserialize s = Some (Ok p)"
  using assms PDU_roundtrip PDU_deserialize_view by metis

lemma make_standard_wf [simp]:
  "PDU_wf (make_standard fc data) \<longleftrightarrow>
     fc \<noteq> FunctionCode_value Extended \<and> fc \<noteq> FunctionCode_value ExtendedStream"
  by (simp add: PDU_wf_def PDU_wire_def make_standard_def)

lemma make_standard_sel [simp]:
  "function_code (make_standard fc data) = fc" "payload (make_standard fc data) = data"
  "extended_header (make_standard fc data) = None" "hmac (make_standard fc data) = None"
  by (simp_all add: make_standard_def)

lemma PDU_serialize_standard [simp]: "PDU_serialize (make_standard fc data) = fc # data"
  by (simp add: PDU_serialize_def)

lemma has_flag_set:
  "has_flag (set_flag fl HasTimestamp) HasTimestamp" "has_flag (set_flag fl HasHMAC) HasHMAC"
  "has_flag (set_flag fl HasTimestamp) HasHMAC = has_flag fl HasHMAC"
  "has_flag (set_flag fl HasHMAC) HasTimestamp = has_flag fl HasTimestamp"
proof -
  have *: "has_flag fl' HasTimestamp \<longleftrightarrow> bit fl' 0" "has_flag fl' HasHMAC \<longleftrightarrow> bit fl' 1" for fl'
  proof -
    have "has_flag fl' HasTimestamp \<longleftrightarrow> fl' AND push_bit 0 1 \<noteq> 0"
      and "has_flag fl' HasHMAC \<longleftrightarrow> fl' AND push_bit 1 1 \<noteq> 0"
      by (simp_all add: has_flag_def flag_and_def)
    then show "has_flag fl' HasTimestamp \<longleftrightarrow> bit fl' 0" "has_flag fl' HasHMAC \<longleftrightarrow> bit fl' 1"
      by (simp_all only: bit_iff_and_push_bit_not_eq_0)
  qed
  show "has_flag (set_flag fl HasTimestamp) HasTimestamp" "has_flag (set_flag fl HasHMAC) HasHMAC"
    "has_flag (set_flag fl HasTimestamp) HasHMAC = has_flag fl HasHMAC"
    "has_flag (set_flag fl HasHMAC) HasTimestamp = has_flag fl HasTimestamp"
    by (simp_all add: * set_flag_def flag_or_def bit_simps)
qed

text \<open>\<open>flags &= ~f\<close> clears the flag \<open>f\<close> and no other one.\<close>

lemma has_flag_bit:
  "has_flag v HasTimestamp \<longleftrightarrow> bit v 0" "has_flag v HasHMAC \<longleftrightarrow> bit v 1" "has_flag v IsCompressed \<longleftrightarrow> bit v 2"
  "has_flag v IsFragmented \<longleftrightarrow> bit v 3" "has_flag v RequiresAck \<longleftrightarrow> bit v 4"
  using and_exp_eq_0_iff_not_bit [of v 0] and_exp_eq_0_iff_not_bit [of v 1] and_exp_eq_0_iff_not_bit [of v 2]
    and_exp_eq_0_iff_not_bit [of v 3] and_exp_eq_0_iff_not_bit [of v 4]
  by (simp_all add: has_flag_def flag_and_def)

lemma has_flag_clear:
  assumes "f \<noteq> FlagNone"
  shows "has_flag (flag_and_assign fl (flag_not (FrameFlag_value g))) f \<longleftrightarrow> f \<noteq> g \<and> has_flag fl f"
  using assms
  by (cases f; cases g; simp add: has_flag_bit flag_and_assign_def flag_and_def flag_not_def bit_and_iff bit_not_iff)

lemma make_extended_sel [simp]:
  "function_code (make_extended h pl mac) = FunctionCode_value Extended"
  "payload (make_extended h pl mac) = pl" "hmac (make_extended h pl mac) = mac"
  "is_extended (make_extended h pl mac)"
  by (simp_all add: make_extended_def Let_def is_extended_def)

lemma make_extended_header:
  "extended_header (make_extended h pl mac) =
     Some (h\<lparr>payload_length := of_nat (length pl),
             flags := (let fl = (if timestamp h \<noteq> None then set_flag (flags h) HasTimestamp else flags h)
                       in if mac \<noteq> None then set_flag fl HasHMAC else fl)\<rparr>)"
  by (cases h) (simp add: make_extended_def Let_def)

lemma make_extended_wf:
  "PDU_wf (make_extended h pl mac) \<longleftrightarrow>
     version h = 1 \<and> length pl < 2 ^ 16
     \<and> (has_flag (flags h) HasTimestamp \<longrightarrow> timestamp h \<noteq> None)
     \<and> (has_flag (flags h) HasHMAC \<longrightarrow> mac \<noteq> None)
     \<and> (\<forall>m. mac = Some m \<longrightarrow> length m = 32)"
  by (auto simp: PDU_wf_def PDU_wire_def make_extended_header has_flag_set Let_def)

lemma has_flag_None [simp]: "\<not> has_flag 0 f"
  by (simp add: has_flag_def flag_and_def)

lemma make_extended_carried:
  assumes "version h = 1" "flags h = 0" "length pl < 65400" "\<And>m. mac = Some m \<Longrightarrow> length m = 32"
  shows "PDU_wf (make_extended h pl mac)" "1 + length (PDU_serialize (make_extended h pl mac)) < 2 ^ 16"
proof -
  show wf: "PDU_wf (make_extended h pl mac)"
    using assms by (simp add: make_extended_wf)
  then have "PDU_wire (make_extended h pl mac)" by (simp add: PDU_wf_def)
  from PDU_serialize_extended [OF make_extended_header this] assms
  show "1 + length (PDU_serialize (make_extended h pl mac)) < 2 ^ 16"
    by (cases "timestamp h"; cases mac) (simp_all add: opt_bytes_def)
qed


lemma PDU_roundtrip_iff:
  "PDU_deserialize (span_of (PDU_serialize p)) = Some (Ok p) \<longleftrightarrow> PDU_wf p"
proof
  assume ok: "PDU_deserialize (span_of (PDU_serialize p)) = Some (Ok p)"
  then have "PDU_wire p" and hd: "hd (PDU_serialize p) = function_code p"
    unfolding PDU_deserialize_Ok_iff by (metis list.sel(1))+
  moreover have "function_code p \<noteq> FunctionCode_value ExtendedStream"
    using hd \<open>PDU_wire p\<close> by (auto simp: PDU_serialize_def PDU_wire_def split: option.splits)
  ultimately show "PDU_wf p" by (simp add: PDU_wf_def)
qed (rule PDU_roundtrip)

interpretation pdu_codec: wire_codec PDU_serialize "\<lambda>bs. PDU_deserialize (span_of bs)" PDU_wf
  by unfold_locales (rule PDU_roundtrip)

section \<open>Properties\<close>

text \<open>
  Property C21. What the parser accepts: on any bytes, \<open>PDU_deserialize\<close> returns the PDU \<open>p\<close> if
  and only if \<open>p\<close> is a PDU of the wire format and the bytes are its encoding (with either of
  the two extended markers as first byte), followed in the extended case by any further
  bytes, which are ignored.
\<close>

theorem pdu_parse_exact:
  "PDU_deserialize (span_of bs) = Some (Ok p) \<longleftrightarrow>
     PDU_wire p \<and> (\<exists>rest. bs = function_code p # tl (PDU_serialize p) @ rest
                       \<and> (is_extended p \<or> rest = []))"
proof -
  have "(is_extended p \<or> rest = []) = (is_standard p \<longrightarrow> rest = [])" for rest :: "byte list"
    by (auto simp: is_extended_def is_standard_def)
  then show ?thesis by (simp only: PDU_deserialize_Ok_iff)
qed

text \<open>
  Serialising and parsing gives the PDU back for exactly the well-formed PDUs.
\<close>

theorem pdu_roundtrip_exact:
  "PDU_deserialize (span_of (PDU_serialize p)) = Some (Ok p) \<longleftrightarrow> PDU_wf p"
  by (rule PDU_roundtrip_iff)

text \<open>
  The two factories: a standard PDU survives the wire unless its function code is
  one of the extended markers; an extended one does when its version is 1, its payload fits
  the length field, its digest has 32 bytes and its header does not claim an optional part
  that is absent (the factory sets the presence flags, it never clears them).
\<close>

theorem factories_roundtrip:
  "(PDU_deserialize (span_of (PDU_serialize (make_standard fc data))) = Some (Ok (make_standard fc data))
     \<longleftrightarrow> fc \<notin> {FunctionCode_value Extended, FunctionCode_value ExtendedStream})
   \<and> (PDU_deserialize (span_of (PDU_serialize (make_extended h pl mac))) = Some (Ok (make_extended h pl mac))
     \<longleftrightarrow> version h = 1 \<and> length pl < 2 ^ 16
         \<and> (if has_flag (flags h) HasTimestamp then timestamp h \<noteq> None else True)
         \<and> (case mac of None \<Rightarrow> \<not> has_flag (flags h) HasHMAC | Some m \<Rightarrow> length m = 32))"
  unfolding PDU_roundtrip_iff make_extended_wf make_standard_wf by (auto split: option.splits)

text \<open>
  Memory safety: on any bytes the parser reads inside its span, and it can only
  fail with \<open>InvalidFrame\<close> or \<open>UnsupportedVersion\<close>.
\<close>

theorem pdu_deserialize_memory_safe:
  "returns_within {InvalidFrame, UnsupportedVersion} (PDU_deserialize (span_of bs))"
  by (rule PDU_deserialize_safe) simp

end
