(* ===== verification/Crc16.thy ===== *)
theory Crc16
  imports Core_Types
begin

text \<open>
  The checksum of \<open>transport/frame_codec.cpp\<close> (\<open>FrameCodec::crc16\<close>, reflected polynomial
  0xA001, initial value 0xFFFF) and what it detects.

  The two nested loops are \<open>crc16_of\<close> (over the bytes) and \<open>crc16_loop\<close> (over the bits). One
  step is linear over exclusive or and injective; by linearity the byte-wise loop is the
  serial register that consumes the bits of the frame in the order they are sent
  (\<open>crc16_serial\<close>). From there: appending the checksum, low byte first, makes the checksum
  of the whole zero and no other trailer does; two bit streams that differ inside a window of
  16 bits, or in an odd number of bits, never have the same checksum.
\<close>

section \<open>The code\<close>

definition crc16_bit :: "u16 \<Rightarrow> u16" where
  "crc16_bit crc = (if crc AND 0x0001 \<noteq> 0 then drop_bit 1 crc XOR 0xA001 else drop_bit 1 crc)"

fun crc16_loop :: "nat \<Rightarrow> u16 \<Rightarrow> u16" where
  "crc16_loop 0 crc = crc"
| "crc16_loop (Suc n) crc = crc16_loop n (crc16_bit crc)"

definition crc16_byte :: "u16 \<Rightarrow> byte \<Rightarrow> u16" where
  "crc16_byte crc b = crc16_loop 8 (crc XOR ucast b)"

definition crc16_of :: "byte list \<Rightarrow> u16" where
  "crc16_of data = foldl crc16_byte 0xFFFF data"

definition crc16 :: "byte span \<Rightarrow> u16 option" where
  "crc16 data = map_option crc16_of (span_elems data)"

section \<open>One step is linear and injective\<close>

lemma and_1_iff_bit: "w AND 1 \<noteq> 0 \<longleftrightarrow> bit w 0" for w :: u16
  by (simp add: and_one_eq bit_0 odd_iff_mod_2_eq_one)

lemma crc16_bit_alt: "crc16_bit crc = drop_bit 1 crc XOR (if bit crc 0 then 0xA001 else 0)"
  by (simp add: crc16_bit_def and_1_iff_bit [simplified])

lemma crc16_bit_xor: "crc16_bit (a XOR b) = crc16_bit a XOR crc16_bit b"
  by (simp add: crc16_bit_alt bit_xor_iff xor.assoc xor.left_commute)

lemma crc16_bit_0 [simp]: "crc16_bit 0 = 0"
  by (simp add: crc16_bit_alt)

lemma word_xor_eq_0_iff: "a XOR b = 0 \<longleftrightarrow> a = (b :: 'a::len word)"
proof
  assume "a XOR b = 0"
  then have "(a XOR b) XOR b = 0 XOR b" by (rule arg_cong)
  then show "a = b" by (simp add: xor.assoc)
qed simp

lemma word_xor_right_cancel: "a XOR d = b XOR d \<longleftrightarrow> a = (b :: 'a::len word)"
proof
  assume "a XOR d = b XOR d"
  then have "(a XOR d) XOR d = (b XOR d) XOR d" by (rule arg_cong)
  then show "a = b" by (simp add: xor.assoc)
qed simp

lemma drop_bit_1_eq_0: "drop_bit 1 a = (0 :: u16) \<Longrightarrow> \<not> bit a 0 \<Longrightarrow> a = 0"
proof (rule bit_word_eqI)
  fix n
  assume z: "drop_bit 1 a = 0" and "\<not> bit a 0"
  have "bit (drop_bit 1 a) m = bit a (Suc m)" for m
    by (simp only: bit_drop_bit_eq comp_apply plus_1_eq_Suc)
  then have "\<not> bit a (Suc m)" for m using z by (metis bit_0_eq bot_apply bot_bool_def)
  with \<open>\<not> bit a 0\<close> show "bit a n = bit 0 n" by (cases n) simp_all
qed

lemma crc16_bit_eq_0_iff [simp]: "crc16_bit a = 0 \<longleftrightarrow> a = 0"
proof
  assume z: "crc16_bit a = 0"
  have "bit (crc16_bit a) 15 \<longleftrightarrow> bit a 0"
    by (auto simp: crc16_bit_alt bit_xor_iff bit_drop_bit_eq dest: bit_imp_le_length)
  with z have a0: "\<not> bit a 0" by simp
  with z have "drop_bit 1 a = 0" by (simp add: crc16_bit_alt)
  then show "a = 0" using a0 by (rule drop_bit_1_eq_0)
qed simp

lemma crc16_bit_even: "\<not> bit x 0 \<Longrightarrow> crc16_bit x = drop_bit 1 x"
  by (simp add: crc16_bit_alt)

lemma crc16_loop_xor: "crc16_loop n (a XOR b) = crc16_loop n a XOR crc16_loop n b"
  by (induction n arbitrary: a b) (simp_all add: crc16_bit_xor)

lemma crc16_loop_eq_0_iff [simp]: "crc16_loop n a = 0 \<longleftrightarrow> a = 0"
  by (induction n arbitrary: a) simp_all

lemma crc16_loop_inject [simp]: "crc16_loop n a = crc16_loop n b \<longleftrightarrow> a = b"
  using crc16_loop_eq_0_iff [of n "a XOR b"] by (simp add: crc16_loop_xor word_xor_eq_0_iff)

section \<open>The serial register\<close>

definition crc16_serial :: "u16 \<Rightarrow> bool \<Rightarrow> u16" where
  "crc16_serial crc d = crc16_bit (crc XOR of_bool d)"

definition byte_bits :: "byte \<Rightarrow> bool list" where
  "byte_bits b = map (bit b) [0..<8]"

definition frame_bits :: "byte list \<Rightarrow> bool list" where
  "frame_bits bs = concat (map byte_bits bs)"

lemma length_frame_bits [simp]: "length (frame_bits bs) = 8 * length bs"
  by (induction bs) (simp_all add: frame_bits_def byte_bits_def)

lemma frame_bits_simps [simp]:
  "frame_bits [] = []" "frame_bits (b # bs) = byte_bits b @ frame_bits bs"
  "frame_bits (xs @ ys) = frame_bits xs @ frame_bits ys"
  by (simp_all add: frame_bits_def)

lemma byte_bits_inject [simp]: "byte_bits a = byte_bits b \<longleftrightarrow> a = b"
proof
  assume "byte_bits a = byte_bits b"
  then have "\<forall>n\<in>set [0..<8]. bit a n = bit b n"
    unfolding byte_bits_def map_eq_conv .
  then show "a = b" by (intro bit_word_eqI) simp
qed simp

lemma length_byte_bits [simp]: "length (byte_bits b) = 8"
  by (simp add: byte_bits_def)

lemma frame_bits_inject: "frame_bits xs = frame_bits ys \<longleftrightarrow> xs = ys"
proof
  show "frame_bits xs = frame_bits ys \<Longrightarrow> xs = ys"
  proof (induction xs arbitrary: ys)
    case Nil
    then show ?case by (metis frame_bits_simps(1) length_0_conv length_frame_bits mult_eq_0_iff
        zero_neq_numeral)
  next
    case (Cons x xs)
    from arg_cong [OF Cons.prems, of length] obtain y ys' where ys: "ys = y # ys'"
      by (cases ys) simp_all
    with Cons.prems have "byte_bits x = byte_bits y" "frame_bits xs = frame_bits ys'"
      by simp_all
    then show ?case using Cons.IH ys by simp
  qed
qed simp

lemma crc16_loop_serial:
  assumes "drop_bit n x = (0 :: u16)"
  shows "crc16_loop n (s XOR x) = foldl crc16_serial s (map (bit x) [0..<n])"
  using assms
proof (induction n arbitrary: s x)
  case 0
  then show ?case by simp
next
  case (Suc n)
  define y where "y = x XOR of_bool (bit x 0)"
  have x: "x = of_bool (bit x 0) XOR y" and y0: "\<not> bit y 0" and yx: "drop_bit 1 y = drop_bit 1 x"
    by (simp_all add: y_def xor.left_commute bit_xor_iff bit_of_bool_iff drop_bit_xor drop_bit_of_bool)
  have "crc16_bit (s XOR x) = crc16_bit ((s XOR of_bool (bit x 0)) XOR y)"
    by (subst x) (simp add: xor.assoc)
  then have step: "crc16_bit (s XOR x) = crc16_serial s (bit x 0) XOR drop_bit 1 x"
    using y0 yx by (simp add: crc16_bit_xor crc16_serial_def crc16_bit_even)
  have "drop_bit n (drop_bit 1 x) = 0" using Suc.prems by simp
  from Suc.IH [OF this]
  have "crc16_loop (Suc n) (s XOR x) =
      foldl crc16_serial (crc16_serial s (bit x 0)) (map (bit (drop_bit 1 x)) [0..<n])"
    by (simp add: step)
  also have "map (bit (drop_bit 1 x)) [0..<n] = map (bit x) [Suc 0..<Suc n]"
    by (simp only: bit_drop_bit_eq map_Suc_upt [symmetric] list.map_comp comp_def plus_1_eq_Suc)
  finally show ?case by (simp add: upt_conv_Cons del: upt_Suc)
qed

lemma crc16_byte_serial: "crc16_byte crc b = foldl crc16_serial crc (byte_bits b)"
proof -
  have "drop_bit 8 (ucast b :: u16) = 0"
    by (rule bit_word_eqI) (auto simp: bit_simps dest: bit_imp_le_length)
  from crc16_loop_serial [OF this, of crc]
  moreover have "map (bit (ucast b :: u16)) [0..<8] = byte_bits b"
    by (simp add: byte_bits_def bit_simps)
  ultimately show ?thesis by (simp add: crc16_byte_def)
qed

lemma foldl_crc16_byte_serial:
  "foldl crc16_byte s bs = foldl crc16_serial s (frame_bits bs)"
  by (induction bs arbitrary: s) (simp_all add: crc16_byte_serial)

lemma crc16_serial_inject [simp]: "crc16_serial a d = crc16_serial b d \<longleftrightarrow> a = b"
proof -
  have "crc16_serial a d = crc16_serial b d \<longleftrightarrow> a XOR of_bool d = b XOR of_bool d"
    using crc16_loop_inject [of 1 "a XOR of_bool d" "b XOR of_bool d"]
    by (simp add: crc16_serial_def)
  also have "\<dots> \<longleftrightarrow> a = b"
    by (rule word_xor_right_cancel)
  finally show ?thesis .
qed

lemma foldl_crc16_serial_inject:
  "foldl crc16_serial a ds = foldl crc16_serial b ds \<longleftrightarrow> a = b"
  by (induction ds arbitrary: a b) simp_all

section \<open>The checksum as a trailer\<close>

lemma two_bytes:
  "crc16_byte (crc16_byte s a) b = crc16_loop 16 (s XOR be16 b a)"
proof -
  have "drop_bit 16 (be16 b a) = 0"
    by (rule bit_word_eqI) (auto simp: bit_simps dest: bit_imp_le_length)
  from crc16_loop_serial [OF this, of s]
  have "crc16_loop 16 (s XOR be16 b a) = foldl crc16_serial s (map (bit (be16 b a)) [0..<16])" .
  also have "map (bit (be16 b a)) [0..<16] = byte_bits a @ byte_bits b"
    by (rule nth_equalityI)
       (auto simp: byte_bits_def nth_append be16_def bit_simps dest: bit_imp_le_length)
  finally show ?thesis by (simp add: crc16_byte_serial)
qed

lemma crc16_residue:
  "crc16_of (data @ [a, b]) = 0 \<longleftrightarrow> crc16_of data = be16 b a"
  by (simp add: crc16_of_def two_bytes word_xor_eq_0_iff)

lemma crc16_trailer: "crc16_of (data @ [lo8 (crc16_of data), hi8 (crc16_of data)]) = 0"
  by (simp add: crc16_residue be_simps)

section \<open>Burst errors\<close>

lemma foldl_serial_word:
  assumes "length ds \<le> 16"
  shows "foldl crc16_serial s ds = crc16_loop (length ds) (s XOR horner_sum of_bool 2 ds)"
proof -
  let ?x = "horner_sum of_bool 2 ds :: u16"
  have "drop_bit (length ds) ?x = 0"
    by (rule bit_word_eqI) (simp add: bit_drop_bit_eq bit_horner_sum_bit_word_iff)
  moreover have "map (bit ?x) [0..<length ds] = ds"
    using assms by (intro nth_equalityI) (auto simp: bit_horner_sum_bit_word_iff)
  ultimately show ?thesis by (simp add: crc16_loop_serial)
qed

lemma horner_bits_inject:
  assumes "length xs = length ys" "length xs \<le> 16"
    and "(horner_sum of_bool 2 xs :: u16) = horner_sum of_bool 2 ys"
  shows "xs = ys"
proof (rule nth_equalityI)
  fix i
  assume "i < length xs"
  with assms(1,2) have "bit (horner_sum of_bool 2 xs :: u16) i = xs ! i"
    and "bit (horner_sum of_bool 2 ys :: u16) i = ys ! i"
    by (simp_all add: bit_horner_sum_bit_word_iff)
  with assms(3) show "xs ! i = ys ! i" by simp
qed (fact assms(1))

lemma burst_detected:
  assumes "length m = length m'" "length m \<le> 16" "m \<noteq> m'"
  shows "foldl crc16_serial s (p @ m @ q) \<noteq> foldl crc16_serial s (p @ m' @ q)"
  using assms horner_bits_inject [of m m']
  by (auto simp: foldl_crc16_serial_inject foldl_serial_word word_xor_right_cancel
      xor.commute [of "foldl crc16_serial s p"])

text \<open>Two frames whose bit streams agree outside the window \<open>[k, k + 16)\<close>.\<close>

definition differ_in_window :: "nat \<Rightarrow> byte list \<Rightarrow> byte list \<Rightarrow> bool" where
  "differ_in_window k f f' \<longleftrightarrow> f \<noteq> f' \<and> length f = length f'
     \<and> take k (frame_bits f) = take k (frame_bits f')
     \<and> drop (k + 16) (frame_bits f) = drop (k + 16) (frame_bits f')"

lemma crc16_burst:
  assumes "differ_in_window k f f'"
  shows "crc16_of f \<noteq> crc16_of f'"
proof -
  let ?p = "take k (frame_bits f)" and ?q = "drop (k + 16) (frame_bits f)"
  define m m' where "m = take 16 (drop k (frame_bits f))" and "m' = take 16 (drop k (frame_bits f'))"
  have split: "take k bs @ take 16 (drop k bs) @ drop (k + 16) bs = bs" for bs :: "bool list"
    by (metis add.commute append_take_drop_id drop_drop)
  have bits: "frame_bits f = ?p @ m @ ?q" "frame_bits f' = ?p @ m' @ ?q"
    using assms split [of "frame_bits f"] split [of "frame_bits f'"]
    unfolding differ_in_window_def m_def m'_def by simp_all
  have "frame_bits f \<noteq> frame_bits f'"
    using assms by (simp add: differ_in_window_def frame_bits_inject)
  then have "m \<noteq> m'" using bits by metis
  moreover have "length m = length m'" "length m \<le> 16"
    using assms by (simp_all add: m_def m'_def differ_in_window_def)
  ultimately have "foldl crc16_serial 0xFFFF (frame_bits f) \<noteq> foldl crc16_serial 0xFFFF (frame_bits f')"
    using burst_detected [of m m' "0xFFFF" ?p ?q] bits by metis
  then show ?thesis by (simp add: crc16_of_def foldl_crc16_byte_serial)
qed

section \<open>Odd numbers of errors\<close>

fun odd_bits :: "bool list \<Rightarrow> bool" where
  "odd_bits [] = False"
| "odd_bits (b # bs) = (b \<noteq> odd_bits bs)"

definition word_parity :: "u16 \<Rightarrow> bool" where
  "word_parity w = odd_bits (map (bit w) [0..<16])"

lemma odd_bits_append [simp]: "odd_bits (xs @ ys) = (odd_bits xs \<noteq> odd_bits ys)"
  by (induction xs) auto

lemma odd_bits_xor:
  "odd_bits (map (\<lambda>i. P i \<noteq> Q i) is) = (odd_bits (map P is) \<noteq> odd_bits (map Q is))"
  by (induction "is") auto

lemma word_parity_xor: "word_parity (a XOR b) = (word_parity a \<noteq> word_parity b)"
proof -
  have "map (bit (a XOR b)) [0..<16] = map (\<lambda>i. bit a i \<noteq> bit b i) [0..<16]"
    by (simp add: bit_xor_iff)
  then show ?thesis by (simp only: word_parity_def odd_bits_xor)
qed

lemma word_parity_0 [simp]: "\<not> word_parity 0"
  by (simp add: word_parity_def upt_rec)

lemma word_parity_poly: "word_parity 0xA001"
  by (simp add: word_parity_def upt_rec)

lemma word_parity_drop_bit: "word_parity (drop_bit 1 w) = (word_parity w \<noteq> bit w 0)"
proof -
  have "map (bit w) [0..<17] = bit w 0 # map (bit (drop_bit 1 w)) [0..<16]"
    by (simp only: bit_drop_bit_eq map_Suc_upt [symmetric] list.map_comp comp_def plus_1_eq_Suc)
       (simp add: upt_conv_Cons numeral_eq_Suc del: upt_Suc)
  moreover have "map (bit w) [0..<17] = map (bit w) [0..<16] @ [False]"
    using upt_Suc_append [of 0 16] by (auto dest: bit_imp_le_length)
  ultimately have "odd_bits (bit w 0 # map (bit (drop_bit 1 w)) [0..<16])
      = odd_bits (map (bit w) [0..<16] @ [False])" by simp
  then show ?thesis by (auto simp: word_parity_def)
qed

lemma word_parity_step [simp]: "word_parity (crc16_bit w) = word_parity w"
  using word_parity_drop_bit [of w]
  by (simp add: crc16_bit_alt word_parity_xor word_parity_poly)

lemma word_parity_serial: "word_parity (crc16_serial s d) = (word_parity s \<noteq> d)"
proof -
  have "word_parity 1"
    by (simp add: word_parity_def upt_rec)
  then show ?thesis by (cases d) (simp_all add: crc16_serial_def word_parity_xor)
qed

lemma word_parity_foldl: "word_parity (foldl crc16_serial s ds) = (word_parity s \<noteq> odd_bits ds)"
  by (induction ds arbitrary: s) (auto simp: word_parity_serial)

lemma crc16_parity: "word_parity (crc16_of f) = odd_bits (frame_bits f)"
proof -
  have "\<not> word_parity 0xFFFF"
    by (simp add: word_parity_def upt_rec)
  then show ?thesis by (simp add: crc16_of_def foldl_crc16_byte_serial word_parity_foldl)
qed

text \<open>The number of bit positions in which two frames of the same length differ.\<close>

definition bit_errors :: "byte list \<Rightarrow> byte list \<Rightarrow> nat" where
  "bit_errors f f' = length (filter (\<lambda>(a, b). a \<noteq> b) (zip (frame_bits f) (frame_bits f')))"

lemma odd_diff_bits:
  "length xs = length ys \<Longrightarrow>
   odd (length (filter (\<lambda>(a, b). a \<noteq> b) (zip xs ys))) \<longleftrightarrow> (odd_bits xs \<noteq> odd_bits ys)"
  by (induction xs ys rule: list_induct2) auto

lemma crc16_odd:
  assumes "length f = length f'" "odd (bit_errors f f')"
  shows "crc16_of f \<noteq> crc16_of f'"
proof -
  have "odd_bits (frame_bits f) \<noteq> odd_bits (frame_bits f')"
    using assms odd_diff_bits [of "frame_bits f" "frame_bits f'"]
    unfolding bit_errors_def by simp
  then show ?thesis using crc16_parity by metis
qed

end
