(* ===== verification/Frame_Codec.thy ===== *)
theory Frame_Codec
  imports Pdu Crc16
begin

text \<open>
  Component \<open>transport/frame_codec.hpp\<close>, \<open>transport/frame_codec.cpp\<close>: application data units.
  \<open>wrap_tcp\<close> and \<open>unwrap_tcp\<close> add and remove the seven-byte MBAP header, \<open>wrap_rtu\<close> and
  \<open>unwrap_rtu\<close> the unit identifier and the checksum of theory \<open>Crc16\<close>.

  The length of the PDU handed to the parser is \<open>static_cast<std::size_t>(length - 1)\<close>, where
  \<open>length\<close> is the 16-bit MBAP field promoted to \<open>int\<close>: a length field of zero gives the
  largest \<open>size_t\<close>, which \<open>size_t_of_int\<close> writes out.
\<close>

section \<open>TCP framing\<close>

definition size_t_of_int :: "int \<Rightarrow> nat" where
  "size_t_of_int i = nat (i mod 2 ^ 64)"

definition wrap_tcp :: "unit_id \<Rightarrow> PDU \<Rightarrow> u16 \<Rightarrow> byte list" where
  "wrap_tcp u pdu transaction_id =
     (let pdu_bytes = PDU_serialize pdu;
          len = (of_nat (1 + length pdu_bytes) :: u16)
      in [hi8 transaction_id, lo8 transaction_id, 0x00, 0x00, hi8 len, lo8 len, u] @ pdu_bytes)"

definition unwrap_tcp :: "byte span \<Rightarrow> (unit_id \<times> PDU \<times> u16) Result option" where
  "unwrap_tcp frame =
     (if sp_size frame < 8 then Some (err InvalidFrame)
      else do {
        t0 \<leftarrow> span_at frame 0;
        t1 \<leftarrow> span_at frame 1;
        let transaction_id = be16 t0 t1;
        p0 \<leftarrow> span_at frame 2;
        p1 \<leftarrow> span_at frame 3;
        if p0 \<noteq> 0x00 \<or> p1 \<noteq> 0x00 then Some (err InvalidFrame)
        else do {
          l0 \<leftarrow> span_at frame 4;
          l1 \<leftarrow> span_at frame 5;
          let len = be16 l0 l1;
          if sp_size frame < nat (6 + uint len) then Some (err InvalidFrame)
          else do {
            u \<leftarrow> span_at frame 6;
            r \<leftarrow> PDU_deserialize (Span (drop 7 (sp_mem frame)) (size_t_of_int (uint len - 1)));
            (case r of
               Err ec \<Rightarrow> Some (Err ec)
             | Ok pdu \<Rightarrow> Some (Ok (u, pdu, transaction_id)))
          }
        }
      })"

section \<open>RTU framing\<close>

definition wrap_rtu :: "unit_id \<Rightarrow> PDU \<Rightarrow> byte list" where
  "wrap_rtu u pdu =
     (let frame = u # PDU_serialize pdu;
          crc = crc16_of frame
      in frame @ [lo8 crc, hi8 crc])"

definition unwrap_rtu :: "byte span \<Rightarrow> (unit_id \<times> PDU) Result option" where
  "unwrap_rtu frame =
     (if sp_size frame < 4 then Some (err InvalidFrame)
      else do {
        let data_len = sp_size frame - 2;
        expected_crc \<leftarrow> crc16 (Span (sp_mem frame) data_len);
        c0 \<leftarrow> span_at frame data_len;
        c1 \<leftarrow> span_at frame (data_len + 1);
        let received_crc = (ucast c0 OR push_bit 8 (ucast c1) :: u16);
        if expected_crc \<noteq> received_crc then Some (err CrcMismatch)
        else do {
          u \<leftarrow> span_at frame 0;
          r \<leftarrow> PDU_deserialize (Span (drop 1 (sp_mem frame)) (data_len - 1));
          (case r of
             Err ec \<Rightarrow> Some (Err ec)
           | Ok pdu \<Rightarrow> Some (Ok (u, pdu)))
        }
      })"

section \<open>TCP: safety and round trip\<close>

text \<open>The MBAP length field of a frame of at least eight bytes.\<close>

definition mbap_length :: "byte list \<Rightarrow> nat" where
  "mbap_length f = unat (be16 (f ! 4) (f ! 5))"

lemma mbap_length_field: "nat (6 + uint (be16 (f ! 4) (f ! 5))) = 6 + mbap_length f"
  by (simp add: mbap_length_def nat_add_distrib)

lemma size_t_of_length: "0 < mbap_length f \<Longrightarrow> size_t_of_int (uint (be16 (f ! 4) (f ! 5)) - 1) = mbap_length f - 1"
proof -
  assume "0 < mbap_length f"
  moreover have "uint (be16 (f ! 4) (f ! 5)) = int (mbap_length f)"
    by (simp add: mbap_length_def)
  moreover have "mbap_length f < 65536"
    unfolding mbap_length_def by (rule unat_u16_less)
  ultimately show ?thesis
    by (simp add: size_t_of_int_def nat_diff_distrib zmod_int mod_pos_pos_trivial flip: nat_int_add)
qed

lemma unwrap_tcp_eq:
  assumes "8 \<le> length f" "f ! 2 = 0" "f ! 3 = 0" "6 + mbap_length f \<le> length f" "0 < mbap_length f"
  shows "unwrap_tcp (span_of f) =
    (case PDU_deserialize (span_of (take (mbap_length f - 1) (drop 7 f))) of
       None \<Rightarrow> None
     | Some (Err ec) \<Rightarrow> Some (Err ec)
     | Some (Ok pdu) \<Rightarrow> Some (Ok (f ! 6, pdu, be16 (f ! 0) (f ! 1))))"
proof -
  let ?s = "Span (drop 7 f) (mbap_length f - 1)"
  have "span_valid ?s" using assms by (simp add: span_valid_def)
  from PDU_deserialize_view [OF this]
  have "PDU_deserialize ?s = PDU_deserialize (span_of (take (mbap_length f - 1) (drop 7 f)))"
    by (simp add: span_list_def)
  moreover have "f \<noteq> []" using assms by auto
  ultimately show ?thesis
    using assms
    by (auto simp: unwrap_tcp_def span_at_def fetch_lt mbap_length_field size_t_of_length Let_def
        split: option.splits Result.splits)
qed

text \<open>The frames that are rejected before the PDU is looked at.\<close>

lemma unwrap_tcp_reject:
  assumes "\<not> (8 \<le> length f \<and> f ! 2 = 0 \<and> f ! 3 = 0 \<and> 6 + mbap_length f \<le> length f)"
  shows "unwrap_tcp (span_of f) = Some (err InvalidFrame)"
proof (cases "length f < 8")
  case True
  then show ?thesis by (simp add: unwrap_tcp_def)
next
  case False
  then have "f \<noteq> []" by auto
  with False assms show ?thesis
    by (auto simp: unwrap_tcp_def span_at_def fetch_lt mbap_length_field Let_def)
qed

lemma unwrap_tcp_safe:
  assumes "length f < 8 \<or> 0 < mbap_length f"
  shows "returns_within {InvalidFrame, UnsupportedVersion} (unwrap_tcp (span_of f))"
proof (cases "8 \<le> length f \<and> f ! 2 = 0 \<and> f ! 3 = 0 \<and> 6 + mbap_length f \<le> length f")
  case True
  let ?d = "PDU_deserialize (span_of (take (mbap_length f - 1) (drop 7 f)))"
  have "returns_within {InvalidFrame, UnsupportedVersion} ?d"
    by (rule PDU_deserialize_safe) simp
  with True assms unwrap_tcp_eq [of f] show ?thesis
    by (simp add: returns_within_map)
next
  case False
  then show ?thesis using unwrap_tcp_reject by simp
qed

text \<open>
  With a zero length field the parser is given a span of \<open>2 ^ 64 - 1\<close> bytes: on a standard
  function code the code copies the whole of it, outside the frame.
\<close>

lemma unwrap_tcp_zero_length:
  assumes "8 \<le> length f" "f ! 2 = 0" "f ! 3 = 0" "mbap_length f = 0" "length f < 2 ^ 63"
    and "f ! 7 \<noteq> FunctionCode_value Extended" "f ! 7 \<noteq> FunctionCode_value ExtendedStream"
  shows "unwrap_tcp (span_of f) = None"
proof -
  have z: "be16 (f ! 4) (f ! 5) = 0"
    using assms(4) by (simp add: mbap_length_def unsigned_eq_0_iff)
  have "size_t_of_int (- 1) = 2 ^ 64 - 1"
    by (simp add: size_t_of_int_def)
  with assms z show ?thesis
    by (simp add: unwrap_tcp_def span_at_def fetch_lt Let_def PDU_deserialize_def span_range_def
        fetch_range_def)
qed

lemma wrap_tcp_nth:
  assumes "1 + length (PDU_serialize p) < 2 ^ 16"
  shows "mbap_length (wrap_tcp u p t @ rest) = 1 + length (PDU_serialize p)"
    and "(wrap_tcp u p t @ rest) ! 2 = 0" "(wrap_tcp u p t @ rest) ! 3 = 0"
    and "(wrap_tcp u p t @ rest) ! 6 = u"
    and "be16 ((wrap_tcp u p t @ rest) ! 0) ((wrap_tcp u p t @ rest) ! 1) = t"
    and "drop 7 (wrap_tcp u p t @ rest) = PDU_serialize p @ rest"
proof -
  have "unat (of_nat (1 + length (PDU_serialize p)) :: u16) = 1 + length (PDU_serialize p)"
    using assms by (simp only: unat_of_nat take_bit_nat_eq_self_iff) simp
  then show "mbap_length (wrap_tcp u p t @ rest) = 1 + length (PDU_serialize p)"
    by (simp add: mbap_length_def wrap_tcp_def Let_def be_simps)
qed (simp_all add: wrap_tcp_def Let_def be_simps)

lemma length_wrap_tcp: "length (wrap_tcp u p t) = 7 + length (PDU_serialize p)"
  by (simp add: wrap_tcp_def Let_def)

lemma tcp_roundtrip:
  assumes "PDU_wf p" "1 + length (PDU_serialize p) < 2 ^ 16"
  shows "unwrap_tcp (span_of (wrap_tcp u p t @ rest)) = Some (Ok (u, p, t))"
proof -
  note nth = wrap_tcp_nth [OF assms(2), of u t rest]
  have "8 \<le> length (wrap_tcp u p t @ rest)"
    by (simp add: length_wrap_tcp Suc_le_eq)
  from unwrap_tcp_eq [OF this nth(2,3)] nth
  show ?thesis
    by (simp only: nth) (simp add: length_wrap_tcp PDU_roundtrip [OF assms(1)])
qed

section \<open>RTU: the checksum guards the frame\<close>

lemma received_crc: "(ucast c0 OR push_bit 8 (ucast c1) :: u16) = be16 c1 c0"
  by (simp add: be16_def or.commute)

lemma unwrap_rtu_append:
  assumes "2 \<le> length d"
  shows "unwrap_rtu (span_of (d @ [c0, c1])) =
    (if crc16_of (d @ [c0, c1]) \<noteq> 0 then Some (err CrcMismatch)
     else (case PDU_deserialize (span_of (tl d)) of
             None \<Rightarrow> None
           | Some (Err ec) \<Rightarrow> Some (Err ec)
           | Some (Ok pdu) \<Rightarrow> Some (Ok (hd d, pdu))))"
proof -
  obtain u d' where d: "d = u # d'" and "d' \<noteq> []"
    using assms by (cases d; cases "tl d") auto
  let ?s = "Span (d' @ [c0, c1]) (length d')"
  have "PDU_deserialize ?s = PDU_deserialize (span_of d')"
    by (subst PDU_deserialize_view) (simp_all add: span_valid_def span_list_def)
  moreover have "crc16 (Span (d @ [c0, c1]) (length d)) = Some (crc16_of d)"
    by (simp add: crc16_def span_elems_valid span_valid_def span_list_def)
  ultimately show ?thesis
    using \<open>d' \<noteq> []\<close>
    by (auto simp: unwrap_rtu_def d span_at_def mem_simps fetch_append received_crc
        crc16_residue [of "u # d'", simplified] Let_def Suc_le_eq split: option.splits Result.splits)
qed

lemma frame_split:
  assumes "4 \<le> length f"
  obtains d c0 c1 where "f = d @ [c0, c1]" "2 \<le> length d"
proof -
  let ?n = "length f - 2"
  have "length (drop ?n f) = 2" using assms by simp
  then obtain c0 c1 where "drop ?n f = [c0, c1]"
    unfolding numeral_2_eq_2 length_Suc_conv by blast
  then have "f = take ?n f @ [c0, c1]" using append_take_drop_id [of ?n f] by simp
  then show thesis using that [of "take ?n f" c0 c1] assms by simp
qed

lemma unwrap_rtu_short: "length f < 4 \<Longrightarrow> unwrap_rtu (span_of f) = Some (err InvalidFrame)"
  by (simp add: unwrap_rtu_def)

lemma unwrap_rtu_residue:
  assumes "4 \<le> length f" "crc16_of f \<noteq> 0"
  shows "unwrap_rtu (span_of f) = Some (err CrcMismatch)"
  using assms by (auto elim!: frame_split simp: unwrap_rtu_append)

lemma unwrap_rtu_Ok_residue:
  assumes "unwrap_rtu (span_of f) = Some (Ok r)"
  shows "4 \<le> length f \<and> crc16_of f = 0"
  using assms unwrap_rtu_short [of f] unwrap_rtu_residue [of f] by (cases "length f < 4") auto

lemma unwrap_rtu_safe:
  "returns_within {InvalidFrame, UnsupportedVersion, CrcMismatch} (unwrap_rtu (span_of f))"
proof (cases "4 \<le> length f \<and> crc16_of f = 0")
  case True
  then obtain d c0 c1 where f: "f = d @ [c0, c1]" "2 \<le> length d"
    using frame_split by blast
  have "returns_within {InvalidFrame, UnsupportedVersion} (PDU_deserialize (span_of (tl d)))"
    by (rule PDU_deserialize_safe) simp
  then show ?thesis
    using True f by (simp add: unwrap_rtu_append returns_within_map)
next
  case False
  then show ?thesis
    using unwrap_rtu_short [of f] unwrap_rtu_residue [of f] by (cases "length f < 4") auto
qed

lemma rtu_roundtrip:
  assumes "PDU_wf p"
  shows "unwrap_rtu (span_of (wrap_rtu u p)) = Some (Ok (u, p))"
  using PDU_roundtrip [OF assms] crc16_trailer [of "u # PDU_serialize p"]
  by (simp add: wrap_rtu_def Let_def unwrap_rtu_append [of "u # PDU_serialize p", simplified] Suc_le_eq)

section \<open>Framing as codecs\<close>

definition tcp_fits :: "unit_id \<times> PDU \<times> u16 \<Rightarrow> bool" where
  "tcp_fits x = (case x of (u, p, t) \<Rightarrow> PDU_wf p \<and> 1 + length (PDU_serialize p) < 2 ^ 16)"

interpretation tcp_codec: wire_codec "\<lambda>(u, p, t). wrap_tcp u p t" "\<lambda>f. unwrap_tcp (span_of f)" tcp_fits
  by unfold_locales (auto simp: tcp_fits_def tcp_roundtrip [where rest = "[]", simplified])

interpretation rtu_codec: wire_codec "\<lambda>(u, p). wrap_rtu u p" "\<lambda>f. unwrap_rtu (span_of f)" "\<lambda>(u, p). PDU_wf p"
  by unfold_locales (auto simp: rtu_roundtrip)

text \<open>The request "read one holding register at address 0" to unit 1, as sent over RTU.\<close>

definition sample_frame :: "byte list" where
  "sample_frame = [0x01, 0x03, 0x00, 0x00, 0x00, 0x01, 0x84, 0x0A]"

lemma sample_frame_accepted:
  "unwrap_rtu (span_of sample_frame) = Some (Ok (1, make_standard 0x03 [0, 0, 0, 1]))"
  by code_simp

section \<open>Properties\<close>

text \<open>
  An RTU frame of at least four bytes is accepted exactly on the residue test:
  the checksum of the whole frame, trailer included, is zero. Everything else about the
  result is that of the PDU parser on the bytes between the unit identifier and the trailer.
\<close>

theorem unwrap_rtu_spec:
  "unwrap_rtu (span_of f) =
     (if length f < 4 then Some (err InvalidFrame)
      else if crc16_of f \<noteq> 0 then Some (err CrcMismatch)
      else (case PDU_deserialize (span_of (take (length f - 3) (tl f))) of
              None \<Rightarrow> None
            | Some (Err ec) \<Rightarrow> Some (Err ec)
            | Some (Ok pdu) \<Rightarrow> Some (Ok (hd f, pdu))))"
proof (cases "length f < 4")
  case True
  then show ?thesis by (simp add: unwrap_rtu_short)
next
  case False
  then obtain d c0 c1 where f: "f = d @ [c0, c1]" and d: "2 \<le> length d"
    using frame_split [of f] by auto
  then obtain u d' where "d = u # d'" by (cases d) auto
  then show ?thesis
    using f d False unwrap_rtu_append [OF d, of c0 c1]
    by (auto split: option.splits Result.splits)
qed

text \<open>
  RTU framing is lossless on exactly the PDUs the wire format can carry.
\<close>

theorem rtu_roundtrip_exact:
  "unwrap_rtu (span_of (wrap_rtu u p)) = Some (Ok (u, p)) \<longleftrightarrow> PDU_wf p"
proof -
  have "unwrap_rtu (span_of (wrap_rtu u p)) =
      (case PDU_deserialize (span_of (PDU_serialize p)) of
         None \<Rightarrow> None | Some (Err ec) \<Rightarrow> Some (Err ec) | Some (Ok pdu) \<Rightarrow> Some (Ok (u, pdu)))"
    using crc16_trailer [of "u # PDU_serialize p"]
    by (simp add: wrap_rtu_def Let_def unwrap_rtu_append [of "u # PDU_serialize p", simplified] Suc_le_eq
        cong: option.case_cong Result.case_cong)
  then show ?thesis
    using PDU_roundtrip_iff [of p] by (auto split: option.splits Result.splits)
qed

text \<open>
  Property C22. Burst errors: if a frame is accepted, no frame of the same length that differs
  from it only inside a window of 16 consecutive transmitted bits is accepted; it is reported
  as a checksum mismatch.
\<close>

theorem rtu_detects_bursts:
  assumes "unwrap_rtu (span_of f) = Some (Ok r)" and "differ_in_window k f f'"
  shows "unwrap_rtu (span_of f') = Some (err CrcMismatch)"
  using unwrap_rtu_Ok_residue [OF assms(1)] crc16_burst [OF assms(2)] assms(2)
  by (intro unwrap_rtu_residue) (auto simp: differ_in_window_def)

theorem rtu_detects_bursts_witness:
  "unwrap_rtu (span_of [0x01, 0x03, 0x00, 0x00, 0x00, 0xFE, 0x85, 0x0A]) = Some (err CrcMismatch)"
proof -
  have "differ_in_window 40 sample_frame [0x01, 0x03, 0x00, 0x00, 0x00, 0xFE, 0x85, 0x0A]"
    by code_simp
  with sample_frame_accepted show ?thesis by (rule rtu_detects_bursts)
qed

text \<open>
  Odd errors: if a frame is accepted and another frame of the same length differs
  from it in an odd number of bits, wherever they are, the other is a checksum mismatch.
\<close>

theorem rtu_detects_odd_errors:
  assumes "unwrap_rtu (span_of f) = Some (Ok r)"
    and "length f' = length f" and "odd (bit_errors f f')"
  shows "unwrap_rtu (span_of f') = Some (err CrcMismatch)"
  using unwrap_rtu_Ok_residue [OF assms(1)] crc16_odd [of f f'] assms(2,3)
  by (intro unwrap_rtu_residue) auto

theorem rtu_detects_odd_errors_witness:
  "unwrap_rtu (span_of [0x81, 0x03, 0x00, 0x10, 0x00, 0x01, 0x84, 0x0B]) = Some (err CrcMismatch)"
proof -
  have "odd (bit_errors sample_frame [0x81, 0x03, 0x00, 0x10, 0x00, 0x01, 0x84, 0x0B])"
    by code_simp
  then show ?thesis
    by (rule rtu_detects_odd_errors [OF sample_frame_accepted, rotated]) (simp add: sample_frame_def)
qed

text \<open>
  TCP framing: a PDU whose encoding fits the 16-bit length field comes back with
  its unit and transaction identifiers, whatever bytes follow the frame in the buffer.
\<close>

theorem tcp_frame_roundtrip:
  assumes "PDU_wf p" and "1 + length (PDU_serialize p) < 2 ^ 16"
  shows "unwrap_tcp (span_of (wrap_tcp u p t @ rest)) = Some (Ok (u, p, t))"
  using assms by (rule tcp_roundtrip)

theorem tcp_frame_roundtrip_witness:
  "unwrap_tcp (span_of (wrap_tcp 0x11 (make_standard 0x03 [0x00, 0x6B, 0x00, 0x03]) 0x1234 @ [0xAA]))
     = Some (Ok (0x11, make_standard 0x03 [0x00, 0x6B, 0x00, 0x03], 0x1234))"
  by (rule tcp_frame_roundtrip) simp_all

text \<open>
  Memory safety of both deframers: \<open>unwrap_rtu\<close> has no undefined behaviour on any
  bytes, and \<open>unwrap_tcp\<close> can only have it on a frame whose MBAP length field is zero.
\<close>

theorem deframers_memory_safe:
  "unwrap_rtu (span_of f) \<noteq> None
   \<and> (unwrap_tcp (span_of f) = None \<longrightarrow> 8 \<le> length f \<and> mbap_length f = 0)"
  using returns_within_defined [OF unwrap_rtu_safe [of f]]
    returns_within_defined [OF unwrap_tcp_safe [of f]]
  by fastforce

theorem deframers_memory_safe_witness:
  "unwrap_rtu (span_of [0, 1, 2]) \<noteq> None \<and> 8 \<le> length [0, 1, 0, 0, 0, 0, 1, 3 :: byte]
     \<and> mbap_length [0, 1, 0, 0, 0, 0, 1, 3] = 0"
proof -
  have "unwrap_tcp (span_of [0, 1, 0, 0, 0, 0, 1, 3]) = None"
    by (rule unwrap_tcp_zero_length) (simp_all add: mbap_length_def be16_def)
  with deframers_memory_safe [of "[0, 1, 0, 0, 0, 0, 1, 3]"] deframers_memory_safe [of "[0, 1, 2]"]
  show ?thesis by blast
qed

text \<open>
  The exception is real: a frame of eight or more bytes with a zero length field
  and a standard function code makes \<open>unwrap_tcp\<close> read past the end of the frame.
\<close>

theorem unwrap_tcp_zero_length_undefined:
  assumes "8 \<le> length f" "length f < 2 ^ 63" "f ! 2 = 0" "f ! 3 = 0" "mbap_length f = 0"
    and "f ! 7 \<notin> {FunctionCode_value Extended, FunctionCode_value ExtendedStream}"
  shows "unwrap_tcp (span_of f) = None"
  using assms by (intro unwrap_tcp_zero_length) auto

theorem unwrap_tcp_zero_length_undefined_witness:
  "unwrap_tcp (span_of [0, 1, 0, 0, 0, 0, 1, 3]) = None"
  by (rule unwrap_tcp_zero_length_undefined) (simp_all add: mbap_length_def be16_def)

end
