(* ===== verification/Tcp_Transport.thy ===== *)
theory Tcp_Transport
  imports Posix Frame_Codec
begin

text \<open>
  Component \<open>transport/tcp_transport.cpp\<close>: the connection life cycle, the sending loop with
  partial writes and the receiving loops that rebuild one MBAP frame from a byte stream.

  The state is the object's members and the state of the operating system, whose calls are
  the argument \<open>px\<close> of every operation. The loops end because every round moves at least
  one byte. \<open>receive\<close> is \<open>None\<close> if \<open>read\<close> returns more bytes than asked for, which would
  overrun the buffer.
\<close>

section \<open>State and life cycle\<close>

record TCPConfig =
  tc_host :: string
  tc_port :: u16
  tc_connect_timeout :: milliseconds
  tc_read_timeout :: milliseconds
  tc_tcp_nodelay :: bool

definition TCPConfig_default :: TCPConfig where
  "TCPConfig_default = \<lparr>tc_host = ''127.0.0.1'', tc_port = 502, tc_connect_timeout = 3000,
     tc_read_timeout = 1000, tc_tcp_nodelay = True\<rparr>"

record 'o tcp =
  tcp_config :: TCPConfig
  tcp_socket_fd :: int
  tcp_connected :: bool
  tcp_os :: 'o

definition TCPTransport :: "TCPConfig \<Rightarrow> 'o \<Rightarrow> 'o tcp" where
  "TCPTransport config os =
     \<lparr>tcp_config = config, tcp_socket_fd = -1, tcp_connected = False, tcp_os = os\<rparr>"

text \<open>The repeated failure branch \<open>close(socket_fd_); socket_fd_ = -1; return e;\<close>.\<close>

definition tcp_close_fail :: "'o posix \<Rightarrow> ErrorCode \<Rightarrow> 'o tcp \<Rightarrow> VoidResult \<times> 'o tcp" where
  "tcp_close_fail px e t =
     (void_err e, t\<lparr>tcp_os := px_close px (tcp_socket_fd t) (tcp_os t), tcp_socket_fd := -1\<rparr>)"

text \<open>From "restore blocking mode" on.\<close>

definition tcp_connect_finish :: "'o posix \<Rightarrow> int \<Rightarrow> 'o tcp \<Rightarrow> VoidResult \<times> 'o tcp" where
  "tcp_connect_finish px old_flags t =
     (let os = px_setfl px (tcp_socket_fd t) old_flags (tcp_os t);
          os = (if tc_tcp_nodelay (tcp_config t) then px_tcp_nodelay px (tcp_socket_fd t) os else os) in
      (void_ok, t\<lparr>tcp_os := os, tcp_connected := True\<rparr>))"

definition tcp_connect :: "'o posix \<Rightarrow> 'o tcp \<Rightarrow> VoidResult \<times> 'o tcp" where
  "tcp_connect px t =
     (if tcp_connected t then (void_ok, t)
      else (case px_socket px (tcp_os t) of (fd, os) \<Rightarrow>
        let t = t\<lparr>tcp_socket_fd := fd, tcp_os := os\<rparr> in
        if fd < 0 then (void_err TransportDisconnected, t)
        else (case px_getfl px fd os of (old_flags, os) \<Rightarrow>
          let os = px_setfl px fd (old_flags OR px_O_NONBLOCK px) os; t = t\<lparr>tcp_os := os\<rparr> in
          (case px_inet_pton px (tc_host (tcp_config t)) of
             None \<Rightarrow> tcp_close_fail px TransportDisconnected t
           | Some addr \<Rightarrow>
             (case px_connect px fd addr (tc_port (tcp_config t)) os of ((ret, inprogress), os) \<Rightarrow>
               let t = t\<lparr>tcp_os := os\<rparr> in
               if ret < 0 \<and> \<not> inprogress then tcp_close_fail px TransportDisconnected t
               else if ret < 0 then
                 (case px_poll px fd POLLOUT (int_of_count (tc_connect_timeout (tcp_config t))) os of
                    (poll_ret, os) \<Rightarrow>
                    let t = t\<lparr>tcp_os := os\<rparr> in
                    if poll_ret \<le> 0 then tcp_close_fail px TimeoutExpired t
                    else (case px_so_error px fd os of (so_err, os) \<Rightarrow>
                      let t = t\<lparr>tcp_os := os\<rparr> in
                      if so_err \<noteq> 0 then tcp_close_fail px TransportDisconnected t
                      else tcp_connect_finish px old_flags t))
               else tcp_connect_finish px old_flags t)))))"

definition tcp_disconnect :: "'o posix \<Rightarrow> 'o tcp \<Rightarrow> 'o tcp" where
  "tcp_disconnect px t =
     (let t = (if tcp_socket_fd t \<ge> 0
               then t\<lparr>tcp_os := px_close px (tcp_socket_fd t) (tcp_os t), tcp_socket_fd := -1\<rparr> else t) in
      t\<lparr>tcp_connected := False\<rparr>)"

section \<open>Sending\<close>

function tcp_send_loop :: "'o posix \<Rightarrow> frame \<Rightarrow> nat \<Rightarrow> 'o tcp \<Rightarrow> VoidResult \<times> 'o tcp" where
  "tcp_send_loop px frame total_sent t =
     (if total_sent < length frame then
        (case px_write px (tcp_socket_fd t) (drop total_sent frame) (tcp_os t) of (sent, os) \<Rightarrow>
           let t = t\<lparr>tcp_os := os\<rparr> in
           if sent \<le> 0 then (void_err TransportDisconnected, t\<lparr>tcp_connected := False\<rparr>)
           else tcp_send_loop px frame (total_sent + nat sent) t)
      else (void_ok, t))"
  by pat_completeness auto
termination by (relation "measure (\<lambda>(px, frame, total_sent, t). length frame - total_sent)") auto

declare tcp_send_loop.simps [simp del]

definition tcp_send :: "'o posix \<Rightarrow> frame \<Rightarrow> 'o tcp \<Rightarrow> VoidResult \<times> 'o tcp" where
  "tcp_send px frame t =
     (if \<not> tcp_connected t then (void_err TransportDisconnected, t)
      else tcp_send_loop px frame 0 t)"

section \<open>Receiving\<close>

text \<open>
  Both receiving loops: read until \<open>want\<close> bytes are in the buffer. The first component is the
  result: \<open>None\<close> overruns the buffer, \<open>Some None\<close> is the failure return.
\<close>

function tcp_read_loop ::
  "'o posix \<Rightarrow> nat \<Rightarrow> byte list \<Rightarrow> 'o tcp \<Rightarrow> byte list option option \<times> 'o tcp" where
  "tcp_read_loop px want buf t =
     (if length buf < want then
        (case px_read px (tcp_socket_fd t) (want - length buf) (tcp_os t) of
           (None, os) \<Rightarrow> (Some None, t\<lparr>tcp_os := os, tcp_connected := False\<rparr>)
         | (Some bs, os) \<Rightarrow>
             if bs = [] then (Some None, t\<lparr>tcp_os := os, tcp_connected := False\<rparr>)
             else if length bs > want - length buf then (None, t\<lparr>tcp_os := os\<rparr>)
             else tcp_read_loop px want (buf @ bs) (t\<lparr>tcp_os := os\<rparr>))
      else (Some (Some buf), t))"
  by pat_completeness auto
termination by (relation "measure (\<lambda>(px, want, buf, t). want - length buf)") (auto intro!: diff_less_mono2)

declare tcp_read_loop.simps [simp del]

text \<open>The header, then the body whose length the header gives.\<close>

definition tcp_read_frame :: "'o posix \<Rightarrow> 'o tcp \<Rightarrow> frame Result option \<times> 'o tcp" where
  "tcp_read_frame px t = (case tcp_read_loop px 7 [] t of
       (None, t) \<Rightarrow> (None, t)
     | (Some None, t) \<Rightarrow> (Some (err TransportDisconnected), t)
     | (Some (Some header), t) \<Rightarrow>
         let pdu_length = unat (be16 (header ! 4) (header ! 5)) in
         if pdu_length < 1 then (Some (err InvalidFrame), t)
         else (case tcp_read_loop px (7 + (pdu_length - 1)) header t of
             (None, t) \<Rightarrow> (None, t)
           | (Some None, t) \<Rightarrow> (Some (err TransportDisconnected), t)
           | (Some (Some frame), t) \<Rightarrow> (Some (Ok frame), t)))"

definition tcp_receive :: "'o posix \<Rightarrow> milliseconds \<Rightarrow> 'o tcp \<Rightarrow> frame Result option \<times> 'o tcp" where
  "tcp_receive px timeout t =
     (if \<not> tcp_connected t then (Some (err TransportDisconnected), t)
      else (case px_poll px (tcp_socket_fd t) POLLIN (int_of_count timeout) (tcp_os t) of (poll_ret, os) \<Rightarrow>
        let t = t\<lparr>tcp_os := os\<rparr> in
        if poll_ret < 0 then (Some (err TransportDisconnected), t\<lparr>tcp_connected := False\<rparr>)
        else if poll_ret = 0 then (Some (err TimeoutExpired), t)
        else tcp_read_frame px t))"

section \<open>Sending is complete or fails\<close>

lemma tcp_send_loop_delivers:
  assumes "stream_sink px (tcp_socket_fd t) sent" "total_sent \<le> length frame"
  shows "\<exists>os. tcp_send_loop px frame total_sent t = (void_ok, t\<lparr>tcp_os := os\<rparr>)
    \<and> sent os = sent (tcp_os t) @ drop total_sent frame"
  using assms
proof (induction "length frame - total_sent" arbitrary: total_sent t rule: less_induct)
  case less
  show ?case
  proof (cases "total_sent < length frame")
    case False
    then show ?thesis
      by (intro exI [of _ "tcp_os t"]) (simp add: tcp_send_loop.simps)
  next
    case True
    then have "drop total_sent frame \<noteq> []" by simp
    then obtain k os where k: "0 < k" "k \<le> length frame - total_sent"
      "px_write px (tcp_socket_fd t) (drop total_sent frame) (tcp_os t) = (int k, os)"
      "sent os = sent (tcp_os t) @ take k (drop total_sent frame)"
      using less.prems(1) unfolding stream_sink_def by (metis length_drop)
    have "length frame - (total_sent + k) < length frame - total_sent" "total_sent + k \<le> length frame"
      using k True by linarith+
    with less.hyps [of "total_sent + k" "t\<lparr>tcp_os := os\<rparr>"] less.prems(1)
    obtain os' where "tcp_send_loop px frame (total_sent + k) (t\<lparr>tcp_os := os\<rparr>) = (void_ok, t\<lparr>tcp_os := os'\<rparr>)"
      "sent os' = sent os @ drop (total_sent + k) frame"
      by auto
    then show ?thesis
      using k True
      by (intro exI [of _ os'])
         (simp add: tcp_send_loop.simps [of px frame total_sent] add.commute flip: drop_drop)
  qed
qed

lemma tcp_send_loop_result:
  "fst (tcp_send_loop px frame k t) = void_ok \<and> tcp_connected (snd (tcp_send_loop px frame k t)) = tcp_connected t
   \<or> fst (tcp_send_loop px frame k t) = void_err TransportDisconnected
     \<and> \<not> tcp_connected (snd (tcp_send_loop px frame k t))"
proof (induction px frame k t rule: tcp_send_loop.induct)
  case (1 px frame total_sent t)
  then show ?case
    by (subst (1 2 3 4) tcp_send_loop.simps) (auto simp: Let_def split: prod.split)
qed

section \<open>Receiving rebuilds frames\<close>

lemma tcp_read_loop_delivers:
  assumes "stream_source px (tcp_socket_fd t) incoming" "length buf \<le> want"
    "want - length buf \<le> length (incoming (tcp_os t))"
  shows "\<exists>os. tcp_read_loop px want buf t =
      (Some (Some (buf @ take (want - length buf) (incoming (tcp_os t)))), t\<lparr>tcp_os := os\<rparr>)
    \<and> incoming os = drop (want - length buf) (incoming (tcp_os t))"
  using assms
proof (induction "want - length buf" arbitrary: buf t rule: less_induct)
  case less
  show ?case
  proof (cases "length buf < want")
    case False
    then show ?thesis
      using less.prems(2) by (intro exI [of _ "tcp_os t"]) (simp add: tcp_read_loop.simps)
  next
    case True
    let ?in = "incoming (tcp_os t)" and ?n = "want - length buf"
    have "0 < ?n" "?in \<noteq> []" using True less.prems(3) by auto
    then obtain k os where k: "0 < k" "k \<le> ?n" "k \<le> length ?in"
      "px_read px (tcp_socket_fd t) ?n (tcp_os t) = (Some (take k ?in), os)" "incoming os = drop k ?in"
      using less.prems(1) unfolding stream_source_def by blast
    let ?buf = "buf @ take k ?in"
    have lb: "length ?buf = length buf + k" using k(3) by simp
    have "want - length ?buf < ?n" "length ?buf \<le> want" "want - length ?buf \<le> length (incoming os)"
      using k lb True less.prems(3) by auto
    with less.hyps [of ?buf "t\<lparr>tcp_os := os\<rparr>"] less.prems(1)
    obtain os' where os': "tcp_read_loop px want ?buf (t\<lparr>tcp_os := os\<rparr>) =
        (Some (Some (?buf @ take (want - length ?buf) (incoming os))), t\<lparr>tcp_os := os'\<rparr>)"
      "incoming os' = drop (want - length ?buf) (incoming os)"
      by auto
    have n: "want - length ?buf = ?n - k" using lb by simp
    have "take k ?in @ take (?n - k) (drop k ?in) = take ?n ?in"
      using k(2) by (metis le_add_diff_inverse take_add)
    moreover have "drop (?n - k) (drop k ?in) = drop ?n ?in"
      by (simp only: drop_drop le_add_diff_inverse2 [OF k(2)])
    ultimately have "tcp_read_loop px want ?buf (t\<lparr>tcp_os := os\<rparr>) =
        (Some (Some (buf @ take ?n ?in)), t\<lparr>tcp_os := os'\<rparr>)" "incoming os' = drop ?n ?in"
      using os' by (simp_all only: n k(5) append.assoc)
    moreover have "take k ?in \<noteq> []" "length (take k ?in) \<le> ?n" using k \<open>?in \<noteq> []\<close> by auto
    ultimately show ?thesis
      using True k(4)
      by (intro exI [of _ os']) (simp add: tcp_read_loop.simps [of px want buf] not_less [symmetric])
  qed
qed

lemma tcp_read_loop_cases:
  assumes "read_bounded px" "length buf \<le> want"
  shows "(\<exists>bs os. tcp_read_loop px want buf t = (Some (Some (buf @ bs)), t\<lparr>tcp_os := os\<rparr>) \<and> length (buf @ bs) = want)
    \<or> (\<exists>os. tcp_read_loop px want buf t = (Some None, t\<lparr>tcp_os := os, tcp_connected := False\<rparr>))"
  using assms
proof (induction px want buf t rule: tcp_read_loop.induct)
  case (1 px want buf t)
  show ?case
  proof (cases "length buf < want")
    case False
    then show ?thesis
      using 1(3) by (intro disjI1 exI [of _ "[]"] exI [of _ "tcp_os t"]) (simp add: tcp_read_loop.simps)
  next
    case True
    obtain r os where r: "px_read px (tcp_socket_fd t) (want - length buf) (tcp_os t) = (r, os)"
      by fastforce
    show ?thesis
    proof (cases "r = None \<or> r = Some []")
      case True
      then show ?thesis
        using \<open>length buf < want\<close> r by (subst (1 2) tcp_read_loop.simps) auto
    next
      case False
      then obtain bs where bs: "r = Some bs" "bs \<noteq> []" by auto
      then have len: "length bs \<le> want - length buf"
        using r 1(2) unfolding read_bounded_def by blast
      have eq: "tcp_read_loop px want buf t = tcp_read_loop px want (buf @ bs) (t\<lparr>tcp_os := os\<rparr>)"
        using True r bs len by (subst tcp_read_loop.simps) simp
      from 1(1) [OF True r [symmetric] bs(1) bs(2)] 1(2) len \<open>length buf < want\<close>
      show ?thesis unfolding eq by fastforce
    qed
  qed
qed

definition mbap_frame :: "frame \<Rightarrow> bool" where
  "mbap_frame f \<longleftrightarrow> 7 \<le> length f \<and> 0 < mbap_length f \<and> length f = 6 + mbap_length f"

lemma mbap_length_take: "6 \<le> n \<Longrightarrow> mbap_length (take n f) = mbap_length f"
  by (simp add: mbap_length_def)

lemma mbap_length_append: "6 \<le> length f \<Longrightarrow> mbap_length (f @ g) = mbap_length f"
  by (simp add: mbap_length_def nth_append)

lemma mbap_frame_wrap:
  assumes "1 + length (PDU_serialize p) < 2 ^ 16"
  shows "mbap_frame (wrap_tcp u p t)"
  using wrap_tcp_nth(1) [OF assms, of u t "[]"] by (simp add: mbap_frame_def length_wrap_tcp)

lemma tcp_receive_frame:
  assumes con: "tcp_connected t" and src: "stream_source px (tcp_socket_fd t) incoming"
    and rdy: "stream_ready px (tcp_socket_fd t) incoming"
    and inc: "incoming (tcp_os t) = f @ rest" and f: "mbap_frame f"
  shows "\<exists>os. tcp_receive px timeout t = (Some (Ok f), t\<lparr>tcp_os := os\<rparr>) \<and> incoming os = rest"
proof -
  have len: "7 \<le> length f" "length f = 7 + (mbap_length f - 1)" "0 < mbap_length f"
    using f by (auto simp: mbap_frame_def)
  have "incoming (tcp_os t) \<noteq> []" using inc len(1) by auto
  then obtain os0 where os0: "px_poll px (tcp_socket_fd t) POLLIN (int_of_count timeout) (tcp_os t) = (1, os0)"
    "incoming os0 = f @ rest"
    using rdy inc unfolding stream_ready_def by metis
  let ?h = "take 7 f" and ?b = "drop 7 f"
  have src0: "stream_source px (tcp_socket_fd (t\<lparr>tcp_os := os\<rparr>)) incoming" for os
    using src by simp
  obtain os1 where os1: "tcp_read_loop px 7 [] (t\<lparr>tcp_os := os0\<rparr>) = (Some (Some ?h), t\<lparr>tcp_os := os1\<rparr>)"
    "incoming os1 = ?b @ rest"
    using tcp_read_loop_delivers [OF src0, where buf = "[]" and want = 7, of os0] os0(2) len(1) by auto
  have want: "7 + (mbap_length f - 1) - length ?h = length ?b" using len by simp
  have "take (length ?b) (?b @ rest) = ?b" "drop (length ?b) (?b @ rest) = rest" by simp_all
  moreover have le: "length f - 7 \<le> length f + length rest - 7" by arith
  ultimately obtain os2 where os2: "tcp_read_loop px (7 + (mbap_length f - 1)) ?h (t\<lparr>tcp_os := os1\<rparr>)
      = (Some (Some (?h @ ?b)), t\<lparr>tcp_os := os2\<rparr>)" "incoming os2 = rest"
    using tcp_read_loop_delivers [OF src0, where buf = ?h and want = "7 + (mbap_length f - 1)", of os1]
      os1(2) want len(1) le by auto
  have "unat (be16 (?h ! 4) (?h ! 5)) = mbap_length f"
    by (simp add: mbap_length_def)
  then show ?thesis
    using con os0(1) os1(1) os2 len(3)
    by (intro exI [of _ os2]) (simp add: tcp_receive_def tcp_read_frame_def Let_def Suc_le_eq)
qed

fun tcp_receive_many :: "'o posix \<Rightarrow> milliseconds \<Rightarrow> nat \<Rightarrow> 'o tcp \<Rightarrow> frame list option \<times> 'o tcp" where
  "tcp_receive_many px timeout 0 t = (Some [], t)"
| "tcp_receive_many px timeout (Suc n) t = (case tcp_receive px timeout t of
     (Some (Ok f), t) \<Rightarrow> (case tcp_receive_many px timeout n t of
        (Some fs, t) \<Rightarrow> (Some (f # fs), t) | (None, t) \<Rightarrow> (None, t))
   | (_, t) \<Rightarrow> (None, t))"

lemma tcp_receive_many_frames:
  assumes "tcp_connected t" "stream_source px (tcp_socket_fd t) incoming"
    "stream_ready px (tcp_socket_fd t) incoming"
    "incoming (tcp_os t) = concat fs @ rest" "\<forall>f\<in>set fs. mbap_frame f"
  shows "\<exists>os. tcp_receive_many px timeout (length fs) t = (Some fs, t\<lparr>tcp_os := os\<rparr>) \<and> incoming os = rest"
  using assms
proof (induction fs arbitrary: t)
  case Nil
  then show ?case by (intro exI [of _ "tcp_os t"]) simp
next
  case (Cons f fs)
  obtain os where os: "tcp_receive px timeout t = (Some (Ok f), t\<lparr>tcp_os := os\<rparr>)"
    "incoming os = concat fs @ rest"
    using tcp_receive_frame [OF Cons.prems(1-3), of f "concat fs @ rest"] Cons.prems(4,5) by auto
  with Cons.IH [of "t\<lparr>tcp_os := os\<rparr>"] Cons.prems(1-3,5) show ?case by auto
qed

text \<open>Every result of \<open>receive\<close>, on any system that respects the buffer sizes.\<close>

lemma tcp_receive_sound:
  assumes "read_bounded px"
  shows "returns_within {TransportDisconnected, TimeoutExpired, InvalidFrame} (fst (tcp_receive px timeout t))
    \<and> (\<forall>f. fst (tcp_receive px timeout t) = Some (Ok f) \<longrightarrow> mbap_frame f)"
proof (cases "tcp_connected t")
  case False
  then show ?thesis by (simp add: tcp_receive_def)
next
  case con: True
  obtain ret os where poll: "px_poll px (tcp_socket_fd t) POLLIN (int_of_count timeout) (tcp_os t) = (ret, os)"
    by fastforce
  show ?thesis
  proof (cases "ret \<le> 0")
    case True
    then show ?thesis using con poll by (auto simp: tcp_receive_def Let_def)
  next
    case pos: False
    consider (fail) t1 where "tcp_read_loop px 7 [] (t\<lparr>tcp_os := os\<rparr>) = (Some None, t1)"
      | (header) h t1 where "tcp_read_loop px 7 [] (t\<lparr>tcp_os := os\<rparr>) = (Some (Some h), t1)" "length h = 7"
      using tcp_read_loop_cases [OF assms, of "[]" 7 "t\<lparr>tcp_os := os\<rparr>"] by auto
    then show ?thesis
    proof cases
      case fail
      then show ?thesis using con poll pos by (simp add: tcp_receive_def tcp_read_frame_def Let_def)
    next
      case header
      let ?n = "mbap_length h"
      have n: "unat (be16 (h ! 4) (h ! 5)) = ?n" by (simp add: mbap_length_def)
      show ?thesis
      proof (cases "?n = 0")
        case True
        then show ?thesis using con poll pos header n by (simp add: tcp_receive_def tcp_read_frame_def Let_def)
      next
        case False
        have "length h \<le> 7 + (?n - 1)" using header(2) by simp
        from tcp_read_loop_cases [OF assms this, of t1] show ?thesis
        proof
          assume "\<exists>bs os. tcp_read_loop px (7 + (?n - 1)) h t1 = (Some (Some (h @ bs)), t1\<lparr>tcp_os := os\<rparr>)
            \<and> length (h @ bs) = 7 + (?n - 1)"
          then obtain bs os' where bs: "tcp_read_loop px (7 + (?n - 1)) h t1
              = (Some (Some (h @ bs)), t1\<lparr>tcp_os := os'\<rparr>)" "length (h @ bs) = 7 + (?n - 1)"
            by blast
          have "mbap_frame (h @ bs)"
            using bs(2) header(2) False by (simp add: mbap_frame_def mbap_length_append)
          then show ?thesis using con poll pos header n bs False by (simp add: tcp_receive_def tcp_read_frame_def Let_def)
        next
          assume "\<exists>os. tcp_read_loop px (7 + (?n - 1)) h t1 = (Some None, t1\<lparr>tcp_os := os, tcp_connected := False\<rparr>)"
          then show ?thesis using con poll pos header n False by (auto simp: tcp_receive_def tcp_read_frame_def Let_def)
        qed
      qed
    qed
  qed
qed

lemma mbap_frame_unwrap_defined:
  assumes "mbap_frame f"
  shows "unwrap_tcp (span_of f) \<noteq> None"
  using assms unwrap_tcp_safe [of f] returns_within_defined by (auto simp: mbap_frame_def)

section \<open>Descriptors\<close>

text \<open>Receiving neither opens nor closes a descriptor, and keeps the member \<open>socket_fd_\<close>.\<close>

definition same_fds :: "('o \<Rightarrow> int set) \<Rightarrow> 'o tcp \<Rightarrow> 'o tcp \<Rightarrow> bool" where
  "same_fds opened t t' \<longleftrightarrow> tcp_socket_fd t' = tcp_socket_fd t \<and> opened (tcp_os t') = opened (tcp_os t)"

lemma tcp_read_loop_fds:
  fixes px :: "'o posix"
  assumes "fds_tracked px opened"
  shows "same_fds opened t (snd (tcp_read_loop px want buf t))"
  using assms
proof (induction px want buf t rule: tcp_read_loop.induct)
  case (1 px want buf t)
  obtain r os where r: "px_read px (tcp_socket_fd t) (want - length buf) (tcp_os t) = (r, os)"
    by fastforce
  have o: "opened os = opened (tcp_os t)"
    using fds_tracked_calls(10) [OF 1(2), of "tcp_socket_fd t" "want - length buf" "tcp_os t"] r by simp
  show ?case
  proof (cases "length buf < want \<and> (\<exists>bs. r = Some bs \<and> bs \<noteq> [] \<and> length bs \<le> want - length buf)")
    case True
    then obtain bs where bs: "length buf < want" "r = Some bs" "bs \<noteq> []" "length bs \<le> want - length buf"
      by blast
    then have "tcp_read_loop px want buf t = tcp_read_loop px want (buf @ bs) (t\<lparr>tcp_os := os\<rparr>)"
      using r by (subst tcp_read_loop.simps) simp
    then show ?thesis
      using 1(1) [OF bs(1) r [symmetric] bs(2,3)] 1(2) bs(4) o by (simp add: same_fds_def)
  next
    case False
    then show ?thesis
      using r o by (subst tcp_read_loop.simps) (auto simp: same_fds_def split: option.split)
  qed
qed

lemma tcp_read_frame_fds:
  assumes "fds_tracked px opened"
  shows "same_fds opened t (snd (tcp_read_frame px t))"
proof -
  have loop: "tcp_read_loop px want buf t0 = (r, t1) \<Longrightarrow> same_fds opened t0 t1" for want buf t0 r t1
    using tcp_read_loop_fds [OF assms, of t0 want buf] by simp
  show ?thesis
    unfolding tcp_read_frame_def
    by (auto simp: Let_def same_fds_def split: prod.split option.split dest!: loop)
qed

lemma tcp_receive_fds:
  assumes "fds_tracked px opened"
  shows "same_fds opened t (snd (tcp_receive px timeout t))"
  using fds_tracked_calls(7) [OF assms, of "tcp_socket_fd t" POLLIN "int_of_count timeout" "tcp_os t"]
    tcp_read_frame_fds [OF assms]
  by (auto simp: tcp_receive_def Let_def same_fds_def split: prod.split)

definition connect_outcome :: "('o \<Rightarrow> int set) \<Rightarrow> 'o tcp \<Rightarrow> VoidResult \<times> 'o tcp \<Rightarrow> bool" where
  "connect_outcome opened t res \<longleftrightarrow> (case res of (r, t') \<Rightarrow>
     if void_has_value r then tcp_connected t' \<and> 0 \<le> tcp_socket_fd t'
       \<and> tcp_socket_fd t' \<notin> opened (tcp_os t)
       \<and> opened (tcp_os t') = insert (tcp_socket_fd t') (opened (tcp_os t))
     else \<not> tcp_connected t' \<and> tcp_socket_fd t' < 0 \<and> opened (tcp_os t') = opened (tcp_os t))"

lemma connect_close_fail:
  assumes "fds_tracked px opened" "\<not> tcp_connected t'" "e \<noteq> Success"
    and "opened (tcp_os t') = insert (tcp_socket_fd t') (opened (tcp_os t))"
    and "tcp_socket_fd t' \<notin> opened (tcp_os t)"
  shows "connect_outcome opened t (tcp_close_fail px e t')"
  using assms by (simp add: connect_outcome_def tcp_close_fail_def fds_tracked_calls)

lemma connect_finish:
  assumes "fds_tracked px opened" "0 \<le> tcp_socket_fd t'"
    and "opened (tcp_os t') = insert (tcp_socket_fd t') (opened (tcp_os t))"
    and "tcp_socket_fd t' \<notin> opened (tcp_os t)"
  shows "connect_outcome opened t (tcp_connect_finish px fl t')"
  using assms by (simp add: connect_outcome_def tcp_connect_finish_def Let_def fds_tracked_calls)

lemma tcp_connect_fds:
  assumes "fds_tracked px opened" "\<not> tcp_connected t"
  shows "connect_outcome opened t (tcp_connect px t)"
proof -
  obtain fd os0 where sock: "px_socket px (tcp_os t) = (fd, os0)" by fastforce
  note fresh = fds_tracked_calls(1) [OF assms(1), of "tcp_os t", unfolded sock fresh_fd_def fst_conv snd_conv]
  show ?thesis
  proof (cases "fd < 0")
    case True
    then show ?thesis using fresh assms(2) sock by (simp add: connect_outcome_def tcp_connect_def Let_def)
  next
    case fd: False
    then have new: "fd \<notin> opened (tcp_os t)" "opened os0 = insert fd (opened (tcp_os t))"
      using fresh by simp_all
    have 1: "opened os' = opened os" if "px_getfl px fd os = (a, os')" for a os os'
      using fds_tracked_calls(4) [OF assms(1), of fd os] that by simp
    have 2: "opened os' = opened os" if "px_connect px fd ad po os = (a, os')" for ad po a os os'
      using fds_tracked_calls(6) [OF assms(1), of fd ad po os] that by simp
    have 3: "opened os' = opened os" if "px_poll px fd e ms os = (a, os')" for e ms a os os'
      using fds_tracked_calls(7) [OF assms(1), of fd e ms os] that by simp
    have 4: "opened os' = opened os" if "px_so_error px fd os = (a, os')" for a os os'
      using fds_tracked_calls(8) [OF assms(1), of fd os] that by simp
    show ?thesis
      unfolding tcp_connect_def sock
      using assms(2) fd new
      by (auto simp: Let_def fds_tracked_calls(5) [OF assms(1)] split: prod.split option.split
          dest!: 1 2 3 4 intro!: connect_close_fail connect_finish assms(1))
  qed
qed

lemma tcp_disconnect_fds:
  assumes "fds_tracked px opened"
  shows "opened (tcp_os (tcp_disconnect px t)) =
      (if 0 \<le> tcp_socket_fd t then opened (tcp_os t) - {tcp_socket_fd t} else opened (tcp_os t))
    \<and> tcp_socket_fd (tcp_disconnect px t) < 0 \<and> \<not> tcp_connected (tcp_disconnect px t)"
  using assms by (simp add: tcp_disconnect_def Let_def fds_tracked_calls)

section \<open>Properties\<close>

text \<open>
  Property C19. Receiving rebuilds frames under any segmentation: however the bytes of a
  sequence of MBAP frames are cut up by the network, that many calls of \<open>receive\<close> return
  exactly those frames, in order, and leave what follows them in the stream unread.
\<close>

theorem tcp_receive_reassembles:
  assumes "tcp_connected t" and "stream_source px (tcp_socket_fd t) incoming"
    and "stream_ready px (tcp_socket_fd t) incoming"
    and "incoming (tcp_os t) = concat (map (\<lambda>(u, p, tid). wrap_tcp u p tid) adus) @ rest"
    and "\<forall>(u, p, tid)\<in>set adus. 1 + length (PDU_serialize p) < 2 ^ 16"
  shows "\<exists>os. tcp_receive_many px timeout (length adus) t =
      (Some (map (\<lambda>(u, p, tid). wrap_tcp u p tid) adus), t\<lparr>tcp_os := os\<rparr>) \<and> incoming os = rest"
proof -
  have "\<forall>f\<in>set (map (\<lambda>(u, p, tid). wrap_tcp u p tid) adus). mbap_frame f"
    using assms(5) mbap_frame_wrap by fastforce
  from tcp_receive_many_frames [OF assms(1-4) this, of timeout] show ?thesis
    by (simp only: length_map)
qed

definition sample_wire :: wire where
  "sample_wire = \<lparr>wire_in = [[0, 1, 0], [0, 0], [], [4, 17, 3, 107, 0, 0, 2], [0, 0, 0, 2, 17, 1, 9]],
     wire_out = [], wire_fds = [3]\<rparr>"

definition sample_tcp :: "wire tcp" where
  "sample_tcp = \<lparr>tcp_config = TCPConfig_default, tcp_socket_fd = 3, tcp_connected = True, tcp_os = sample_wire\<rparr>"

theorem tcp_receive_reassembles_witness:
  "\<exists>os. tcp_receive_many (wire_posix 0) 1000 2 sample_tcp =
     (Some [wrap_tcp 17 (make_standard 3 [107, 0]) 1, wrap_tcp 17 (make_standard 1 []) 2],
      sample_tcp\<lparr>tcp_os := os\<rparr>) \<and> wire_incoming os = [9]"
proof -
  let ?adus = "[(17, make_standard 3 [107, 0], 1), (17, make_standard 1 [], 2)] :: (unit_id \<times> PDU \<times> u16) list"
  have "wire_incoming (tcp_os sample_tcp) = concat (map (\<lambda>(u, p, tid). wrap_tcp u p tid) ?adus) @ [9]"
    by code_simp
  moreover have "\<forall>(u, p, tid)\<in>set ?adus. 1 + length (PDU_serialize p) < 2 ^ 16"
    by simp
  moreover have "tcp_connected sample_tcp" by (simp add: sample_tcp_def)
  ultimately have "\<exists>os. tcp_receive_many (wire_posix 0) 1000 (length ?adus) sample_tcp =
      (Some (map (\<lambda>(u, p, tid). wrap_tcp u p tid) ?adus), sample_tcp\<lparr>tcp_os := os\<rparr>) \<and> wire_incoming os = [9]"
    by (intro tcp_receive_reassembles [OF _ wire_stream_source wire_stream_ready])
  moreover have "length ?adus = 2" "map (\<lambda>(u, p, tid). wrap_tcp u p tid) ?adus
      = [wrap_tcp 17 (make_standard 3 [107, 0]) 1, wrap_tcp 17 (make_standard 1 []) 2]"
    by simp_all
  ultimately show ?thesis by (simp only:)
qed

text \<open>
  Sending is all or nothing for the caller: whatever part of the rest each
  \<open>write\<close> accepts, \<open>send\<close> returns success after every byte of the frame has been handed over
  in order; when a \<open>write\<close> fails it reports \<open>TransportDisconnected\<close> and the transport is
  disconnected, and there is no third outcome.
\<close>

theorem tcp_send_complete:
  assumes "tcp_connected t"
  shows "(stream_sink px (tcp_socket_fd t) sent \<longrightarrow>
      (\<exists>os. tcp_send px frame t = (void_ok, t\<lparr>tcp_os := os\<rparr>) \<and> sent os = sent (tcp_os t) @ frame))
    \<and> (let (r, t') = tcp_send px frame t in
       r = void_ok \<and> tcp_connected t' \<or> r = void_err TransportDisconnected \<and> \<not> tcp_connected t')"
proof -
  have "\<exists>os. tcp_send px frame t = (void_ok, t\<lparr>tcp_os := os\<rparr>) \<and> sent os = sent (tcp_os t) @ frame"
    if "stream_sink px (tcp_socket_fd t) sent"
    using tcp_send_loop_delivers [OF that, of 0 frame] assms by (simp add: tcp_send_def)
  moreover have "let (r, t') = tcp_send px frame t in
      r = void_ok \<and> tcp_connected t' \<or> r = void_err TransportDisconnected \<and> \<not> tcp_connected t'"
    using tcp_send_loop_result [of px frame 0 t] assms by (auto simp: tcp_send_def split: prod.split)
  ultimately show ?thesis by blast
qed

theorem tcp_send_complete_witness:
  "\<exists>os. tcp_send (wire_posix 1) [1, 2, 3, 4, 5] sample_tcp = (void_ok, sample_tcp\<lparr>tcp_os := os\<rparr>)
     \<and> wire_out os = [1, 2, 3, 4, 5]"
proof -
  have "tcp_connected sample_tcp" "wire_out (tcp_os sample_tcp) = []"
    by (simp_all add: sample_tcp_def sample_wire_def)
  with tcp_send_complete [of sample_tcp "wire_posix 1" wire_out "[1, 2, 3, 4, 5]"] wire_stream_sink
  show ?thesis by auto
qed

text \<open>
  Property C30. Whatever the peer sends, \<open>receive\<close> stays inside its buffer, fails only with the
  three transport errors, and returns nothing but complete MBAP frames whose length field is
  not zero: on its results \<open>unwrap_tcp\<close> is memory safe.
\<close>

theorem tcp_receive_safe:
  assumes "read_bounded px"
  shows "returns_within {TransportDisconnected, TimeoutExpired, InvalidFrame} (fst (tcp_receive px timeout t))
    \<and> (\<forall>f. fst (tcp_receive px timeout t) = Some (Ok f) \<longrightarrow>
         0 < mbap_length f \<and> length f = 6 + mbap_length f \<and> unwrap_tcp (span_of f) \<noteq> None)"
  using tcp_receive_sound [OF assms, of timeout t] mbap_frame_unwrap_defined
  by (auto simp: mbap_frame_def)

theorem tcp_receive_safe_witness:
  "returns_within {TransportDisconnected, TimeoutExpired, InvalidFrame}
     (fst (tcp_receive (wire_posix 0) 5 sample_tcp))"
  using tcp_receive_safe [OF wire_read_bounded] by blast

text \<open>
  A connection leaks no descriptor when it is opened on a fresh transport: a
  failed \<open>connect\<close> leaves the open descriptors as they were, a successful one adds exactly
  one, fresh, and \<open>disconnect\<close> gives it back.
\<close>

theorem tcp_connect_balanced:
  assumes "fds_tracked px opened" and "\<not> tcp_connected t" and "tcp_socket_fd t < 0"
  shows "let (r, t') = tcp_connect px t in
      tcp_connected t' = void_has_value r
      \<and> (if void_has_value r then tcp_socket_fd t' \<notin> opened (tcp_os t)
           \<and> opened (tcp_os t') = insert (tcp_socket_fd t') (opened (tcp_os t))
         else tcp_socket_fd t' < 0 \<and> opened (tcp_os t') = opened (tcp_os t))
      \<and> opened (tcp_os (tcp_disconnect px t')) = opened (tcp_os t)"
  using tcp_connect_fds [OF assms(1,2)] tcp_disconnect_fds [OF assms(1), of "snd (tcp_connect px t)"]
  by (auto simp: connect_outcome_def split: prod.splits if_splits)

theorem tcp_connect_balanced_witness:
  "let (r, t') = tcp_connect (wire_posix 0) (TCPTransport TCPConfig_default sample_wire) in
     set (wire_fds (tcp_os (tcp_disconnect (wire_posix 0) t'))) = {3}"
  using tcp_connect_balanced [OF wire_fds_tracked, of "TCPTransport TCPConfig_default sample_wire" 0]
  by (auto simp: TCPTransport_def sample_wire_def split: prod.splits)

text \<open>
  After an error the old descriptor is lost: when a \<open>receive\<close> has marked the
  transport as disconnected, a following \<open>connect\<close> overwrites \<open>socket_fd_\<close> without closing it,
  whether it succeeds or not, and \<open>disconnect\<close> no longer closes the old descriptor either.
\<close>

theorem tcp_reconnect_leaks_descriptor:
  assumes "fds_tracked px opened" and "0 \<le> tcp_socket_fd t" and "tcp_socket_fd t \<in> opened (tcp_os t)"
    and "tcp_receive px timeout t = (res, t1)" and "\<not> tcp_connected t1"
    and "tcp_connect px t1 = (r, t2)"
  shows "tcp_socket_fd t2 \<noteq> tcp_socket_fd t
    \<and> tcp_socket_fd t \<in> opened (tcp_os t2)
    \<and> tcp_socket_fd t \<in> opened (tcp_os (tcp_disconnect px t2))"
proof -
  have t1: "tcp_socket_fd t1 = tcp_socket_fd t" "tcp_socket_fd t \<in> opened (tcp_os t1)"
    using tcp_receive_fds [OF assms(1), of t timeout] assms(3,4) by (simp_all add: same_fds_def)
  then show ?thesis
    using tcp_connect_fds [OF assms(1,5)] tcp_disconnect_fds [OF assms(1), of t2] assms(2,6)
    by (auto simp: connect_outcome_def split: if_splits)
qed

definition broken_tcp :: "wire tcp" where
  "broken_tcp = sample_tcp\<lparr>tcp_os := sample_wire\<lparr>wire_in := [[0, 1]]\<rparr>\<rparr>"

theorem tcp_reconnect_leaks_descriptor_witness:
  "3 \<in> set (wire_fds (tcp_os (tcp_disconnect (wire_posix 0)
         (snd (tcp_connect (wire_posix 0) (snd (tcp_receive (wire_posix 0) 5 broken_tcp)))))))"
proof -
  have "\<not> tcp_connected (snd (tcp_receive (wire_posix 0) 5 broken_tcp))"
    by code_simp
  moreover have "tcp_socket_fd broken_tcp = 3" "3 \<in> set (wire_fds (tcp_os broken_tcp))"
    by (simp_all add: broken_tcp_def sample_tcp_def sample_wire_def)
  ultimately show ?thesis
    using tcp_reconnect_leaks_descriptor [OF wire_fds_tracked, of broken_tcp 0 5
        "fst (tcp_receive (wire_posix 0) 5 broken_tcp)" "snd (tcp_receive (wire_posix 0) 5 broken_tcp)"
        "fst (tcp_connect (wire_posix 0) (snd (tcp_receive (wire_posix 0) 5 broken_tcp)))"
        "snd (tcp_connect (wire_posix 0) (snd (tcp_receive (wire_posix 0) 5 broken_tcp)))"]
    by simp
qed

end
