(* ===== verification/Rtu_Transport.thy ===== *)
theory Rtu_Transport
  imports Posix Frame_Codec
begin

text \<open>
  Component \<open>transport/rtu_transport.cpp\<close>: the serial line, its configuration through
  \<open>termios\<close>, and the receiving loop that ends a frame at the first silence of 5 ms.

  A \<open>termios\<close> is modelled by its documented parts: the flag words are sets of flags, the
  character size, the speeds and the two control characters are fields of their own. The
  receiving loop has no bound in the code; it is a partial function that is \<open>None\<close> when it
  never returns.
\<close>

section \<open>Configuration\<close>

datatype speed = B9600 | B19200 | B38400 | B57600 | B115200 | OtherSpeed nat
datatype csize = CS5 | CS6 | CS7 | CS8
datatype cflag = PARENB | PARODD | CSTOPB | CRTSCTS | CREAD | CLOCAL | OtherC nat
datatype lflag = ICANON | ECHO | ECHOE | ISIG | OtherL nat
datatype iflag = IXON | IXOFF | IXANY | IGNBRK | BRKINT | PARMRK | ISTRIP | INLCR | IGNCR | ICRNL | OtherI nat
datatype oflag = OPOST | OtherO nat

record termios =
  tty_ispeed :: speed
  tty_ospeed :: speed
  tty_csize :: csize
  tty_cflag :: "cflag set"
  tty_lflag :: "lflag set"
  tty_iflag :: "iflag set"
  tty_oflag :: "oflag set"
  tty_vmin :: byte
  tty_vtime :: byte

record RTUConfig =
  rc_device :: string
  rc_baud_rate :: u32
  rc_data_bits :: byte
  rc_parity :: char
  rc_stop_bits :: byte
  rc_read_timeout :: milliseconds

definition RTUConfig_default :: RTUConfig where
  "RTUConfig_default = \<lparr>rc_device = ''/dev/ttyUSB0'', rc_baud_rate = 9600, rc_data_bits = 8,
     rc_parity = CHR ''N'', rc_stop_bits = 1, rc_read_timeout = 1000\<rparr>"

definition baud_speed :: "u32 \<Rightarrow> speed" where
  "baud_speed baud =
     (if baud = 9600 then B9600 else if baud = 19200 then B19200 else if baud = 38400 then B38400
      else if baud = 57600 then B57600 else if baud = 115200 then B115200 else B9600)"

definition set_data_bits :: "byte \<Rightarrow> termios \<Rightarrow> termios" where
  "set_data_bits bits tty =
     (let tty = tty\<lparr>tty_csize := CS5\<rparr> in
      if bits = 7 then tty\<lparr>tty_csize := CS7\<rparr> else if bits = 8 then tty\<lparr>tty_csize := CS8\<rparr>
      else tty\<lparr>tty_csize := CS8\<rparr>)"

definition set_parity :: "char \<Rightarrow> termios \<Rightarrow> termios" where
  "set_parity parity tty =
     (if parity = CHR ''E'' then tty\<lparr>tty_cflag := (tty_cflag tty \<union> {PARENB}) - {PARODD}\<rparr>
      else if parity = CHR ''O'' then tty\<lparr>tty_cflag := (tty_cflag tty \<union> {PARENB}) \<union> {PARODD}\<rparr>
      else tty\<lparr>tty_cflag := tty_cflag tty - {PARENB}\<rparr>)"

definition set_stop_bits :: "byte \<Rightarrow> termios \<Rightarrow> termios" where
  "set_stop_bits bits tty =
     (if bits = 2 then tty\<lparr>tty_cflag := tty_cflag tty \<union> {CSTOPB}\<rparr>
      else tty\<lparr>tty_cflag := tty_cflag tty - {CSTOPB}\<rparr>)"

definition configure_tty :: "RTUConfig \<Rightarrow> termios \<Rightarrow> termios" where
  "configure_tty config tty =
     (let speed = baud_speed (rc_baud_rate config);
          tty = tty\<lparr>tty_ispeed := speed\<rparr>;
          tty = tty\<lparr>tty_ospeed := speed\<rparr>;
          tty = set_data_bits (rc_data_bits config) tty;
          tty = set_parity (rc_parity config) tty;
          tty = set_stop_bits (rc_stop_bits config) tty;
          tty = tty\<lparr>tty_cflag := tty_cflag tty - {CRTSCTS}\<rparr>;
          tty = tty\<lparr>tty_cflag := tty_cflag tty \<union> {CREAD, CLOCAL}\<rparr>;
          tty = tty\<lparr>tty_lflag := tty_lflag tty - {ICANON, ECHO, ECHOE, ISIG}\<rparr>;
          tty = tty\<lparr>tty_iflag := tty_iflag tty -
                  {IXON, IXOFF, IXANY, IGNBRK, BRKINT, PARMRK, ISTRIP, INLCR, IGNCR, ICRNL}\<rparr>;
          tty = tty\<lparr>tty_oflag := tty_oflag tty - {OPOST}\<rparr>;
          tty = tty\<lparr>tty_vmin := 0\<rparr>;
          tty = tty\<lparr>tty_vtime := 1\<rparr> in tty)"

section \<open>State and life cycle\<close>

text \<open>The serial calls of the system, beside those of \<open>Posix\<close>.\<close>

record 'o serial = "'o posix" +
  px_tcgetattr :: "int \<Rightarrow> 'o \<Rightarrow> termios option \<times> 'o"
  px_tcsetattr :: "int \<Rightarrow> termios \<Rightarrow> 'o \<Rightarrow> int \<times> 'o"
  px_tcflush :: "int \<Rightarrow> 'o \<Rightarrow> 'o"
  px_tcdrain :: "int \<Rightarrow> 'o \<Rightarrow> 'o"

record 'o rtu =
  rtu_config :: RTUConfig
  rtu_fd :: int
  rtu_connected :: bool
  rtu_os :: 'o

definition RTUTransport :: "RTUConfig \<Rightarrow> 'o \<Rightarrow> 'o rtu" where
  "RTUTransport config os = \<lparr>rtu_config = config, rtu_fd = -1, rtu_connected = False, rtu_os = os\<rparr>"

definition rtu_close_fail :: "'o serial \<Rightarrow> 'o rtu \<Rightarrow> VoidResult \<times> 'o rtu" where
  "rtu_close_fail px t =
     (void_err TransportDisconnected, t\<lparr>rtu_os := px_close px (rtu_fd t) (rtu_os t), rtu_fd := -1\<rparr>)"

definition rtu_connect :: "'o serial \<Rightarrow> 'o rtu \<Rightarrow> VoidResult \<times> 'o rtu" where
  "rtu_connect px t =
     (if rtu_connected t then (void_ok, t)
      else (case px_open px (rc_device (rtu_config t)) (rtu_os t) of (fd, os) \<Rightarrow>
        let t = t\<lparr>rtu_fd := fd, rtu_os := os\<rparr> in
        if fd < 0 then (void_err TransportDisconnected, t)
        else (case px_tcgetattr px fd os of
            (None, os) \<Rightarrow> rtu_close_fail px (t\<lparr>rtu_os := os\<rparr>)
          | (Some tty, os) \<Rightarrow>
            (case px_tcsetattr px fd (configure_tty (rtu_config t) tty) os of (ret, os) \<Rightarrow>
              if ret \<noteq> 0 then rtu_close_fail px (t\<lparr>rtu_os := os\<rparr>)
              else (let os = px_tcflush px fd os in
                (case px_getfl px fd os of (fl, os) \<Rightarrow>
                  let os = px_setfl px fd (fl AND NOT (px_O_NONBLOCK px)) os in
                  (void_ok, t\<lparr>rtu_os := os, rtu_connected := True\<rparr>)))))))"

definition rtu_disconnect :: "'o serial \<Rightarrow> 'o rtu \<Rightarrow> 'o rtu" where
  "rtu_disconnect px t =
     (let t = (if rtu_fd t \<ge> 0
               then t\<lparr>rtu_os := px_close px (rtu_fd t) (rtu_os t), rtu_fd := -1\<rparr> else t) in
      t\<lparr>rtu_connected := False\<rparr>)"

section \<open>Sending and receiving\<close>

definition rtu_send :: "'o serial \<Rightarrow> frame \<Rightarrow> 'o rtu \<Rightarrow> VoidResult \<times> 'o rtu" where
  "rtu_send px frame t =
     (if \<not> rtu_connected t then (void_err TransportDisconnected, t)
      else (case px_write px (rtu_fd t) frame (rtu_os t) of (written, os) \<Rightarrow>
        if written < 0 \<or> nat written \<noteq> length frame
        then (void_err TransportDisconnected, t\<lparr>rtu_os := os\<rparr>)
        else (void_ok, t\<lparr>rtu_os := px_tcdrain px (rtu_fd t) os\<rparr>)))"

text \<open>
  One round of the loop: read what there is, then wait 5 ms for more. The read asks for 256 bytes,
  the size of the buffer \<open>tmp\<close>. That it gives no more than it was asked for is the contract of the
  system call; no lemma needs it here, because the bytes go into a vector that grows.
\<close>

definition rtu_read_round :: "'o serial \<Rightarrow> int \<Rightarrow> byte list \<times> 'o \<Rightarrow> int \<times> byte list \<times> 'o" where
  "rtu_read_round px fd st = (case st of (buffer, os) \<Rightarrow>
     (case px_read px fd 256 os of (r, os) \<Rightarrow>
       let buffer = (case r of Some bs \<Rightarrow> buffer @ bs | None \<Rightarrow> buffer) in
       (case px_poll px fd POLLIN 5 os of (pending, os) \<Rightarrow> (pending, buffer, os))))"

partial_function (option) rtu_read_loop ::
  "'o serial \<Rightarrow> int \<Rightarrow> byte list \<times> 'o \<Rightarrow> (byte list \<times> 'o) option" where
  "rtu_read_loop px fd st = (case rtu_read_round px fd st of (pending, st') \<Rightarrow>
     if pending \<le> 0 then Some st' else rtu_read_loop px fd st')"

definition rtu_receive :: "'o serial \<Rightarrow> milliseconds \<Rightarrow> 'o rtu \<Rightarrow> (frame Result \<times> 'o rtu) option" where
  "rtu_receive px timeout t =
     (if \<not> rtu_connected t then Some (err TransportDisconnected, t)
      else (case px_poll px (rtu_fd t) POLLIN (int_of_count timeout) (rtu_os t) of (poll_ret, os) \<Rightarrow>
        if poll_ret < 0 then Some (err TransportDisconnected, t\<lparr>rtu_os := os\<rparr>)
        else if poll_ret = 0 then Some (err TimeoutExpired, t\<lparr>rtu_os := os\<rparr>)
        else do {
          (buffer, os) \<leftarrow> rtu_read_loop px (rtu_fd t) ([], os);
          Some (if buffer = [] then err TimeoutExpired else Ok buffer, t\<lparr>rtu_os := os\<rparr>)
        }))"

section \<open>The configuration of the line\<close>

definition parity_flags :: "char \<Rightarrow> cflag set \<Rightarrow> cflag set" where
  "parity_flags parity F = (if parity = CHR ''E'' then (F \<union> {PARENB}) - {PARODD}
     else if parity = CHR ''O'' then (F \<union> {PARENB}) \<union> {PARODD} else F - {PARENB})"

definition stop_flags :: "byte \<Rightarrow> cflag set \<Rightarrow> cflag set" where
  "stop_flags bits F = (if bits = 2 then F \<union> {CSTOPB} else F - {CSTOPB})"

lemma setters [simp]:
  "set_parity q t = t\<lparr>tty_cflag := parity_flags q (tty_cflag t)\<rparr>"
  "set_stop_bits n t = t\<lparr>tty_cflag := stop_flags n (tty_cflag t)\<rparr>"
  "set_data_bits n t = t\<lparr>tty_csize := (if n = 7 then CS7 else CS8)\<rparr>"
  by (simp_all add: set_parity_def set_stop_bits_def set_data_bits_def parity_flags_def stop_flags_def)

lemma configure_tty_fields:
  "tty_ispeed (configure_tty c tty) = baud_speed (rc_baud_rate c)"
  "tty_ospeed (configure_tty c tty) = baud_speed (rc_baud_rate c)"
  "tty_csize (configure_tty c tty) = (if rc_data_bits c = 7 then CS7 else CS8)"
  "tty_cflag (configure_tty c tty) = (stop_flags (rc_stop_bits c)
     (parity_flags (rc_parity c) (tty_cflag tty)) - {CRTSCTS}) \<union> {CREAD, CLOCAL}"
  "tty_lflag (configure_tty c tty) = tty_lflag tty - {ICANON, ECHO, ECHOE, ISIG}"
  "tty_oflag (configure_tty c tty) = tty_oflag tty - {OPOST}"
  "tty_vmin (configure_tty c tty) = 0" "tty_vtime (configure_tty c tty) = 1"
  by (simp_all add: configure_tty_def Let_def)

section \<open>Receiving\<close>

text \<open>
  What a line delivers: the bursts of \<open>line os\<close>, each read in one go, with less than 5 ms
  between two and silence after the last.
\<close>

definition burst_line :: "'o serial \<Rightarrow> int \<Rightarrow> ('o \<Rightarrow> byte list list) \<Rightarrow> bool" where
  "burst_line px fd line \<longleftrightarrow>
     (\<forall>os b bs. line os = b # bs \<longrightarrow>
        (\<forall>ms. \<exists>os'. px_poll px fd POLLIN ms os = (1, os') \<and> line os' = b # bs)
        \<and> (\<exists>os' os''. px_read px fd 256 os = (Some b, os')
             \<and> px_poll px fd POLLIN 5 os' = (if bs = [] then 0 else 1, os'') \<and> line os'' = bs))"

lemma rtu_read_loop_bursts:
  assumes "burst_line px fd line" "line os = bs" "bs \<noteq> []"
  shows "\<exists>os'. rtu_read_loop px fd (buffer, os) = Some (buffer @ concat bs, os') \<and> line os' = []"
  using assms(2,3)
proof (induction bs arbitrary: os buffer)
  case Nil
  then show ?case by simp
next
  case (Cons b bs)
  then obtain os1 os2 where 1: "px_read px fd 256 os = (Some b, os1)"
    "px_poll px fd POLLIN 5 os1 = (if bs = [] then 0 else 1, os2)" "line os2 = bs"
    using assms(1) unfolding burst_line_def by blast
  then have round: "rtu_read_round px fd (buffer, os) = ((if bs = [] then 0 else 1), buffer @ b, os2)"
    by (simp add: rtu_read_round_def)
  show ?case
  proof (cases "bs = []")
    case True
    then show ?thesis using round 1(3) by (subst rtu_read_loop.simps) simp
  next
    case False
    with Cons.IH [OF 1(3), of "buffer @ b"] round show ?thesis
      by (subst rtu_read_loop.simps) simp
  qed
qed

lemma rtu_receive_bursts:
  assumes "burst_line px (rtu_fd t) line" "rtu_connected t" "concat (line (rtu_os t)) \<noteq> []"
  shows "\<exists>os'. rtu_receive px timeout t = Some (Ok (concat (line (rtu_os t))), t\<lparr>rtu_os := os'\<rparr>)
    \<and> line os' = []"
proof -
  obtain b bs where b: "line (rtu_os t) = b # bs" using assms(3) by (cases "line (rtu_os t)") auto
  then obtain os1 where 1: "px_poll px (rtu_fd t) POLLIN (int_of_count timeout) (rtu_os t) = (1, os1)"
    "line os1 = b # bs"
    using assms(1) unfolding burst_line_def by blast
  from rtu_read_loop_bursts [OF assms(1) 1(2), of "[]"] assms(2,3) 1(1) b show ?thesis
    by (auto simp: rtu_receive_def)
qed

text \<open>A line that always has something to say, like a hung-up terminal, is never left.\<close>

lemma rtu_read_round_fst:
  "rtu_read_round px fd st = (pending, st') \<Longrightarrow> \<exists>os. pending = fst (px_poll px fd POLLIN 5 os)"
  by (auto simp: rtu_read_round_def Let_def split: prod.splits) (metis fst_conv)+

lemma rtu_read_loop_Some:
  assumes "rtu_read_loop px fd st = Some r"
  shows "\<exists>os. fst (px_poll px fd POLLIN 5 os) \<le> 0"
proof (rule rtu_read_loop.raw_induct [where P = "\<lambda>px fd st r. \<exists>os. fst (px_poll px fd POLLIN 5 os) \<le> 0",
      OF _ assms])
  fix loop :: "'a serial \<Rightarrow> int \<Rightarrow> byte list \<times> 'a \<Rightarrow> (byte list \<times> 'a) option"
    and px :: "'a serial" and fd :: int and st r
  assume IH: "\<And>px fd st r. loop px fd st = Some r \<Longrightarrow> \<exists>os. fst (px_poll px fd POLLIN 5 os) \<le> 0"
    and ret: "(case rtu_read_round px fd st of (pending, st') \<Rightarrow>
      if pending \<le> 0 then Some st' else loop px fd st') = Some r"
  obtain pending st' where round: "rtu_read_round px fd st = (pending, st')" by (metis surj_pair)
  show "\<exists>os. fst (px_poll px fd POLLIN 5 os) \<le> 0"
  proof (cases "pending \<le> 0")
    case True
    then show ?thesis using rtu_read_round_fst [OF round] by auto
  next
    case False
    then show ?thesis using ret round by (auto intro: IH)
  qed
qed

lemma rtu_read_loop_hangs:
  assumes "\<forall>os. 0 < fst (px_poll px fd POLLIN 5 os)"
  shows "rtu_read_loop px fd st = None"
proof (rule ccontr)
  assume "rtu_read_loop px fd st \<noteq> None"
  then obtain os where "fst (px_poll px fd POLLIN 5 os) \<le> 0"
    using rtu_read_loop_Some by fastforce
  with assms show False by (metis not_le)
qed

section \<open>The members agree\<close>

text \<open>A connected transport holds a descriptor, and a descriptor is only held while connected.\<close>

definition rtu_inv :: "'o rtu \<Rightarrow> bool" where
  "rtu_inv t \<longleftrightarrow> (rtu_connected t \<longleftrightarrow> 0 \<le> rtu_fd t)"

lemma rtu_inv_new: "rtu_inv (RTUTransport c os)"
  by (simp add: rtu_inv_def RTUTransport_def)

lemma rtu_inv_connect: "rtu_inv t \<Longrightarrow> rtu_inv (snd (rtu_connect px t))"
  by (auto simp: rtu_inv_def rtu_connect_def rtu_close_fail_def Let_def split: prod.split option.split)

lemma rtu_inv_disconnect: "rtu_inv (rtu_disconnect px t)"
  by (simp add: rtu_inv_def rtu_disconnect_def Let_def)

lemma rtu_inv_send: "rtu_inv t \<Longrightarrow> rtu_inv (snd (rtu_send px f t))"
  by (auto simp: rtu_inv_def rtu_send_def split: prod.split)

lemma rtu_inv_receive: "rtu_inv t \<Longrightarrow> rtu_receive px ms t = Some (r, t') \<Longrightarrow> rtu_inv t'"
  by (auto simp: rtu_inv_def rtu_receive_def Let_def bind_eq_Some_conv split: prod.splits if_splits)

section \<open>A line to evaluate the model on\<close>

definition burst_serial :: "byte list list serial" where
  "burst_serial = posix.extend
     \<lparr>px_socket = (\<lambda>w. (-1, w)), px_open = (\<lambda>p w. (3, w)), px_close = (\<lambda>fd w. w),
      px_getfl = (\<lambda>fd w. (0, w)), px_setfl = (\<lambda>fd fl w. w), px_O_NONBLOCK = 2048,
      px_inet_pton = (\<lambda>s. None), px_connect = (\<lambda>fd a p w. ((-1, False), w)),
      px_poll = (\<lambda>fd e t w. (if w = [] then 0 else 1, w)), px_so_error = (\<lambda>fd w. (0, w)),
      px_tcp_nodelay = (\<lambda>fd w. w),
      px_read = (\<lambda>fd n w. case w of [] \<Rightarrow> (Some [], []) | c # cs \<Rightarrow> (Some c, cs)),
      px_write = (\<lambda>fd bs w. (int (length bs), w))\<rparr>
     (serial.fields (\<lambda>fd w. (None, w)) (\<lambda>fd t w. (0, w)) (\<lambda>fd w. w) (\<lambda>fd w. w))"

lemma burst_serial_sel [simp]:
  "px_poll burst_serial fd e t w = (if w = [] then 0 else 1, w)"
  "px_read burst_serial fd n w = (case w of [] \<Rightarrow> (Some [], []) | c # cs \<Rightarrow> (Some c, cs))"
  by (simp_all add: burst_serial_def posix.defs serial.defs)

lemma burst_serial_line: "burst_line burst_serial fd (\<lambda>w. w)"
  by (simp add: burst_line_def)

text \<open>After a hang-up \<open>poll\<close> reports the descriptor at once and \<open>read\<close> returns 0.\<close>

definition hung_up_serial :: "byte list list serial" where
  "hung_up_serial = burst_serial\<lparr>px_poll := (\<lambda>fd e t w. (1, w)), px_read := (\<lambda>fd n w. (Some [], w))\<rparr>"

definition sample_rtu :: "byte list list \<Rightarrow> byte list list rtu" where
  "sample_rtu w = \<lparr>rtu_config = RTUConfig_default, rtu_fd = 3, rtu_connected = True, rtu_os = w\<rparr>"

section \<open>Properties\<close>

text \<open>
  Property C31. A frame on the serial line is received whole and decoded: whatever bursts the
  driver hands the bytes over in, as long as no gap reaches 5 ms, \<open>receive\<close> returns exactly
  the bytes sent and \<open>unwrap_rtu\<close> gives back the unit and the PDU.
\<close>

theorem rtu_line_roundtrip:
  assumes "rtu_connected t" and "burst_line px (rtu_fd t) line"
    and "concat (line (rtu_os t)) = wrap_rtu u p" and "PDU_wf p"
  shows "\<exists>t'. rtu_receive px timeout t = Some (Ok (wrap_rtu u p), t') \<and> rtu_connected t'
    \<and> unwrap_rtu (span_of (wrap_rtu u p)) = Some (Ok (u, p))"
proof -
  have "wrap_rtu u p \<noteq> []" by (simp add: wrap_rtu_def Let_def)
  with rtu_receive_bursts [OF assms(2,1), of timeout] assms(1,3) rtu_roundtrip [OF assms(4), of u]
  show ?thesis by auto
qed

theorem rtu_line_roundtrip_witness:
  "\<exists>t'. rtu_receive burst_serial 1000 (sample_rtu [[0x01, 0x03, 0x00], [], [0x00, 0x00, 0x01, 0x84, 0x0A]])
     = Some (Ok sample_frame, t')"
proof -
  have frame: "wrap_rtu 1 (make_standard 0x03 [0, 0, 0, 1]) = sample_frame"
    by code_simp
  have "rtu_connected (sample_rtu w)" "concat (rtu_os (sample_rtu [[0x01, 0x03, 0x00], [],
      [0x00, 0x00, 0x01, 0x84, 0x0A]])) = wrap_rtu 1 (make_standard 0x03 [0, 0, 0, 1])" for w
    unfolding frame by (simp_all add: sample_rtu_def sample_frame_def)
  from rtu_line_roundtrip [OF this(1) burst_serial_line this(2), of 1000] show ?thesis
    unfolding frame by auto
qed

text \<open>
  Property C38. The receiving loop has no bound: on a line whose \<open>poll\<close> keeps reporting the
  descriptor, as it does after a hang-up, \<open>receive\<close> never returns, whatever its timeout.
\<close>

theorem rtu_receive_never_returns:
  assumes "rtu_connected t" and "\<forall>e ms os. 0 < fst (px_poll px (rtu_fd t) e ms os)"
  shows "rtu_receive px timeout t = None"
proof -
  have "rtu_read_loop px (rtu_fd t) st = None" for st
    using assms(2) by (intro rtu_read_loop_hangs) simp
  moreover obtain n os where "px_poll px (rtu_fd t) POLLIN (int_of_count timeout) (rtu_os t) = (n, os)" "0 < n"
    using assms(2) by (metis prod.collapse)
  ultimately show ?thesis using assms(1) by (simp add: rtu_receive_def)
qed

theorem rtu_receive_never_returns_witness:
  "rtu_receive hung_up_serial 1000 (sample_rtu []) = None"
  by (rule rtu_receive_never_returns) (simp_all add: sample_rtu_def hung_up_serial_def)

text \<open>
  The members stay consistent: a transport is connected exactly when it holds a
  descriptor, from construction on and through every operation, on any system.
\<close>

theorem rtu_members_consistent:
  fixes px :: "'o serial" and os :: 'o
  shows "rtu_inv (RTUTransport c os)
   \<and> (rtu_inv t \<longrightarrow> rtu_inv (snd (rtu_connect px t)) \<and> rtu_inv (rtu_disconnect px t)
        \<and> rtu_inv (snd (rtu_send px f t))
        \<and> (case rtu_receive px ms t of None \<Rightarrow> True | Some (r, t') \<Rightarrow> rtu_inv t'))"
  by (auto simp: rtu_inv_new rtu_inv_disconnect intro: rtu_inv_connect rtu_inv_send
      split: option.split dest: rtu_inv_receive)

theorem rtu_members_consistent_witness:
  "rtu_inv (snd (rtu_connect burst_serial (RTUTransport RTUConfig_default [])))"
proof -
  have "rtu_inv (RTUTransport RTUConfig_default ([] :: byte list list))"
    by (simp add: rtu_inv_new)
  with rtu_members_consistent [of RTUConfig_default "[]" "RTUTransport RTUConfig_default []" burst_serial "[]" 0]
  show ?thesis by simp
qed

text \<open>
  How a configuration reaches the line, whatever its settings were before: the
  speed, 7 or else 8 data bits, parity even, odd or none, one or two stop bits, raw mode
  without flow control. A value outside the ones listed falls back to 9600 baud, 8 bits, no
  parity, one stop bit.
\<close>

theorem rtu_line_settings:
  "tty_ispeed (configure_tty c tty) = baud_speed (rc_baud_rate c)
   \<and> tty_ospeed (configure_tty c tty) = baud_speed (rc_baud_rate c)
   \<and> tty_csize (configure_tty c tty) = (if rc_data_bits c = 7 then CS7 else CS8)
   \<and> (if rc_parity c = CHR ''E'' then PARENB \<in> tty_cflag (configure_tty c tty) \<and> PARODD \<notin> tty_cflag (configure_tty c tty)
      else if rc_parity c = CHR ''O'' then {PARENB, PARODD} \<subseteq> tty_cflag (configure_tty c tty)
      else PARENB \<notin> tty_cflag (configure_tty c tty))
   \<and> (CSTOPB \<in> tty_cflag (configure_tty c tty)) = (rc_stop_bits c = 2)
   \<and> CRTSCTS \<notin> tty_cflag (configure_tty c tty)
   \<and> tty_lflag (configure_tty c tty) \<inter> {ICANON, ECHO, ECHOE, ISIG} = {}
   \<and> OPOST \<notin> tty_oflag (configure_tty c tty)
   \<and> tty_vmin (configure_tty c tty) = 0 \<and> tty_vtime (configure_tty c tty) = 1"
  by (auto simp: configure_tty_fields parity_flags_def stop_flags_def)

end
