(* ===== verification/Endian.thy ===== *)
theory Endian
  imports Core_Types
begin

text \<open>
  Component \<open>core/endian.hpp\<close>: the four byte orders, the reordering of 4 and 8 byte values, and
  the encoders and decoders between native values, bytes and registers.

  A \<open>float\<close>, \<open>double\<close>, \<open>std::int16_t\<close> or \<open>std::int32_t\<close> is its bit pattern behind a constructor
  of its own: the code only ever copies the representation with \<open>std::memcpy\<close>, which is the
  constructor and its selector. A decoder that takes a pointer reads with \<open>fetch\<close>, so it is
  \<open>None\<close> when the memory is too short. The two generic loops run over their index values.
\<close>

section \<open>Byte orders\<close>

datatype ByteOrder = ABCD | DCBA | BADC | CDAB

fun ByteOrder_value :: "ByteOrder \<Rightarrow> byte" where
  "ByteOrder_value ABCD = 0x00"
| "ByteOrder_value DCBA = 0x01"
| "ByteOrder_value BADC = 0x02"
| "ByteOrder_value CDAB = 0x03"

text \<open>The template is only instantiated at 4 and 8 bytes (\<open>static_assert\<close>).\<close>

fun reorder :: "ByteOrder \<Rightarrow> byte list \<Rightarrow> byte list" where
  "reorder ABCD bytes = bytes"
| "reorder DCBA [b0, b1, b2, b3] = [b3, b2, b1, b0]"
| "reorder DCBA [b0, b1, b2, b3, b4, b5, b6, b7] = [b7, b6, b5, b4, b3, b2, b1, b0]"
| "reorder BADC [b0, b1, b2, b3] = [b1, b0, b3, b2]"
| "reorder BADC [b0, b1, b2, b3, b4, b5, b6, b7] = [b1, b0, b3, b2, b5, b4, b7, b6]"
| "reorder CDAB [b0, b1, b2, b3] = [b2, b3, b0, b1]"
| "reorder CDAB [b0, b1, b2, b3, b4, b5, b6, b7] = [b6, b7, b4, b5, b2, b3, b0, b1]"
| "reorder _ bytes = bytes"

section \<open>Native values as big-endian bytes\<close>

datatype int16 = Int16 (int16_bits: u16)
datatype int32 = Int32 (int32_bits: u32)
datatype float32 = Float32 (float_bits: u32)
datatype float64 = Float64 (double_bits: u64)

definition sizeof :: "'a::len word itself \<Rightarrow> nat" where
  "sizeof t = LENGTH('a) div 8"

definition to_big_endian_bytes :: "'a::len word \<Rightarrow> byte list" where
  "to_big_endian_bytes value =
     map (\<lambda>i. ucast (drop_bit ((sizeof TYPE('a word) - 1 - i) * 8) value AND 0xFF))
       [0..<sizeof TYPE('a word)]"

definition to_big_endian_bytes_float :: "float32 \<Rightarrow> byte list" where
  "to_big_endian_bytes_float value = to_big_endian_bytes (float_bits value)"

definition to_big_endian_bytes_double :: "float64 \<Rightarrow> byte list" where
  "to_big_endian_bytes_double value = to_big_endian_bytes (double_bits value)"

fun from_big_endian_loop :: "byte list \<Rightarrow> nat list \<Rightarrow> 'a::len word \<Rightarrow> 'a word option" where
  "from_big_endian_loop data [] value = Some value"
| "from_big_endian_loop data (i # is) value = do {
     b \<leftarrow> fetch data i;
     from_big_endian_loop data is
       (value OR push_bit ((sizeof TYPE('a word) - 1 - i) * 8) (ucast b))
   }"

definition from_big_endian_bytes :: "byte list \<Rightarrow> 'a::len word option" where
  "from_big_endian_bytes data = from_big_endian_loop data [0..<sizeof TYPE('a word)] 0"

section \<open>Encoders\<close>

definition encode_float :: "ByteOrder \<Rightarrow> float32 \<Rightarrow> byte list" where
  "encode_float order value = reorder order (to_big_endian_bytes_float value)"

definition encode_double :: "ByteOrder \<Rightarrow> float64 \<Rightarrow> byte list" where
  "encode_double order value = reorder order (to_big_endian_bytes_double value)"

definition encode_uint32 :: "ByteOrder \<Rightarrow> u32 \<Rightarrow> byte list" where
  "encode_uint32 order value = reorder order (to_big_endian_bytes value)"

definition encode_int32 :: "ByteOrder \<Rightarrow> int32 \<Rightarrow> byte list" where
  "encode_int32 order value = encode_uint32 order (int32_bits value)"

definition encode_uint16 :: "u16 \<Rightarrow> byte list" where
  "encode_uint16 value = [hi8 value, lo8 value]"

definition encode_int16 :: "int16 \<Rightarrow> byte list" where
  "encode_int16 value = encode_uint16 (int16_bits value)"

section \<open>Decoders\<close>

definition fetch4 :: "byte list \<Rightarrow> byte list option" where
  "fetch4 data = do {
     b0 \<leftarrow> fetch data 0; b1 \<leftarrow> fetch data 1; b2 \<leftarrow> fetch data 2; b3 \<leftarrow> fetch data 3;
     Some [b0, b1, b2, b3]
   }"

definition fetch8 :: "byte list \<Rightarrow> byte list option" where
  "fetch8 data = do {
     b0 \<leftarrow> fetch data 0; b1 \<leftarrow> fetch data 1; b2 \<leftarrow> fetch data 2; b3 \<leftarrow> fetch data 3;
     b4 \<leftarrow> fetch data 4; b5 \<leftarrow> fetch data 5; b6 \<leftarrow> fetch data 6; b7 \<leftarrow> fetch data 7;
     Some [b0, b1, b2, b3, b4, b5, b6, b7]
   }"

definition decode_float :: "ByteOrder \<Rightarrow> byte list \<Rightarrow> float32 option" where
  "decode_float order data = do {
     bytes \<leftarrow> fetch4 data;
     bits \<leftarrow> from_big_endian_bytes (reorder order bytes);
     Some (Float32 bits)
   }"

definition decode_double :: "ByteOrder \<Rightarrow> byte list \<Rightarrow> float64 option" where
  "decode_double order data = do {
     bytes \<leftarrow> fetch8 data;
     bits \<leftarrow> from_big_endian_bytes (reorder order bytes);
     Some (Float64 bits)
   }"

definition decode_uint32 :: "ByteOrder \<Rightarrow> byte list \<Rightarrow> u32 option" where
  "decode_uint32 order data = do {
     bytes \<leftarrow> fetch4 data;
     from_big_endian_bytes (reorder order bytes)
   }"

definition decode_int32 :: "ByteOrder \<Rightarrow> byte list \<Rightarrow> int32 option" where
  "decode_int32 order data = do {
     uval \<leftarrow> decode_uint32 order data;
     Some (Int32 uval)
   }"

definition decode_uint16 :: "byte list \<Rightarrow> u16 option" where
  "decode_uint16 data = do {
     h \<leftarrow> fetch data 0; l \<leftarrow> fetch data 1;
     Some (be16 h l)
   }"

definition decode_int16 :: "byte list \<Rightarrow> int16 option" where
  "decode_int16 data = do {
     uval \<leftarrow> decode_uint16 data;
     Some (Int16 uval)
   }"

section \<open>Registers\<close>

definition encode_float_regs :: "ByteOrder \<Rightarrow> float32 \<Rightarrow> register list option" where
  "encode_float_regs order value = (let bytes = encode_float order value in do {
     r0 \<leftarrow> decode_uint16 bytes; r1 \<leftarrow> decode_uint16 (drop 2 bytes);
     Some [r0, r1]
   })"

definition decode_float_regs :: "ByteOrder \<Rightarrow> register list \<Rightarrow> float32 option" where
  "decode_float_regs order regs = do {
     r0 \<leftarrow> fetch regs 0; r1 \<leftarrow> fetch regs 1;
     decode_float order (encode_uint16 r0 @ encode_uint16 r1)
   }"

definition encode_uint32_regs :: "ByteOrder \<Rightarrow> u32 \<Rightarrow> register list option" where
  "encode_uint32_regs order value = (let bytes = encode_uint32 order value in do {
     r0 \<leftarrow> decode_uint16 bytes; r1 \<leftarrow> decode_uint16 (drop 2 bytes);
     Some [r0, r1]
   })"

definition decode_uint32_regs :: "ByteOrder \<Rightarrow> register list \<Rightarrow> u32 option" where
  "decode_uint32_regs order regs = do {
     r0 \<leftarrow> fetch regs 0; r1 \<leftarrow> fetch regs 1;
     decode_uint32 order (encode_uint16 r0 @ encode_uint16 r1)
   }"

definition encode_double_regs :: "ByteOrder \<Rightarrow> float64 \<Rightarrow> register list option" where
  "encode_double_regs order value = (let bytes = encode_double order value in do {
     r0 \<leftarrow> decode_uint16 bytes;          r1 \<leftarrow> decode_uint16 (drop 2 bytes);
     r2 \<leftarrow> decode_uint16 (drop 4 bytes); r3 \<leftarrow> decode_uint16 (drop 6 bytes);
     Some [r0, r1, r2, r3]
   })"

fun decode_double_regs_loop :: "register list \<Rightarrow> nat list \<Rightarrow> byte list \<Rightarrow> byte list option" where
  "decode_double_regs_loop regs [] bytes = Some bytes"
| "decode_double_regs_loop regs (i # is) bytes = do {
     r \<leftarrow> fetch regs i;
     decode_double_regs_loop regs is (bytes[i * 2 := hi8 r, i * 2 + 1 := lo8 r])
   }"

definition decode_double_regs :: "ByteOrder \<Rightarrow> register list \<Rightarrow> float64 option" where
  "decode_double_regs order regs = do {
     bytes \<leftarrow> decode_double_regs_loop regs [0, 1, 2, 3] (replicate 8 0);
     decode_double order bytes
   }"

section \<open>The generic loops are inverse\<close>

lemma from_big_endian_loop_eq:
  fixes val :: "'a::len word"
  assumes "\<forall>i\<in>set is. i < length data"
  shows "from_big_endian_loop data is val =
    Some (foldl (\<lambda>v i. v OR push_bit ((sizeof TYPE('a word) - 1 - i) * 8) (ucast (data ! i))) val is)"
  using assms by (induction "is" arbitrary: val) (auto simp: fetch_lt)

lemma bit_foldl_or:
  "bit (foldl (\<lambda>v i. v OR f i) (a :: 'a::len word) is) k \<longleftrightarrow> bit a k \<or> (\<exists>i\<in>set is. bit (f i) k)"
  by (induction "is" arbitrary: a) (auto simp: bit_or_iff)

lemma mask8_word: "(0xFF :: 'a::len word) = mask 8"
  by (simp add: mask_eq_exp_minus_1)

lemma length_to_big_endian_bytes [simp]:
  "length (to_big_endian_bytes (v :: 'a::len word)) = LENGTH('a) div 8"
  by (simp add: to_big_endian_bytes_def sizeof_def)

lemma to_big_endian_bytes_nth:
  fixes v :: "'a::len word"
  assumes "i < LENGTH('a) div 8"
  shows "bit (to_big_endian_bytes v ! i) k \<longleftrightarrow>
    k < 8 \<and> bit v ((LENGTH('a) div 8 - 1 - i) * 8 + k)"
  using assms
  by (auto simp: to_big_endian_bytes_def sizeof_def mask8_word bit_simps add.commute
      dest: bit_imp_le_length)

lemma byte_of_position:
  assumes "k < n * (8 :: nat)" "i < n"
  shows "(n - 1 - i) * 8 \<le> k \<and> k - (n - 1 - i) * 8 < 8 \<longleftrightarrow> i = n - 1 - k div 8"
  using assms by auto

lemma bit_from_big_endian:
  fixes val :: "'a::len word"
  assumes "length data = LENGTH('a) div 8" "LENGTH('a) = 8 * (LENGTH('a) div 8)"
    and "from_big_endian_bytes data = Some (val :: 'a word)" and "k < LENGTH('a)"
  shows "bit val k \<longleftrightarrow> bit (data ! (LENGTH('a) div 8 - 1 - k div 8)) (k mod 8)"
proof -
  let ?n = "LENGTH('a) div 8"
  have "val = foldl (\<lambda>v i. v OR push_bit ((?n - 1 - i) * 8) (ucast (data ! i))) 0 [0..<?n]"
    using assms(1,3)
    by (simp add: from_big_endian_bytes_def from_big_endian_loop_eq sizeof_def)
  then have "bit val k \<longleftrightarrow> (\<exists>i<?n. (?n - 1 - i) * 8 \<le> k \<and> k - (?n - 1 - i) * 8 < 8
      \<and> bit (data ! i) (k - (?n - 1 - i) * 8))"
    using assms(4) bit_imp_le_length [where 'a = 8]
    by (auto 0 4 simp: bit_foldl_or bit_simps)
  also have "\<dots> \<longleftrightarrow> bit (data ! (?n - 1 - k div 8)) (k mod 8)"
  proof -
    have k: "k < ?n * 8" using assms(2,4) by linarith
    then have "?n - 1 - k div 8 < ?n" by (cases ?n) auto
    moreover have "k - (?n - 1 - (?n - 1 - k div 8)) * 8 = k mod 8"
    proof -
      have "k div 8 < ?n" using k by (simp add: less_mult_imp_div_less)
      then show ?thesis by (simp add: minus_div_mult_eq_mod)
    qed
    ultimately show ?thesis
      using byte_of_position [OF k] by (metis)
  qed
  finally show ?thesis .
qed

lemma from_big_endian_defined:
  assumes "LENGTH('a) div 8 \<le> length data"
  shows "\<exists>v :: 'a::len word. from_big_endian_bytes data = Some v"
  using assms by (simp add: from_big_endian_bytes_def from_big_endian_loop_eq sizeof_def)

lemma from_to_big_endian:
  fixes v :: "'a::len word"
  assumes "LENGTH('a) = 8 * (LENGTH('a) div 8)"
  shows "from_big_endian_bytes (to_big_endian_bytes v) = Some v"
proof -
  let ?n = "LENGTH('a) div 8"
  obtain w :: "'a word" where w: "from_big_endian_bytes (to_big_endian_bytes v) = Some w"
    using from_big_endian_defined [of "to_big_endian_bytes v"] by auto
  have "bit w k = bit v k" if "k < LENGTH('a)" for k
  proof -
    have "k div 8 < ?n" using that assms by (simp add: less_mult_imp_div_less)
    then have "bit (to_big_endian_bytes v ! (?n - 1 - k div 8)) (k mod 8)
        \<longleftrightarrow> bit v (k div 8 * 8 + k mod 8)"
      by (subst to_big_endian_bytes_nth) auto
    then show ?thesis
      using bit_from_big_endian [OF _ assms w that] by simp
  qed
  then have "w = v" by (intro bit_word_eqI) auto
  with w show ?thesis by simp
qed

lemma to_from_big_endian:
  fixes v :: "'a::len word"
  assumes "LENGTH('a) = 8 * (LENGTH('a) div 8)" "length data = LENGTH('a) div 8"
    and "from_big_endian_bytes data = Some v"
  shows "to_big_endian_bytes v = data"
proof (rule nth_equalityI)
  let ?n = "LENGTH('a) div 8"
  fix i
  assume "i < length (to_big_endian_bytes v)"
  then have i: "i < ?n" by simp
  show "to_big_endian_bytes v ! i = data ! i"
  proof (rule bit_word_eqI)
    fix k assume "k < LENGTH(8)"
    then have k: "k < 8" by simp
    have "(?n - 1 - i) * 8 + k < LENGTH('a)" using i k assms(1) by linarith
    from bit_from_big_endian [OF assms(2,1,3) this]
    show "bit (to_big_endian_bytes v ! i) k = bit (data ! i) k"
      using i k by (simp add: to_big_endian_bytes_nth)
  qed
qed (use assms(2) in simp)

section \<open>Bytes\<close>

named_theorems endian_simps "values, bytes and registers in every byte order"

lemma length_4_cases:
  assumes "length bs = 4"
  obtains a b c d where "bs = [a, b, c, d]"
  using assms by (auto simp: numeral_eq_Suc length_Suc_conv)

lemma length_8_cases:
  assumes "length bs = 8"
  obtains a b c d e f g h where "bs = [a, b, c, d, e, f, g, h]"
  using assms by (auto simp: numeral_eq_Suc length_Suc_conv)

lemma length_reorder [simp]: "length (reorder order bs) = length bs"
  by (induction order bs rule: reorder.induct) auto

lemma reorder_reorder:
  assumes "length bs = 4 \<or> length bs = 8"
  shows "reorder order (reorder order bs) = bs"
  using assms by (cases order) (auto elim!: length_4_cases length_8_cases)

lemma fetch4_append: "length bs = 4 \<Longrightarrow> fetch4 (bs @ rest) = Some bs"
  by (auto elim!: length_4_cases simp: fetch4_def mem_simps)

lemma fetch8_append: "length bs = 8 \<Longrightarrow> fetch8 (bs @ rest) = Some bs"
  by (auto elim!: length_8_cases simp: fetch8_def mem_simps)

lemmas fetch4_exact = fetch4_append [where rest = "[]", simplified]
lemmas fetch8_exact = fetch8_append [where rest = "[]", simplified]

lemma length_encode [simp]:
  "length (encode_uint32 order v) = 4" "length (encode_int32 order i) = 4"
  "length (encode_float order x) = 4" "length (encode_double order d) = 8"
  "length (encode_uint16 r) = 2" "length (encode_int16 s) = 2"
  by (simp_all add: encode_uint32_def encode_int32_def encode_float_def encode_double_def
      encode_uint16_def encode_int16_def to_big_endian_bytes_float_def to_big_endian_bytes_double_def)

lemma bytes_roundtrip [endian_simps]:
  "decode_uint32 order (encode_uint32 order v @ rest) = Some v"
  "decode_int32 order (encode_int32 order i @ rest) = Some i"
  "decode_float order (encode_float order x @ rest) = Some x"
  "decode_double order (encode_double order d @ rest) = Some d"
  "decode_uint16 (encode_uint16 r @ rest) = Some r"
  "decode_int16 (encode_int16 s @ rest) = Some s"
  by (simp_all add: decode_uint32_def decode_int32_def decode_float_def decode_double_def
      decode_uint16_def decode_int16_def encode_uint32_def encode_int32_def encode_float_def
      encode_double_def encode_uint16_def encode_int16_def to_big_endian_bytes_float_def
      to_big_endian_bytes_double_def fetch4_append fetch8_append reorder_reorder
      from_to_big_endian mem_simps be_simps)

lemma decode_uint32_encode:
  assumes "length bs = 4"
  shows "\<exists>v. decode_uint32 order bs = Some v \<and> encode_uint32 order v = bs"
proof -
  obtain v :: u32 where v: "from_big_endian_bytes (reorder order bs) = Some v"
    using from_big_endian_defined [of "reorder order bs", where 'a = 32] assms by auto
  have "to_big_endian_bytes v = reorder order bs"
    by (rule to_from_big_endian [OF _ _ v]) (simp_all add: assms)
  then show ?thesis
    using v assms by (simp add: decode_uint32_def encode_uint32_def fetch4_exact reorder_reorder)
qed

lemma decode_double_encode:
  assumes "length bs = 8"
  shows "\<exists>v. decode_double order bs = Some v \<and> encode_double order v = bs"
proof -
  obtain v :: u64 where v: "from_big_endian_bytes (reorder order bs) = Some v"
    using from_big_endian_defined [of "reorder order bs", where 'a = 64] assms by auto
  have "to_big_endian_bytes v = reorder order bs"
    by (rule to_from_big_endian [OF _ _ v]) (simp_all add: assms)
  then show ?thesis
    using v assms
    by (simp add: decode_double_def encode_double_def to_big_endian_bytes_double_def fetch8_exact
        reorder_reorder)
qed

lemma to_big_endian_bytes32: "to_big_endian_bytes v = bytes32 v"
  by (simp add: to_big_endian_bytes_def bytes32_def sizeof_def upt_rec)

text \<open>A \<open>float\<close> travels as the \<open>uint32_t\<close> with its bits.\<close>

lemma encode_float_uint32: "encode_float order x = encode_uint32 order (float_bits x)"
  by (simp add: encode_float_def encode_uint32_def to_big_endian_bytes_float_def)

lemma decode_float_uint32: "decode_float order mem = map_option Float32 (decode_uint32 order mem)"
  by (cases "fetch4 mem")
     (auto simp: decode_float_def decode_uint32_def map_conv_bind_option comp_def)

section \<open>Registers\<close>

lemma regs_to_bytes_to_regs: "even (length bs) \<Longrightarrow> regs_to_bytes (bytes_to_regs bs) = bs"
  by (induction bs rule: bytes_to_regs.induct) (auto simp: be_simps)

lemma decode_uint16_regs:
  "length bs = 4 \<Longrightarrow> bytes_to_regs bs = map the [decode_uint16 bs, decode_uint16 (drop 2 bs)]
     \<and> decode_uint16 bs \<noteq> None \<and> decode_uint16 (drop 2 bs) \<noteq> None"
  by (auto elim!: length_4_cases simp: decode_uint16_def mem_simps)

lemma encode_regs_bytes [endian_simps]:
  "encode_uint32_regs order v = Some (bytes_to_regs (encode_uint32 order v))"
  "encode_float_regs order x = Some (bytes_to_regs (encode_float order x))"
  "encode_double_regs order d = Some (bytes_to_regs (encode_double order d))"
proof -
  show "encode_uint32_regs order v = Some (bytes_to_regs (encode_uint32 order v))"
    by (rule length_4_cases [of "encode_uint32 order v"])
       (simp_all add: encode_uint32_regs_def decode_uint16_def Let_def mem_simps)
  show "encode_float_regs order x = Some (bytes_to_regs (encode_float order x))"
    by (rule length_4_cases [of "encode_float order x"])
       (simp_all add: encode_float_regs_def decode_uint16_def Let_def mem_simps)
  show "encode_double_regs order d = Some (bytes_to_regs (encode_double order d))"
    by (rule length_8_cases [of "encode_double order d"])
       (simp_all add: encode_double_regs_def decode_uint16_def Let_def mem_simps)
qed

lemma decode_regs_bytes [endian_simps]:
  "decode_uint32_regs order (r0 # r1 # rs) = decode_uint32 order (regs_to_bytes [r0, r1])"
  "decode_float_regs order (r0 # r1 # rs) = decode_float order (regs_to_bytes [r0, r1])"
  "decode_double_regs order (r0 # r1 # r2 # r3 # rs) =
     decode_double order (regs_to_bytes [r0, r1, r2, r3])"
  by (simp_all add: decode_uint32_regs_def decode_float_regs_def decode_double_regs_def
      encode_uint16_def mem_simps eval_nat_numeral)

lemma take_append_exact: "length xs = n \<Longrightarrow> take n (xs @ ys) = xs"
  by simp

lemma regs_2_cases:
  assumes "length rs = 2"
  obtains r0 r1 where "rs = [r0, r1]"
  using assms by (auto simp: numeral_eq_Suc length_Suc_conv)

lemma decode_regs_append:
  "length rs = 2 \<Longrightarrow> decode_uint32_regs order (rs @ rest) = decode_uint32 order (regs_to_bytes rs)"
  "length rs = 2 \<Longrightarrow> decode_float_regs order (rs @ rest) = decode_float order (regs_to_bytes rs)"
  "length rs = 4 \<Longrightarrow> decode_double_regs order (rs @ rest) = decode_double order (regs_to_bytes rs)"
  by (auto elim!: regs_2_cases length_4_cases simp: endian_simps)

lemma regs_roundtrip:
  "encode_uint32_regs order v = Some rs \<Longrightarrow> decode_uint32_regs order (rs @ rest) = Some v"
  "encode_float_regs order x = Some rs \<Longrightarrow> decode_float_regs order (rs @ rest) = Some x"
  "encode_double_regs order d = Some rs \<Longrightarrow> decode_double_regs order (rs @ rest) = Some d"
  using bytes_roundtrip [where rest = "[]"]
  by (auto simp: encode_regs_bytes decode_regs_append regs_to_bytes_to_regs)

lemma regs_surjective:
  "length rs = 2 \<Longrightarrow> \<exists>v. decode_uint32_regs order rs = Some v \<and> encode_uint32_regs order v = Some rs"
  "length rs = 4 \<Longrightarrow> \<exists>d. decode_double_regs order rs = Some d \<and> encode_double_regs order d = Some rs"
  using decode_uint32_encode [of "regs_to_bytes rs" order] decode_double_encode [of "regs_to_bytes rs" order]
    decode_regs_append [of rs order "[]"]
  by (auto simp: encode_regs_bytes bytes_to_regs_to_bytes)

section \<open>What the orders mean\<close>

text \<open>
  Seen as registers, the four orders are the combinations of two independent switches: the
  byte-swapped orders exchange the two bytes of every register, the word-swapped orders
  reverse the sequence of registers.
\<close>

definition swap16 :: "register \<Rightarrow> register" where
  "swap16 r = be16 (lo8 r) (hi8 r)"

fun order_registers :: "ByteOrder \<Rightarrow> register list \<Rightarrow> register list" where
  "order_registers ABCD rs = rs"
| "order_registers CDAB rs = rev rs"
| "order_registers BADC rs = map swap16 rs"
| "order_registers DCBA rs = rev (map swap16 rs)"

lemma reorder_registers:
  assumes "length bs = 4 \<or> length bs = 8"
  shows "bytes_to_regs (reorder order bs) = order_registers order (bytes_to_regs bs)"
  using assms by (cases order) (auto elim!: length_4_cases length_8_cases simp: swap16_def be_simps)

text \<open>The reference: the most significant 16 bits of the value first.\<close>

definition words32 :: "u32 \<Rightarrow> register list" where
  "words32 v = [ucast (drop_bit 16 v), ucast v]"

definition words64 :: "u64 \<Rightarrow> register list" where
  "words64 v = [ucast (drop_bit 48 v), ucast (drop_bit 32 v), ucast (drop_bit 16 v), ucast v]"

lemma be16_of_word:
  fixes v :: "'a::len word"
  assumes "n + 8 \<le> LENGTH('a)"
  shows "be16 (ucast (drop_bit (n + 8) v AND 0xFF)) (ucast (drop_bit n v AND 0xFF))
    = ucast (drop_bit n v)"
proof (rule bit_word_eqI)
  fix k assume "k < LENGTH(16)"
  then show "bit (be16 (ucast (drop_bit (n + 8) v AND 0xFF)) (ucast (drop_bit n v AND 0xFF))) k
      = bit (ucast (drop_bit n v) :: u16) k"
    using assms
    by (cases "k < 8") (auto simp: be16_def mask8_word bit_simps add.commute add.left_commute
        dest: bit_imp_le_length)
qed

lemma words32_bytes: "bytes_to_regs (to_big_endian_bytes v) = words32 v"
  using be16_of_word [of 0 v] be16_of_word [of 16 v]
  by (simp add: to_big_endian_bytes_def sizeof_def upt_rec words32_def)

lemma words64_bytes: "bytes_to_regs (to_big_endian_bytes v) = words64 v"
  using be16_of_word [of 0 v] be16_of_word [of 16 v] be16_of_word [of 32 v] be16_of_word [of 48 v]
  by (simp add: to_big_endian_bytes_def sizeof_def upt_rec words64_def)

lemma words32_pi: "words32 0x4048F5C3 = [0x4048, 0xF5C3]"
  by code_simp

lemma swap16_pi: "swap16 0x4048 = 0x4840" "swap16 0xF5C3 = 0xC3F5"
  by code_simp+

section \<open>Properties\<close>

text \<open>
  Property C34. What the registers of an encoded value are: the big-endian 16-bit words of its
  bit pattern, bytes exchanged and words reversed as the byte order says. For \<open>float\<close> and
  \<open>uint32_t\<close> there are two of them, for \<open>double\<close> four. The float 3.14, whose bits are 0x4048F5C3, is
  4048 F5C3, C3F5 4840, 4840 C3F5 and F5C3 4048 in the orders ABCD, DCBA, BADC and CDAB.
\<close>

theorem endian_registers:
  "encode_uint32_regs order v = Some (order_registers order (words32 v))
   \<and> encode_float_regs order x = Some (order_registers order (words32 (float_bits x)))
   \<and> encode_double_regs order d = Some (order_registers order (words64 (double_bits d)))
   \<and> map (\<lambda>order. encode_float_regs order (Float32 0x4048F5C3)) [ABCD, DCBA, BADC, CDAB] =
      [Some [0x4048, 0xF5C3], Some [0xC3F5, 0x4840], Some [0x4840, 0xC3F5], Some [0xF5C3, 0x4048]]"
  by (simp add: encode_regs_bytes encode_float_uint32 encode_uint32_def encode_double_def
      to_big_endian_bytes_double_def reorder_registers words32_bytes words64_bytes words32_pi swap16_pi)

text \<open>
  In every byte order decoding inverts encoding, whatever registers follow, and
  encoding inverts decoding: registers and values of the same size correspond one to one.
\<close>

theorem endian_bijection:
  "(case encode_uint32_regs order v of None \<Rightarrow> False
    | Some rs \<Rightarrow> length rs = 2 \<and> decode_uint32_regs order (rs @ rest) = Some v)
   \<and> (case encode_float_regs order x of None \<Rightarrow> False
    | Some rs \<Rightarrow> length rs = 2 \<and> decode_float_regs order (rs @ rest) = Some x)
   \<and> (case encode_double_regs order d of None \<Rightarrow> False
    | Some rs \<Rightarrow> length rs = 4 \<and> decode_double_regs order (rs @ rest) = Some d)
   \<and> (case decode_uint32_regs order [r0, r1] of None \<Rightarrow> False
    | Some v' \<Rightarrow> encode_uint32_regs order v' = Some [r0, r1])
   \<and> (case decode_double_regs order [r0, r1, r2, r3] of None \<Rightarrow> False
    | Some d' \<Rightarrow> encode_double_regs order d' = Some [r0, r1, r2, r3])"
  using regs_surjective(1) [of "[r0, r1]" order] regs_surjective(2) [of "[r0, r1, r2, r3]" order]
    regs_roundtrip [where order = order and rest = rest]
  by (auto simp: encode_regs_bytes)

end
