(* ===== verification/Type_Codec.thy ===== *)
theory Type_Codec
  imports Endian
begin

text \<open>
  Component \<open>register_map/type_codec.hpp\<close>: the class \<open>TypeCodec\<close>. Its numeric members are those
  of \<open>Endian\<close> under other names; the string codec packs two characters in a register.

  A string is the list of its bytes. Whether \<open>char\<close> is signed is implementation-defined, and
  \<open>static_cast<std::uint16_t>(str[i])\<close> sign-extends where it is: \<open>encode_string\<close> takes it as its
  first argument.
\<close>

section \<open>Numbers\<close>

definition TypeCodec_encode_float :: "ByteOrder \<Rightarrow> float32 \<Rightarrow> register list option" where
  "TypeCodec_encode_float order value = encode_float_regs order value"

definition TypeCodec_decode_float :: "ByteOrder \<Rightarrow> register list \<Rightarrow> float32 option" where
  "TypeCodec_decode_float order regs = decode_float_regs order regs"

definition TypeCodec_encode_double :: "ByteOrder \<Rightarrow> float64 \<Rightarrow> register list option" where
  "TypeCodec_encode_double order value = encode_double_regs order value"

definition TypeCodec_decode_double :: "ByteOrder \<Rightarrow> register list \<Rightarrow> float64 option" where
  "TypeCodec_decode_double order regs = decode_double_regs order regs"

definition TypeCodec_encode_uint32 :: "ByteOrder \<Rightarrow> u32 \<Rightarrow> register list option" where
  "TypeCodec_encode_uint32 order value = encode_uint32_regs order value"

definition TypeCodec_decode_uint32 :: "ByteOrder \<Rightarrow> register list \<Rightarrow> u32 option" where
  "TypeCodec_decode_uint32 order regs = decode_uint32_regs order regs"

definition TypeCodec_encode_int32 :: "ByteOrder \<Rightarrow> int32 \<Rightarrow> register list option" where
  "TypeCodec_encode_int32 order value = encode_uint32_regs order (int32_bits value)"

definition TypeCodec_decode_int32 :: "ByteOrder \<Rightarrow> register list \<Rightarrow> int32 option" where
  "TypeCodec_decode_int32 order regs = do {
     uval \<leftarrow> decode_uint32_regs order regs;
     Some (Int32 uval)
   }"

section \<open>Strings\<close>

definition char_to_u16 :: "bool \<Rightarrow> byte \<Rightarrow> u16" where
  "char_to_u16 char_signed c = (if char_signed then scast c else ucast c)"

fun encode_string_loop :: "bool \<Rightarrow> nat \<Rightarrow> nat \<Rightarrow> byte list \<Rightarrow> register list \<Rightarrow> register list" where
  "encode_string_loop char_signed max_registers i [] regs = regs"
| "encode_string_loop char_signed max_registers i (c # str) regs =
     (if i div 2 < max_registers then
        (let reg_idx = i div 2; ch = char_to_u16 char_signed c in
         encode_string_loop char_signed max_registers (i + 1) str
           (if i mod 2 = 0 then regs[reg_idx := push_bit 8 ch]
            else regs[reg_idx := regs ! reg_idx OR ch]))
      else regs)"

definition encode_string :: "bool \<Rightarrow> byte list \<Rightarrow> quantity \<Rightarrow> register list" where
  "encode_string char_signed str max_registers =
     encode_string_loop char_signed (unat max_registers) 0 str (replicate (unat max_registers) 0)"

fun decode_string_loop :: "register list \<Rightarrow> nat list \<Rightarrow> byte list \<Rightarrow> byte list option" where
  "decode_string_loop regs [] result = Some result"
| "decode_string_loop regs (i # is) result = do {
     r \<leftarrow> fetch regs i;
     let hi = ucast (drop_bit 8 r AND 0xFF); lo = lo8 r in
     if hi = 0 then Some result
     else if lo = 0 then Some (result @ [hi])
     else decode_string_loop regs is (result @ [hi, lo])
   }"

definition decode_string :: "register list \<Rightarrow> quantity \<Rightarrow> byte list option" where
  "decode_string regs count = decode_string_loop regs [0..<unat count] []"

section \<open>What the string loops compute\<close>

fun pack_chars :: "bool \<Rightarrow> byte list \<Rightarrow> register list" where
  "pack_chars sg [] = []"
| "pack_chars sg [a] = [push_bit 8 (char_to_u16 sg a)]"
| "pack_chars sg (a # b # s) = (push_bit 8 (char_to_u16 sg a) OR char_to_u16 sg b) # pack_chars sg s"

definition fit_registers :: "nat \<Rightarrow> register list \<Rightarrow> register list" where
  "fit_registers n rs = take n rs @ replicate (n - length rs) 0"

lemma length_fit_registers [simp]: "length (fit_registers n rs) = n"
  by (simp add: fit_registers_def)

lemma fit_registers_simps [simp]:
  "fit_registers 0 rs = []" "fit_registers n [] = replicate n 0"
  "fit_registers (Suc n) (r # rs) = r # fit_registers n rs"
  by (simp_all add: fit_registers_def)

lemma encode_string_loop_eq:
  assumes "length pre = k"
  shows "encode_string_loop sg (k + n) (2 * k) s (pre @ replicate n 0)
    = pre @ fit_registers n (pack_chars sg s)"
  using assms
proof (induction sg s arbitrary: k n pre rule: pack_chars.induct)
  case (1 sg)
  then show ?case by simp
next
  case (2 sg a)
  then show ?case by (cases n) (simp_all add: Let_def list_update_append)
next
  case (3 sg a b s)
  show ?case
  proof (cases n)
    case 0
    then show ?thesis by simp
  next
    case (Suc m)
    let ?r = "push_bit 8 (char_to_u16 sg a) OR char_to_u16 sg b"
    from 3(1) [of "pre @ [?r]" "Suc k" m] 3(2)
    show ?thesis by (simp add: Suc Let_def list_update_append nth_append)
  qed
qed

lemma encode_string_eq:
  "encode_string sg s n = fit_registers (unat n) (pack_chars sg s)"
  using encode_string_loop_eq [of "[]" 0 sg "unat n" s] by (simp add: encode_string_def)

lemma length_encode_string [simp]: "length (encode_string sg s n) = unat n"
  by (simp add: encode_string_eq)

lemma hi_byte: "(ucast (drop_bit 8 r AND 0xFF) :: byte) = hi8 r"
  by (rule bit_word_eqI) (auto simp: hi8_def mask8_16 bit_simps)

lemma decode_string_loop_eq:
  assumes "k \<le> n" "n \<le> length regs"
  shows "decode_string_loop regs [k..<n] acc
    = Some (acc @ takeWhile (\<lambda>c. c \<noteq> 0) (regs_to_bytes (take (n - k) (drop k regs))))"
  using assms
proof (induction "n - k" arbitrary: k acc)
  case 0
  then show ?case by simp
next
  case (Suc m)
  then have k: "k < n" "k < length regs" "n - k = Suc m" "n - Suc k = m" by linarith+
  then have "drop k regs = regs ! k # drop (Suc k) regs"
    by (simp add: Cons_nth_drop_Suc)
  with k Suc.prems Suc.hyps(1) [of "Suc k"] show ?case
    by (simp add: upt_conv_Cons fetch_lt hi_byte Let_def)
qed

lemma decode_string_eq:
  "unat n \<le> length regs \<Longrightarrow>
   decode_string regs n = Some (takeWhile (\<lambda>c. c \<noteq> 0) (regs_to_bytes (take (unat n) regs)))"
  using decode_string_loop_eq [of 0 "unat n" regs "[]"] by (simp add: decode_string_def)

lemma byte_less_0x80: "b < (0x80 :: byte) \<longleftrightarrow> \<not> bit b 7"
proof -
  have "bit b 7 \<longleftrightarrow> bit (unat b) 7"
    by (simp add: bit_unsigned_iff)
  then have "bit b 7 \<longleftrightarrow> odd (unat b div 128)"
    unfolding bit_iff_odd [of "unat b"] by simp
  moreover have "unat b < 256"
    by (rule order.strict_trans2 [OF unsigned_less]) simp
  moreover have "b < 0x80 \<longleftrightarrow> unat b < 128"
    by (simp add: word_less_nat_alt)
  moreover have "unat b div 128 = (if unat b < 128 then 0 else 1)" if "unat b < 256"
    using that by (simp add: div_nat_eqI)
  ultimately show ?thesis by simp
qed

lemma bit_scast_byte: "k < 16 \<Longrightarrow> bit (scast (b :: byte) :: u16) k = bit b (if k < 8 then k else 7)"
  by (cases "k = 7") (auto simp: bit_simps min_def)

lemma bit_0xFF: "bit (0xFF :: 'a::len word) k \<longleftrightarrow> k < 8 \<and> k < LENGTH('a)"
  by (auto simp: mask8_word bit_mask_iff)

lemma pack_high: "push_bit 8 (char_to_u16 sg a) = be16 a 0"
proof (rule bit_word_eqI)
  fix n assume "n < LENGTH(16)"
  then show "bit (push_bit 8 (char_to_u16 sg a)) n = bit (be16 a 0) n"
    by (cases "n < 8")
       (auto simp: char_to_u16_def be16_def bit_push_bit_iff bit_or_iff bit_scast_byte bit_ucast_iff)
qed

lemma pack_pair:
  "push_bit 8 (char_to_u16 sg a) OR char_to_u16 sg b
    = be16 (if sg \<and> \<not> b < 0x80 then 0xFF else a) b"
proof (rule bit_word_eqI)
  fix n assume "n < LENGTH(16)"
  then have n: "n < 16" by simp
  define h where "h = (if sg \<and> \<not> b < 0x80 then 0xFF else a)"
  have h: "bit h k \<longleftrightarrow> (if sg \<and> bit b 7 then k < 8 else bit a k)" for k
    unfolding h_def byte_less_0x80 not_not if_distrib [of "\<lambda>x. bit x k"] bit_0xFF by simp
  show "bit (push_bit 8 (char_to_u16 sg a) OR char_to_u16 sg b) n
      = bit (be16 (if sg \<and> \<not> b < 0x80 then 0xFF else a) b) n"
    unfolding h_def [symmetric]
    using n bit_imp_le_length [of b n]
    by (cases "n < 8") (auto simp: char_to_u16_def be16_def bit_push_bit_iff bit_or_iff
        bit_ucast_iff bit_scast_byte h)
qed

text \<open>
  What survives a trip through registers: where \<open>char\<close> is signed, a character of 128 or more
  in the low byte of a register smears ones over the character before it.
\<close>

fun smear :: "bool \<Rightarrow> byte list \<Rightarrow> byte list" where
  "smear sg (a # b # s) = (if sg \<and> \<not> b < 0x80 then 0xFF else a) # b # smear sg s"
| "smear sg s = s"

lemma length_smear [simp]: "length (smear sg s) = length s"
  by (induction sg s rule: smear.induct) auto

lemma smear_id: "\<forall>c\<in>set s. sg \<longrightarrow> c < 0x80 \<Longrightarrow> smear sg s = s"
  by (induction sg s rule: smear.induct) auto

lemma hi_lo_0 [simp]: "hi8 0 = 0" "lo8 0 = 0"
  by (simp_all add: hi8_def lo8_def)

lemma regs_to_bytes_replicate_0: "regs_to_bytes (replicate n 0) = replicate (2 * n) 0"
  by (induction n) auto

lemma takeWhile_padded: "takeWhile (\<lambda>c. c \<noteq> 0) (xs @ replicate k 0) = takeWhile (\<lambda>c. c \<noteq> (0 :: byte)) xs"
  by (induction xs) (cases k; simp)+

lemma takeWhile_fit_registers:
  "takeWhile (\<lambda>c. c \<noteq> 0) (regs_to_bytes (fit_registers n (pack_chars sg s)))
    = takeWhile (\<lambda>c. c \<noteq> 0) (take (2 * n) (smear sg s))"
proof (induction sg s arbitrary: n rule: pack_chars.induct)
  case (1 sg)
  then show ?case
    using takeWhile_padded [of "[]" "2 * n"] by (simp add: regs_to_bytes_replicate_0)
next
  case (2 sg a)
  then show ?case
    by (cases n) (simp_all add: pack_high be_simps)
next
  case (3 sg a b s)
  show ?case
    by (cases n) (use 3 in \<open>simp_all add: pack_pair be_simps\<close>)
qed

lemma string_through_registers:
  "decode_string (encode_string sg s n @ rest) n
    = Some (takeWhile (\<lambda>c. c \<noteq> 0) (take (2 * unat n) (smear sg s)))"
  by (simp add: decode_string_eq encode_string_eq takeWhile_fit_registers)

lemma string_roundtrip:
  assumes "0 \<notin> set s" "length s \<le> 2 * unat n" "\<forall>c\<in>set s. sg \<longrightarrow> c < 0x80"
  shows "decode_string (encode_string sg s n @ rest) n = Some s"
proof -
  have "takeWhile (\<lambda>c. c \<noteq> 0) s = s" using assms(1) by (auto simp: takeWhile_eq_all_conv)
  with assms show ?thesis by (simp add: string_through_registers smear_id)
qed

section \<open>Properties\<close>

text \<open>
  Property C37. What a string is after \<open>encode_string\<close> and \<open>decode_string\<close>, for every string and
  every number of registers: cut to two characters a register, cut at the first NUL, and
  with ones smeared over a character followed in its register by one of 128 or more when
  \<open>char\<close> is signed. Plain strings that fit come back unchanged.
\<close>

theorem string_codec_exact:
  "decode_string (encode_string sg s n @ rest) n
     = Some (takeWhile (\<lambda>c. c \<noteq> 0) (take (2 * unat n) (smear sg s)))
   \<and> (0 \<notin> set s \<and> length s \<le> 2 * unat n \<and> (\<forall>c\<in>set s. c < 0x80) \<longrightarrow>
        decode_string (encode_string sg s n @ rest) n = Some s)"
  using string_through_registers [of sg s n rest] string_roundtrip [of s n sg rest] by blast

theorem string_codec_exact_witness:
  "decode_string (encode_string True [0x41, 0x42, 0x43] 2 @ []) 2 = Some [0x41, 0x42, 0x43]"
proof -
  have "(0 :: byte) \<notin> set [0x41, 0x42, 0x43] \<and> length [0x41, 0x42, 0x43 :: byte] \<le> 2 * unat (2 :: u16)
      \<and> (\<forall>c\<in>set [0x41, 0x42, 0x43 :: byte]. c < 0x80)"
    by simp
  with string_codec_exact show ?thesis by blast
qed

text \<open>
  With signed characters the Latin-1 text "e" followed by a letter above 127 does
  not come back: the letter before the non-ASCII one is replaced by 0xFF.
\<close>

theorem string_codec_corrupts_non_ascii:
  assumes "a \<noteq> 0" and "0x80 \<le> b"
  shows "decode_string (encode_string True [a, b] 1) 1 = Some [0xFF, b]
    \<and> decode_string (encode_string False [a, b] 1) 1 = Some [a, b]"
proof -
  have "b \<noteq> 0" "\<not> b < 0x80" using assms(2) by auto
  then show ?thesis
    using assms string_through_registers [of True "[a, b]" 1 "[]"]
      string_through_registers [of False "[a, b]" 1 "[]"] by simp
qed

theorem string_codec_corrupts_non_ascii_witness:
  "decode_string (encode_string True [0x65, 0xE9] 1) 1 = Some [0xFF, 0xE9]"
  by (rule conjunct1 [OF string_codec_corrupts_non_ascii]) simp_all

end
