(* ===== verification/Register_Map.thy ===== *)
theory Register_Map
  imports Type_Codec
begin

text \<open>
  Components \<open>register_map/register_descriptor.hpp\<close> and \<open>register_map/register_map.hpp\<close>.

  A descriptor is a type in the code; here it is the record of its template arguments, a
  register map is the list of its descriptors, and what the compiler evaluates or rejects
  (\<open>static_assert\<close>) is a function of that list. A value of a descriptor's \<open>value_type\<close> is a
  constructor of \<open>reg_value\<close>. The flat register buffer is a list, written at an offset; a write
  or a read outside it is undefined (\<open>None\<close>).
\<close>

section \<open>Descriptors\<close>

datatype RegisterType = RT_UInt16 | RT_Int16 | RT_UInt32 | RT_Int32 | RT_Float32 | RT_Float64 | RT_String

fun RegisterType_value :: "RegisterType \<Rightarrow> byte" where
  "RegisterType_value RT_UInt16 = 0"
| "RegisterType_value RT_Int16 = 1"
| "RegisterType_value RT_UInt32 = 2"
| "RegisterType_value RT_Int32 = 3"
| "RegisterType_value RT_Float32 = 4"
| "RegisterType_value RT_Float64 = 5"
| "RegisterType_value RT_String = 6"

datatype reg_value =
    VUInt16 u16 | VInt16 int16 | VUInt32 u32 | VInt32 int32 | VFloat32 float32 | VFloat64 float64
  | VString "byte list"

fun has_value_type :: "RegisterType \<Rightarrow> reg_value \<Rightarrow> bool" where
  "has_value_type RT_UInt16 (VUInt16 x) = True"
| "has_value_type RT_Int16 (VInt16 x) = True"
| "has_value_type RT_UInt32 (VUInt32 x) = True"
| "has_value_type RT_Int32 (VInt32 x) = True"
| "has_value_type RT_Float32 (VFloat32 x) = True"
| "has_value_type RT_Float64 (VFloat64 x) = True"
| "has_value_type RT_String (VString x) = True"
| "has_value_type _ _ = False"

fun default_register_count :: "RegisterType \<Rightarrow> quantity" where
  "default_register_count RT_UInt16 = 1"
| "default_register_count RT_Int16 = 1"
| "default_register_count RT_UInt32 = 2"
| "default_register_count RT_Int32 = 2"
| "default_register_count RT_Float32 = 2"
| "default_register_count RT_Float64 = 4"
| "default_register_count RT_String = 0"

record RegisterDescriptor =
  rd_type :: RegisterType
  rd_address :: address
  rd_count :: quantity
  rd_order :: ByteOrder

definition descriptor_compiles :: "RegisterDescriptor \<Rightarrow> bool" where
  "descriptor_compiles d \<longleftrightarrow>
     (rd_type d \<noteq> RT_String \<or> rd_count d > 0) \<and> rd_count d > 0"

definition end_address :: "RegisterDescriptor \<Rightarrow> address" where
  "end_address d = rd_address d + rd_count d"

definition descriptors_overlap :: "RegisterDescriptor \<Rightarrow> RegisterDescriptor \<Rightarrow> bool" where
  "descriptors_overlap A B \<longleftrightarrow> rd_address A < end_address B \<and> rd_address B < end_address A"

function no_overlaps :: "RegisterDescriptor list \<Rightarrow> bool" where
  "no_overlaps [] = True"
| "no_overlaps [A] = True"
| "no_overlaps (A # B # Rest) =
     (\<not> descriptors_overlap A B \<and> no_overlaps (A # Rest) \<and> no_overlaps (B # Rest))"
  by pat_completeness auto
termination by (relation "measure length") auto

section \<open>Encoding and decoding one descriptor\<close>

definition decode_register :: "RegisterDescriptor \<Rightarrow> register list \<Rightarrow> reg_value option" where
  "decode_register d regs = (case rd_type d of
     RT_UInt16 \<Rightarrow> do { r \<leftarrow> fetch regs 0; Some (VUInt16 r) }
   | RT_Int16 \<Rightarrow> do { r \<leftarrow> fetch regs 0; Some (VInt16 (Int16 r)) }
   | RT_UInt32 \<Rightarrow> do { v \<leftarrow> TypeCodec_decode_uint32 (rd_order d) regs; Some (VUInt32 v) }
   | RT_Int32 \<Rightarrow> do { v \<leftarrow> TypeCodec_decode_int32 (rd_order d) regs; Some (VInt32 v) }
   | RT_Float32 \<Rightarrow> do { v \<leftarrow> TypeCodec_decode_float (rd_order d) regs; Some (VFloat32 v) }
   | RT_Float64 \<Rightarrow> do { v \<leftarrow> TypeCodec_decode_double (rd_order d) regs; Some (VFloat64 v) }
   | RT_String \<Rightarrow> do { s \<leftarrow> decode_string regs (rd_count d); Some (VString s) })"

fun store_all :: "'a list \<Rightarrow> nat \<Rightarrow> 'a list \<Rightarrow> 'a list option" where
  "store_all mem i [] = Some mem"
| "store_all mem i (x # xs) = (if i < length mem then store_all (mem[i := x]) (i + 1) xs else None)"

text \<open>The pointer \<open>regs\<close> that \<open>encode_register\<close> is given points to element \<open>base\<close> of the buffer.\<close>

definition encode_register ::
  "bool \<Rightarrow> RegisterDescriptor \<Rightarrow> reg_value \<Rightarrow> register list \<Rightarrow> nat \<Rightarrow> register list option" where
  "encode_register char_signed d v regs base = (case (rd_type d, v) of
     (RT_UInt16, VUInt16 x) \<Rightarrow> store_all regs base [x]
   | (RT_Int16, VInt16 x) \<Rightarrow> store_all regs base [int16_bits x]
   | (RT_UInt32, VUInt32 x) \<Rightarrow> do { arr \<leftarrow> TypeCodec_encode_uint32 (rd_order d) x; store_all regs base arr }
   | (RT_Int32, VInt32 x) \<Rightarrow> do { arr \<leftarrow> TypeCodec_encode_int32 (rd_order d) x; store_all regs base arr }
   | (RT_Float32, VFloat32 x) \<Rightarrow> do { arr \<leftarrow> TypeCodec_encode_float (rd_order d) x; store_all regs base arr }
   | (RT_Float64, VFloat64 x) \<Rightarrow> do { arr \<leftarrow> TypeCodec_encode_double (rd_order d) x; store_all regs base arr }
   | (RT_String, VString s) \<Rightarrow> store_all regs base (encode_string char_signed s (rd_count d))
   | _ \<Rightarrow> None)"

section \<open>Register maps\<close>

definition total_register_count :: "RegisterDescriptor list \<Rightarrow> quantity" where
  "total_register_count ds = of_nat (sum_list (map (\<lambda>d. unat (rd_count d)) ds))"

fun register_offset :: "nat \<Rightarrow> RegisterDescriptor list \<Rightarrow> quantity" where
  "register_offset 0 ds = 0"
| "register_offset (Suc i) ds = register_offset i ds + rd_count (ds ! i)"

definition map_compiles :: "RegisterDescriptor list \<Rightarrow> bool" where
  "map_compiles ds \<longleftrightarrow> ds \<noteq> [] \<and> (\<forall>d\<in>set ds. descriptor_compiles d) \<and> no_overlaps ds"

definition RegisterMap_decode :: "RegisterDescriptor list \<Rightarrow> nat \<Rightarrow> register list \<Rightarrow> reg_value option" where
  "RegisterMap_decode ds i regs =
     decode_register (ds ! i) (drop (unat (register_offset i ds)) regs)"

definition RegisterMap_encode ::
  "bool \<Rightarrow> RegisterDescriptor list \<Rightarrow> nat \<Rightarrow> reg_value \<Rightarrow> register list \<Rightarrow> register list option" where
  "RegisterMap_encode char_signed ds i v regs =
     encode_register char_signed (ds ! i) v regs (unat (register_offset i ds))"

record DescriptorInfo =
  di_address :: address
  di_count :: quantity
  di_type :: RegisterType
  di_order :: ByteOrder

definition descriptor_info :: "RegisterDescriptor list \<Rightarrow> DescriptorInfo list" where
  "descriptor_info ds = map (\<lambda>d. \<lparr>di_address = rd_address d, di_count = rd_count d,
     di_type = rd_type d, di_order = rd_order d\<rparr>) ds"

section \<open>Overlap detection\<close>

definition addresses_of :: "RegisterDescriptor \<Rightarrow> nat set" where
  "addresses_of d = {unat (rd_address d)..<unat (rd_address d) + unat (rd_count d)}"

lemma no_overlaps_pairs: "no_overlaps ds \<longleftrightarrow> sorted_wrt (\<lambda>A B. \<not> descriptors_overlap A B) ds"
  by (induction ds rule: no_overlaps.induct) auto

lemma unat_end_address:
  assumes "unat (rd_address d) + unat (rd_count d) < 65536"
  shows "unat (end_address d) = unat (rd_address d) + unat (rd_count d)"
  using assms unfolding end_address_def by (subst unat_add_lem [THEN iffD1]) simp_all

lemma descriptors_overlap_iff:
  assumes "unat (rd_address A) + unat (rd_count A) < 65536" "rd_count A > 0"
    and "unat (rd_address B) + unat (rd_count B) < 65536" "rd_count B > 0"
  shows "descriptors_overlap A B \<longleftrightarrow> addresses_of A \<inter> addresses_of B \<noteq> {}"
proof -
  have "0 < unat (rd_count A)" "0 < unat (rd_count B)"
    using assms(2,4) by (simp_all add: word_less_nat_alt)
  moreover have "{a..<a + n} \<inter> {b..<b + m} \<noteq> {} \<longleftrightarrow> a < b + m \<and> b < a + n"
    if "0 < n" "0 < m" for a n b m :: nat
  proof -
    have "a < b + m \<Longrightarrow> b < a + n \<Longrightarrow> max a b \<in> {a..<a + n} \<inter> {b..<b + m}"
      using that by auto
    then show ?thesis by auto
  qed
  ultimately show ?thesis
    using unat_end_address [OF assms(1)] unat_end_address [OF assms(3)]
    by (simp add: descriptors_overlap_def word_less_nat_alt addresses_of_def)
qed

lemma no_overlaps_disjoint:
  assumes "\<forall>d\<in>set ds. unat (rd_address d) + unat (rd_count d) < 65536 \<and> rd_count d > 0"
  shows "no_overlaps ds \<longleftrightarrow> sorted_wrt (\<lambda>A B. addresses_of A \<inter> addresses_of B = {}) ds"
  using assms unfolding no_overlaps_pairs
  by (induction ds) (auto simp: descriptors_overlap_iff)

text \<open>
  The end address of a descriptor that reaches the top of the address space is 0, and then
  nothing overlaps it.
\<close>

lemma top_descriptor_never_overlaps:
  assumes "unat (rd_address A) + unat (rd_count A) = 65536"
  shows "\<not> descriptors_overlap A B" "\<not> descriptors_overlap B A"
proof -
  have "end_address A = of_nat (unat (rd_address A) + unat (rd_count A))"
    by (simp add: end_address_def)
  then have "end_address A = 0" using assms by simp
  then show "\<not> descriptors_overlap A B" "\<not> descriptors_overlap B A"
    by (simp_all add: descriptors_overlap_def)
qed

section \<open>Encoding and decoding at an offset\<close>

lemma store_all_eq:
  "base + length vs \<le> length mem \<Longrightarrow>
   store_all mem base vs = Some (take base mem @ vs @ drop (base + length vs) mem)"
proof (induction vs arbitrary: mem base)
  case Nil
  then show ?case by simp
next
  case (Cons v vs)
  then have "base < length mem" by simp
  with Cons show ?case
    by (simp add: upd_conv_take_nth_drop min_def add.commute)
qed

text \<open>The number of registers that a value of the type occupies in the buffer.\<close>

definition value_width :: "RegisterDescriptor \<Rightarrow> nat" where
  "value_width d = (case rd_type d of RT_String \<Rightarrow> unat (rd_count d)
                    | t \<Rightarrow> unat (default_register_count t))"

definition value_registers :: "bool \<Rightarrow> RegisterDescriptor \<Rightarrow> reg_value \<Rightarrow> register list" where
  "value_registers sg d v = (case v of
     VUInt16 x \<Rightarrow> [x]
   | VInt16 x \<Rightarrow> [int16_bits x]
   | VUInt32 x \<Rightarrow> bytes_to_regs (encode_uint32 (rd_order d) x)
   | VInt32 x \<Rightarrow> bytes_to_regs (encode_uint32 (rd_order d) (int32_bits x))
   | VFloat32 x \<Rightarrow> bytes_to_regs (encode_float (rd_order d) x)
   | VFloat64 x \<Rightarrow> bytes_to_regs (encode_double (rd_order d) x)
   | VString s \<Rightarrow> encode_string sg s (rd_count d))"

text \<open>Values that survive the encoding: all numbers, and the strings that fit.\<close>

definition value_fits :: "bool \<Rightarrow> RegisterDescriptor \<Rightarrow> reg_value \<Rightarrow> bool" where
  "value_fits sg d v \<longleftrightarrow> has_value_type (rd_type d) v
     \<and> (case v of VString s \<Rightarrow> 0 \<notin> set s \<and> length s \<le> 2 * unat (rd_count d) \<and> (\<forall>c\<in>set s. sg \<longrightarrow> c < 0x80)
        | _ \<Rightarrow> True)"

lemmas type_codec_defs =
  TypeCodec_encode_float_def TypeCodec_decode_float_def TypeCodec_encode_double_def
  TypeCodec_decode_double_def TypeCodec_encode_uint32_def TypeCodec_decode_uint32_def
  TypeCodec_encode_int32_def TypeCodec_decode_int32_def

lemma encode_register_store:
  assumes "has_value_type (rd_type d) v"
  shows "encode_register sg d v regs base = store_all regs base (value_registers sg d v)"
  using assms
  by (cases "rd_type d"; cases v)
     (simp_all add: encode_register_def value_registers_def type_codec_defs encode_regs_bytes)

lemma length_value_registers:
  "has_value_type (rd_type d) v \<Longrightarrow> length (value_registers sg d v) = value_width d"
  by (cases "rd_type d"; cases v) (simp_all add: value_registers_def value_width_def)

lemma decode_value_registers:
  assumes "value_fits sg d v"
  shows "decode_register d (value_registers sg d v @ rest) = Some v"
  using assms regs_roundtrip [where rest = rest and order = "rd_order d"]
  by (cases "rd_type d"; cases v)
     (simp_all add: value_fits_def decode_register_def value_registers_def type_codec_defs
       encode_regs_bytes string_roundtrip mem_simps)

text \<open>Decoding reads the first \<open>value_width d\<close> registers and nothing else.\<close>

lemma fetch_prefix_eq:
  "take n m1 = take n m2 \<Longrightarrow> i < n \<Longrightarrow> fetch m1 i = fetch m2 i"
  by (metis fetch_take)

lemma decode_double_regs_local:
  assumes "take 4 m1 = take 4 m2"
  shows "decode_double_regs order m1 = decode_double_regs order m2"
  using fetch_prefix_eq [OF assms, of 0] fetch_prefix_eq [OF assms, of 1]
    fetch_prefix_eq [OF assms, of 2] fetch_prefix_eq [OF assms, of 3]
  by (simp add: decode_double_regs_def)

lemma decode_regs_local:
  assumes "take 2 m1 = take 2 m2"
  shows "decode_uint32_regs order m1 = decode_uint32_regs order m2"
    and "decode_float_regs order m1 = decode_float_regs order m2"
  using fetch_prefix_eq [OF assms, of 0] fetch_prefix_eq [OF assms, of 1]
  by (simp_all add: decode_uint32_regs_def decode_float_regs_def)

lemma decode_string_local:
  assumes "take (unat n) m1 = take (unat n) m2" "unat n \<le> length m1" "unat n \<le> length m2"
  shows "decode_string m1 n = decode_string m2 n"
  using assms by (simp add: decode_string_eq)

lemma decode_register_local:
  assumes "take (value_width d) m1 = take (value_width d) m2"
    and "value_width d \<le> length m1" "value_width d \<le> length m2"
  shows "decode_register d m1 = decode_register d m2"
  using assms decode_regs_local [of m1 m2] decode_double_regs_local [of m1 m2]
    fetch_prefix_eq [of 1 m1 m2 0] decode_string_local [of "rd_count d" m1 m2]
  by (cases "rd_type d")
     (simp_all add: value_width_def decode_register_def type_codec_defs)

section \<open>Layout of the flat buffer\<close>

definition offset_of :: "RegisterDescriptor list \<Rightarrow> nat \<Rightarrow> nat" where
  "offset_of ds i = sum_list (map (\<lambda>d. unat (rd_count d)) (take i ds))"

definition total_of :: "RegisterDescriptor list \<Rightarrow> nat" where
  "total_of ds = sum_list (map (\<lambda>d. unat (rd_count d)) ds)"

lemma offset_of_Suc: "i < length ds \<Longrightarrow> offset_of ds (Suc i) = offset_of ds i + unat (rd_count (ds ! i))"
  by (simp add: offset_of_def take_Suc_conv_app_nth)

lemma offset_of_mono: "i \<le> j \<Longrightarrow> offset_of ds i \<le> offset_of ds j"
proof -
  assume "i \<le> j"
  then have "take j ds = take i ds @ drop i (take j ds)"
    by (metis append_take_drop_id min.absorb1 take_take)
  then show ?thesis
    unfolding offset_of_def by (metis le_add1 map_append sum_list_append)
qed

lemma offset_of_total: "offset_of ds (length ds) = total_of ds"
  by (simp add: offset_of_def total_of_def)

lemma offset_of_le_total: "i \<le> length ds \<Longrightarrow> offset_of ds i \<le> total_of ds"
  using offset_of_mono [of i "length ds" ds] by (simp add: offset_of_total)

lemma register_offset_of_nat: "i \<le> length ds \<Longrightarrow> register_offset i ds = of_nat (offset_of ds i)"
  by (induction i) (simp_all add: offset_of_Suc, simp add: offset_of_def)

lemma unat_register_offset:
  assumes "total_of ds < 65536" "i \<le> length ds"
  shows "unat (register_offset i ds) = offset_of ds i"
proof -
  have "offset_of ds i < 2 ^ LENGTH(16)" using assms offset_of_le_total [of i ds] by simp
  then show ?thesis
    by (simp add: register_offset_of_nat [OF assms(2)] unat_of_nat take_bit_nat_eq_self_iff)
qed

lemma offset_end_le:
  assumes "i < j" "j \<le> length ds" "value_width (ds ! i) \<le> unat (rd_count (ds ! i))"
  shows "offset_of ds i + value_width (ds ! i) \<le> offset_of ds j"
  using offset_of_mono [of "Suc i" j ds] offset_of_Suc [of i ds] assms by simp

text \<open>
  A map is laid out soundly when each descriptor has at least as many registers as its type
  needs (the code does not check it) and the offsets fit a \<open>quantity_t\<close>.
\<close>

definition map_sound :: "RegisterDescriptor list \<Rightarrow> bool" where
  "map_sound ds \<longleftrightarrow> (\<forall>d\<in>set ds. value_width d \<le> unat (rd_count d)) \<and> total_of ds < 65536"

definition buffer_ok :: "RegisterDescriptor list \<Rightarrow> register list \<Rightarrow> bool" where
  "buffer_ok ds regs \<longleftrightarrow> total_of ds \<le> length regs"

lemma slot_fits:
  assumes "map_sound ds" "i < length ds"
  shows "offset_of ds i + value_width (ds ! i) \<le> total_of ds"
  using offset_end_le [of i "length ds" ds] assms
  by (simp add: map_sound_def offset_of_total)

lemma RegisterMap_encode_eq:
  assumes "map_sound ds" "buffer_ok ds regs" "i < length ds" "has_value_type (rd_type (ds ! i)) v"
  shows "RegisterMap_encode sg ds i v regs =
    Some (take (offset_of ds i) regs @ value_registers sg (ds ! i) v
          @ drop (offset_of ds i + value_width (ds ! i)) regs)"
  using assms slot_fits [OF assms(1,3)]
  by (simp add: RegisterMap_encode_def encode_register_store unat_register_offset map_sound_def
      buffer_ok_def store_all_eq length_value_registers)

lemma RegisterMap_decode_eq:
  assumes "map_sound ds" "i < length ds"
  shows "RegisterMap_decode ds i regs = decode_register (ds ! i) (drop (offset_of ds i) regs)"
  using assms by (simp add: RegisterMap_decode_def unat_register_offset map_sound_def)

lemma splice_other_slot:
  assumes "length vs = w" "a + w \<le> length xs"
    and "b + u \<le> a \<or> a + w \<le> b"
  shows "take u (drop b (take a xs @ vs @ drop (a + w) xs)) = take u (drop b xs)"
  using assms(3)
proof
  assume "b + u \<le> a"
  then have b: "b \<le> a" "u \<le> a - b" "a \<le> length xs" using assms(2) by linarith+
  have "take u (drop b (take a xs @ ys)) = take u (drop b (take a xs))" for ys
    using b by simp
  also have "take u (drop b (take a xs)) = take u (drop b xs)"
    using b by (simp add: drop_take min_def)
  finally show ?thesis .
next
  assume "a + w \<le> b"
  then show ?thesis using assms(1,2) by simp
qed

lemma RegisterMap_encode_other:
  assumes sound: "map_sound ds" and buf: "buffer_ok ds regs" and i: "i < length ds"
    and v: "has_value_type (rd_type (ds ! i)) v"
    and enc: "RegisterMap_encode sg ds i v regs = Some regs'"
    and j: "j < length ds" "j \<noteq> i"
  shows "RegisterMap_decode ds j regs' = RegisterMap_decode ds j regs"
proof -
  let ?d = "ds ! j" and ?b = "offset_of ds j"
  have regs': "regs' = take (offset_of ds i) regs @ value_registers sg (ds ! i) v
      @ drop (offset_of ds i + value_width (ds ! i)) regs"
    using RegisterMap_encode_eq [OF sound buf i v] enc by simp
  have fits: "offset_of ds i + value_width (ds ! i) \<le> length regs"
    "?b + value_width ?d \<le> length regs"
    using slot_fits [OF sound i] slot_fits [OF sound j(1)] buf by (simp_all add: buffer_ok_def)
  then have len: "length regs' = length regs"
    by (simp add: regs' length_value_registers [OF v])
  have "offset_of ds i + value_width (ds ! i) \<le> ?b \<or> ?b + value_width ?d \<le> offset_of ds i"
    using offset_end_le [of i j ds] offset_end_le [of j i ds] sound i j
    by (cases i j rule: linorder_cases) (simp_all add: map_sound_def)
  then have "take (value_width ?d) (drop ?b regs') = take (value_width ?d) (drop ?b regs)"
    unfolding regs' using fits(1) by (intro splice_other_slot) (auto simp: length_value_registers [OF v])
  then show ?thesis
    unfolding RegisterMap_decode_eq [OF sound j(1)]
    by (rule decode_register_local) (use fits(2) len in simp_all)
qed

lemma RegisterMap_encode_decode:
  assumes sound: "map_sound ds" and buf: "buffer_ok ds regs" and i: "i < length ds"
    and v: "value_fits sg (ds ! i) v"
  shows "\<exists>regs'. RegisterMap_encode sg ds i v regs = Some regs' \<and> buffer_ok ds regs'
    \<and> RegisterMap_decode ds i regs' = Some v
    \<and> (\<forall>j<length ds. j \<noteq> i \<longrightarrow> RegisterMap_decode ds j regs' = RegisterMap_decode ds j regs)"
proof -
  have t: "has_value_type (rd_type (ds ! i)) v" using v by (simp add: value_fits_def)
  obtain regs' where regs': "RegisterMap_encode sg ds i v regs = Some regs'"
    "regs' = take (offset_of ds i) regs @ value_registers sg (ds ! i) v
      @ drop (offset_of ds i + value_width (ds ! i)) regs"
    using RegisterMap_encode_eq [OF sound buf i t] by simp
  have "offset_of ds i + value_width (ds ! i) \<le> length regs"
    using slot_fits [OF sound i] buf by (simp add: buffer_ok_def)
  then have "buffer_ok ds regs'" "drop (offset_of ds i) regs' = value_registers sg (ds ! i) v
      @ drop (offset_of ds i + value_width (ds ! i)) regs"
    using buf by (simp_all add: regs'(2) buffer_ok_def length_value_registers [OF t])
  then show ?thesis
    using regs'(1) RegisterMap_encode_other [OF sound buf i t regs'(1)]
    by (simp add: RegisterMap_decode_eq [OF sound i] decode_value_registers [OF v])
qed

section \<open>Buffers with independent slots\<close>

text \<open>
  The contract of a store with numbered slots, and what a client that fills several slots may
  rely on.
\<close>

fun put_all :: "(nat \<Rightarrow> 'v \<Rightarrow> 'm \<Rightarrow> 'm option) \<Rightarrow> (nat \<times> 'v) list \<Rightarrow> 'm \<Rightarrow> 'm option" where
  "put_all put [] m = Some m"
| "put_all put ((i, v) # ivs) m = do { m' \<leftarrow> put i v m; put_all put ivs m' }"

locale indexed_store =
  fixes slots :: nat
    and valid :: "'m \<Rightarrow> bool"
    and put :: "nat \<Rightarrow> 'v \<Rightarrow> 'm \<Rightarrow> 'm option"
    and get :: "nat \<Rightarrow> 'm \<Rightarrow> 'v option"
    and fits :: "nat \<Rightarrow> 'v \<Rightarrow> bool"
  assumes put_get: "i < slots \<Longrightarrow> fits i v \<Longrightarrow> valid m \<Longrightarrow>
    \<exists>m'. put i v m = Some m' \<and> valid m' \<and> get i m' = Some v
      \<and> (\<forall>j < slots. j \<noteq> i \<longrightarrow> get j m' = get j m)"
begin

lemma put_all_get:
  assumes "distinct (map fst ivs)" "\<forall>(i, v)\<in>set ivs. i < slots \<and> fits i v" "valid m"
  shows "\<exists>m'. put_all put ivs m = Some m' \<and> valid m'
    \<and> (\<forall>(i, v)\<in>set ivs. get i m' = Some v)
    \<and> (\<forall>j < slots. j \<notin> fst ` set ivs \<longrightarrow> get j m' = get j m)"
  using assms
proof (induction ivs arbitrary: m)
  case Nil
  then show ?case by simp
next
  case (Cons iv ivs)
  obtain i v where iv: "iv = (i, v)" by force
  from Cons.prems iv obtain m1 where m1: "put i v m = Some m1" "valid m1" "get i m1 = Some v"
    "\<forall>j < slots. j \<noteq> i \<longrightarrow> get j m1 = get j m"
    using put_get [of i v m] by auto
  from Cons.IH [of m1] Cons.prems m1(2) obtain m2 where m2: "put_all put ivs m1 = Some m2"
    "valid m2" "\<forall>(i, v)\<in>set ivs. get i m2 = Some v"
    "\<forall>j < slots. j \<notin> fst ` set ivs \<longrightarrow> get j m2 = get j m1"
    by auto
  have "i < slots" "i \<notin> fst ` set ivs" using Cons.prems iv by auto
  then have "get i m2 = Some v" using m2(4) m1(3) by simp
  then show ?case using m1 m2 iv by auto
qed

end

interpretation register_map: indexed_store "length ds"
  "\<lambda>regs. map_sound ds \<and> buffer_ok ds regs" "RegisterMap_encode sg ds" "RegisterMap_decode ds"
  "\<lambda>i v. value_fits sg (ds ! i) v" for sg ds
  using RegisterMap_encode_decode by unfold_locales auto

section \<open>Properties\<close>

text \<open>
  Property C25. Filling a flat buffer: whatever fields of a sound map are encoded, in whatever
  order, every one of them decodes to its value afterwards, the others are as they were, and
  no access leaves the buffer.
\<close>

theorem register_map_fields_independent:
  assumes "map_sound ds" and "buffer_ok ds regs"
    and "distinct (map fst ivs)"
    and "\<forall>(i, v)\<in>set ivs. i < length ds \<and> value_fits sg (ds ! i) v"
  shows "\<exists>regs'. put_all (RegisterMap_encode sg ds) ivs regs = Some regs'
    \<and> (\<forall>(i, v)\<in>set ivs. RegisterMap_decode ds i regs' = Some v)
    \<and> (\<forall>j < length ds. j \<notin> fst ` set ivs \<longrightarrow>
         RegisterMap_decode ds j regs' = RegisterMap_decode ds j regs)"
  using register_map.put_all_get [of ivs ds sg regs] assms by auto

text \<open>The map of the class documentation: temperature, status, pressure, and a device name.\<close>

definition sensor_map :: "RegisterDescriptor list" where
  "sensor_map =
    [\<lparr>rd_type = RT_Float32, rd_address = 0x0000, rd_count = 2, rd_order = BADC\<rparr>,
     \<lparr>rd_type = RT_UInt16, rd_address = 0x0002, rd_count = 1, rd_order = ABCD\<rparr>,
     \<lparr>rd_type = RT_Float64, rd_address = 0x0003, rd_count = 4, rd_order = ABCD\<rparr>,
     \<lparr>rd_type = RT_String, rd_address = 0x0010, rd_count = 2, rd_order = ABCD\<rparr>]"

lemma sensor_map_sound: "map_sound sensor_map" "map_compiles sensor_map"
  by (simp_all add: sensor_map_def map_sound_def total_of_def value_width_def map_compiles_def
      descriptor_compiles_def descriptors_overlap_def end_address_def)

theorem register_map_fields_independent_witness:
  "\<exists>regs'. put_all (RegisterMap_encode True sensor_map)
       [(3, VString [0x54, 0x31]), (0, VFloat32 (Float32 0x41B80000))] (replicate 9 7) = Some regs'
    \<and> RegisterMap_decode sensor_map 3 regs' = Some (VString [0x54, 0x31])
    \<and> RegisterMap_decode sensor_map 0 regs' = Some (VFloat32 (Float32 0x41B80000))
    \<and> RegisterMap_decode sensor_map 1 regs' = RegisterMap_decode sensor_map 1 (replicate 9 7)"
proof -
  have "buffer_ok sensor_map (replicate 9 7)" "distinct (map fst [(3 :: nat, VString [0x54, 0x31]),
      (0, VFloat32 (Float32 0x41B80000))])"
    "\<forall>(i, v)\<in>set [(3, VString [0x54, 0x31]), (0, VFloat32 (Float32 0x41B80000))].
       i < length sensor_map \<and> value_fits True (sensor_map ! i) v"
    by (simp_all add: buffer_ok_def total_of_def sensor_map_def value_fits_def)
  from register_map_fields_independent [OF sensor_map_sound(1) this] show ?thesis
    by (auto simp: sensor_map_def)
qed

text \<open>
  Property C35. Overlap detection is exact for descriptors that end below the top of the address
  space: the recursive template accepts a map if and only if the address sets of its
  descriptors are pairwise disjoint.
\<close>

theorem no_overlaps_exact:
  assumes "\<forall>d\<in>set ds. unat (rd_address d) + unat (rd_count d) < 65536 \<and> rd_count d > 0"
  shows "no_overlaps ds \<longleftrightarrow>
    (\<forall>i < length ds. \<forall>j < length ds. i < j \<longrightarrow> addresses_of (ds ! i) \<inter> addresses_of (ds ! j) = {})"
  unfolding no_overlaps_disjoint [OF assms] sorted_wrt_iff_nth_less by (meson order.strict_trans)

theorem no_overlaps_exact_witness:
  "addresses_of (sensor_map ! 0) \<inter> addresses_of (sensor_map ! 2) = {}"
proof -
  have "\<forall>d\<in>set sensor_map. unat (rd_address d) + unat (rd_count d) < 65536 \<and> rd_count d > 0"
    by (simp add: sensor_map_def)
  moreover have "no_overlaps sensor_map"
    using sensor_map_sound(2) by (simp add: map_compiles_def)
  ultimately have "\<forall>i < length sensor_map. \<forall>j < length sensor_map. i < j \<longrightarrow>
      addresses_of (sensor_map ! i) \<inter> addresses_of (sensor_map ! j) = {}"
    using no_overlaps_exact [of sensor_map] by blast
  moreover have "length sensor_map = 4" by (simp add: sensor_map_def)
  ultimately show ?thesis by simp
qed

text \<open>
  At the top of the address space the check is void: a descriptor that ends
  exactly at address 65536 has end address 0, and the compiler accepts it beside any number
  of copies of itself.
\<close>

theorem top_of_address_space_unchecked:
  assumes "unat (rd_address A) + unat (rd_count A) = 65536" and "descriptor_compiles A"
    and "descriptor_compiles B"
  shows "map_compiles [A, B] \<and> map_compiles (replicate (Suc n) A)"
proof -
  note top = top_descriptor_never_overlaps [OF assms(1)]
  have "sorted_wrt (\<lambda>A B. \<not> descriptors_overlap A B) (replicate m A)" for m
    by (induction m) (simp_all add: top(1))
  then show ?thesis
    using top assms(2,3) by (simp add: map_compiles_def no_overlaps_pairs)
qed

theorem top_of_address_space_unchecked_witness:
  "map_compiles [\<lparr>rd_type = RT_UInt32, rd_address = 0xFFFE, rd_count = 2, rd_order = ABCD\<rparr>,
                 \<lparr>rd_type = RT_UInt16, rd_address = 0xFFFF, rd_count = 1, rd_order = ABCD\<rparr>]"
  by (rule conjunct1 [OF top_of_address_space_unchecked]) (simp_all add: descriptor_compiles_def)

text \<open>
  The count of a descriptor is not checked against its type: a map with a
  \<open>Float32\<close> of one register compiles, and encoding that field overwrites the next one.
\<close>

theorem undersized_descriptor_overwrites:
  "map_compiles [\<lparr>rd_type = RT_Float32, rd_address = 0, rd_count = 1, rd_order = ABCD\<rparr>,
                 \<lparr>rd_type = RT_UInt16, rd_address = 1, rd_count = 1, rd_order = order\<rparr>]
   \<and> RegisterMap_encode sg [\<lparr>rd_type = RT_Float32, rd_address = 0, rd_count = 1, rd_order = ABCD\<rparr>,
                 \<lparr>rd_type = RT_UInt16, rd_address = 1, rd_count = 1, rd_order = order\<rparr>]
       0 (VFloat32 (Float32 bits)) [r0, r1] = Some (words32 bits)
   \<and> RegisterMap_decode [\<lparr>rd_type = RT_Float32, rd_address = 0, rd_count = 1, rd_order = ABCD\<rparr>,
                 \<lparr>rd_type = RT_UInt16, rd_address = 1, rd_count = 1, rd_order = order\<rparr>]
       1 (words32 bits) = Some (VUInt16 (ucast bits))"
  by (simp add: map_compiles_def descriptor_compiles_def descriptors_overlap_def end_address_def
      RegisterMap_encode_def RegisterMap_decode_def encode_register_def decode_register_def
      type_codec_defs encode_regs_bytes encode_float_def to_big_endian_bytes_float_def words32_bytes
      words32_def mem_simps)

end
