(* ===== verification/Batch.thy ===== *)
theory Batch
  imports Register_Map Core_Types Error_Result "HOL-Library.Multiset"
begin

text \<open>
  Component \<open>register_map/batch_request.hpp\<close>: batches of register ranges, the merging of
  contiguous ranges, per-item results, and the wire forms of both.

  The fields \<open>type\<close> and \<open>byte_order\<close> of an item hold the underlying byte of their enumeration,
  since the parser casts any byte to them. \<open>std::sort\<close> leaves the order of equal elements open:
  \<open>optimized\<close> takes the sorting function as an argument, of which it uses what
  \<open>sorts_by_address\<close> states. Addresses and counts are 16-bit words and their sums wrap.
\<close>

section \<open>Requests\<close>

record BatchItem =
  bi_start_address :: address
  bi_count :: quantity
  bi_type :: byte
  bi_byte_order :: byte

datatype BatchRequest = BatchRequest (br_items: "BatchItem list")

definition batch_add :: "BatchRequest \<Rightarrow> address \<Rightarrow> quantity \<Rightarrow> RegisterType \<Rightarrow> ByteOrder \<Rightarrow> BatchRequest" where
  "batch_add req addr n type order = BatchRequest (br_items req @
     [\<lparr>bi_start_address = addr, bi_count = n, bi_type = RegisterType_value type,
       bi_byte_order = ByteOrder_value order\<rparr>])"

definition batch_size :: "BatchRequest \<Rightarrow> nat" where
  "batch_size req = length (br_items req)"

text \<open>The body of the merging loop: \<open>result\<close> is \<open>result.items_\<close>, never empty.\<close>

definition batch_merge_step :: "BatchItem list \<Rightarrow> BatchItem \<Rightarrow> BatchItem list" where
  "batch_merge_step result cur =
     (let last_item = last result;
          last_end = bi_start_address last_item + bi_count last_item in
      if bi_start_address cur \<le> last_end \<and> bi_byte_order last_item = bi_byte_order cur then
        (let new_end = max last_end (bi_start_address cur + bi_count cur) in
         butlast result @ [last_item\<lparr>bi_count := new_end - bi_start_address last_item,
                                     bi_type := RegisterType_value RT_UInt16\<rparr>])
      else result @ [cur])"

definition optimized :: "(BatchItem list \<Rightarrow> BatchItem list) \<Rightarrow> BatchRequest \<Rightarrow> BatchRequest" where
  "optimized std_sort req =
     (if length (br_items req) \<le> 1 then req
      else (case std_sort (br_items req) of
              [] \<Rightarrow> BatchRequest []
            | first # others \<Rightarrow> BatchRequest (foldl batch_merge_step [first] others)))"

definition sorts_by_address :: "(BatchItem list \<Rightarrow> BatchItem list) \<Rightarrow> bool" where
  "sorts_by_address f \<longleftrightarrow>
     (\<forall>xs. mset (f xs) = mset xs \<and> sorted (map bi_start_address (f xs)))"

fun total_registers :: "BatchItem list \<Rightarrow> quantity \<Rightarrow> quantity" where
  "total_registers [] acc = acc"
| "total_registers (item # items) acc = total_registers items (acc + bi_count item)"

definition batch_total_registers :: "BatchRequest \<Rightarrow> quantity" where
  "batch_total_registers req = total_registers (br_items req) 0"

section \<open>Wire form of requests\<close>

fun serialize_items :: "BatchItem list \<Rightarrow> byte list" where
  "serialize_items [] = []"
| "serialize_items (item # items) =
     [hi8 (bi_start_address item), lo8 (bi_start_address item),
      hi8 (bi_count item), lo8 (bi_count item), bi_type item, bi_byte_order item]
     @ serialize_items items"

definition BatchRequest_serialize :: "BatchRequest \<Rightarrow> byte list" where
  "BatchRequest_serialize req =
     (let n = of_nat (length (br_items req)) in [hi8 n, lo8 n] @ serialize_items (br_items req))"

fun deserialize_items :: "byte span \<Rightarrow> nat \<Rightarrow> nat \<Rightarrow> BatchItem list \<Rightarrow> BatchItem list option" where
  "deserialize_items data 0 offset items = Some items"
| "deserialize_items data (Suc n) offset items = do {
     a0 \<leftarrow> span_at data offset; a1 \<leftarrow> span_at data (offset + 1);
     c0 \<leftarrow> span_at data (offset + 2); c1 \<leftarrow> span_at data (offset + 3);
     t \<leftarrow> span_at data (offset + 4); bo \<leftarrow> span_at data (offset + 5);
     deserialize_items data n (offset + 6)
       (items @ [\<lparr>bi_start_address = be16 a0 a1, bi_count = be16 c0 c1, bi_type = t, bi_byte_order = bo\<rparr>])
   }"

definition BatchRequest_deserialize :: "byte span \<Rightarrow> BatchRequest Result option" where
  "BatchRequest_deserialize data =
     (if sp_size data < 2 then Some (err DeserializationFailed)
      else do {
        h \<leftarrow> span_at data 0; l \<leftarrow> span_at data 1;
        let item_count = unat (be16 h l);
        if sp_size data < 2 + item_count * 6 then Some (err DeserializationFailed)
        else do {
          items \<leftarrow> deserialize_items data item_count 2 [];
          Some (Ok (BatchRequest items))
        }
      })"

section \<open>Responses\<close>

record ItemResult =
  ir_address :: address
  ir_registers :: "register list"
  ir_status :: error_code

datatype BatchResponse = BatchResponse (bresp_results: "ItemResult list")

definition add_result :: "BatchResponse \<Rightarrow> address \<Rightarrow> register list \<Rightarrow> error_code \<Rightarrow> BatchResponse" where
  "add_result resp addr regs status = BatchResponse (bresp_results resp @
     [\<lparr>ir_address = addr, ir_registers = regs, ir_status = status\<rparr>])"

definition all_succeeded :: "BatchResponse \<Rightarrow> bool" where
  "all_succeeded resp \<longleftrightarrow> (\<forall>r\<in>set (bresp_results resp). \<not> ec_bool (ir_status r))"

fun find_result :: "ItemResult list \<Rightarrow> address \<Rightarrow> ItemResult option" where
  "find_result [] addr = None"
| "find_result (r # rs) addr = (if ir_address r = addr then Some r else find_result rs addr)"

definition status_byte :: "error_code \<Rightarrow> byte" where
  "status_byte ec = word_of_int (ec_value ec)"

fun serialize_results :: "ItemResult list \<Rightarrow> byte list" where
  "serialize_results [] = []"
| "serialize_results (item # items) =
     (let reg_count = of_nat (length (ir_registers item)) in
      [hi8 (ir_address item), lo8 (ir_address item), status_byte (ir_status item),
       hi8 reg_count, lo8 reg_count] @ regs_to_bytes (ir_registers item))
     @ serialize_results items"

definition BatchResponse_serialize :: "BatchResponse \<Rightarrow> byte list" where
  "BatchResponse_serialize resp =
     (let n = of_nat (length (bresp_results resp)) in
      [hi8 n, lo8 n] @ serialize_results (bresp_results resp))"

definition status_of_byte :: "byte \<Rightarrow> error_code" where
  "status_of_byte status_val =
     (if status_val = 0 then error_code_default else make_error_code (uint status_val))"

fun read_registers :: "byte span \<Rightarrow> nat \<Rightarrow> nat \<Rightarrow> register list option" where
  "read_registers data 0 offset = Some []"
| "read_registers data (Suc n) offset = do {
     h \<leftarrow> span_at data offset; l \<leftarrow> span_at data (offset + 1);
     rs \<leftarrow> read_registers data n (offset + 2);
     Some (be16 h l # rs)
   }"

fun deserialize_results :: "byte span \<Rightarrow> nat \<Rightarrow> nat \<Rightarrow> BatchResponse \<Rightarrow> BatchResponse Result option" where
  "deserialize_results data 0 offset resp = Some (Ok resp)"
| "deserialize_results data (Suc n) offset resp =
     (if offset + 5 > sp_size data then Some (err DeserializationFailed)
      else do {
        a0 \<leftarrow> span_at data offset; a1 \<leftarrow> span_at data (offset + 1);
        status_val \<leftarrow> span_at data (offset + 2);
        let ec = status_of_byte status_val;
        c0 \<leftarrow> span_at data (offset + 3); c1 \<leftarrow> span_at data (offset + 4);
        let reg_count = unat (be16 c0 c1);
        if offset + 5 + reg_count * 2 > sp_size data then Some (err DeserializationFailed)
        else do {
          regs \<leftarrow> read_registers data reg_count (offset + 5);
          deserialize_results data n (offset + 5 + reg_count * 2) (add_result resp (be16 a0 a1) regs ec)
        }
      })"

definition BatchResponse_deserialize :: "byte span \<Rightarrow> BatchResponse Result option" where
  "BatchResponse_deserialize data =
     (if sp_size data < 2 then Some (err DeserializationFailed)
      else do {
        h \<leftarrow> span_at data 0; l \<leftarrow> span_at data 1;
        deserialize_results data (unat (be16 h l)) 2 (BatchResponse [])
      })"

section \<open>The merging loop, element by element\<close>

definition merge_into :: "BatchItem \<Rightarrow> BatchItem \<Rightarrow> BatchItem" where
  "merge_into l c = l\<lparr>bi_count := max (bi_start_address l + bi_count l)
      (bi_start_address c + bi_count c) - bi_start_address l, bi_type := RegisterType_value RT_UInt16\<rparr>"

definition mergeable :: "BatchItem \<Rightarrow> BatchItem \<Rightarrow> bool" where
  "mergeable l c \<longleftrightarrow> bi_start_address c \<le> bi_start_address l + bi_count l \<and> bi_byte_order l = bi_byte_order c"

fun merge_run :: "BatchItem \<Rightarrow> BatchItem list \<Rightarrow> BatchItem list" where
  "merge_run l [] = [l]"
| "merge_run l (c # cs) = (if mergeable l c then merge_run (merge_into l c) cs else l # merge_run c cs)"

lemma foldl_merge_step: "foldl batch_merge_step (pre @ [l]) cs = pre @ merge_run l cs"
proof (induction cs arbitrary: pre l)
  case Nil
  then show ?case by simp
next
  case (Cons c cs)
  show ?case
    using Cons [of pre "merge_into l c"] Cons [of "pre @ [l]" c]
    by (simp add: batch_merge_step_def mergeable_def merge_into_def Let_def)
qed

lemma optimized_eq:
  "optimized f req = (if length (br_items req) \<le> 1 then req
     else (case f (br_items req) of [] \<Rightarrow> BatchRequest [] | l # cs \<Rightarrow> BatchRequest (merge_run l cs)))"
  using foldl_merge_step [of "[]"] by (simp add: optimized_def split: list.split)

section \<open>What merging preserves\<close>

definition item_start :: "BatchItem \<Rightarrow> nat" where
  "item_start i = unat (bi_start_address i)"

definition item_end :: "BatchItem \<Rightarrow> nat" where
  "item_end i = unat (bi_start_address i) + unat (bi_count i)"

definition item_inside :: "BatchItem \<Rightarrow> BatchItem \<Rightarrow> bool" where
  "item_inside i r \<longleftrightarrow> bi_byte_order i = bi_byte_order r
     \<and> item_start r \<le> item_start i \<and> item_end i \<le> item_end r"

definition item_cells :: "BatchItem \<Rightarrow> (byte \<times> nat) set" where
  "item_cells i = {bi_byte_order i} \<times> {item_start i..<item_end i}"

definition no_wrap :: "BatchItem \<Rightarrow> bool" where
  "no_wrap i \<longleftrightarrow> item_end i < 65536"

lemma item_end_word: "no_wrap i \<Longrightarrow> unat (bi_start_address i + bi_count i) = item_end i"
  unfolding no_wrap_def item_end_def by (subst unat_add_lem [THEN iffD1]) simp_all

lemma mergeable_iff:
  "no_wrap l \<Longrightarrow> mergeable l c \<longleftrightarrow> item_start c \<le> item_end l \<and> bi_byte_order l = bi_byte_order c"
  by (simp add: mergeable_def word_le_nat_alt item_end_word item_start_def)

lemma merge_into_bounds:
  assumes "no_wrap l" "no_wrap c"
  shows "item_start (merge_into l c) = item_start l"
    and "item_end (merge_into l c) = max (item_end l) (item_end c)"
    and "bi_byte_order (merge_into l c) = bi_byte_order l"
proof -
  let ?e = "max (bi_start_address l + bi_count l) (bi_start_address c + bi_count c)"
  have e: "unat ?e = max (item_end l) (item_end c)"
    using assms by (simp add: max_def word_le_nat_alt item_end_word)
  have "bi_start_address l \<le> ?e"
    unfolding word_le_nat_alt e by (simp add: item_end_def)
  then have "unat (?e - bi_start_address l) = unat ?e - unat (bi_start_address l)"
    by (rule unat_sub)
  then show "item_end (merge_into l c) = max (item_end l) (item_end c)"
    using \<open>bi_start_address l \<le> ?e\<close> e
    by (simp add: item_end_def merge_into_def word_le_nat_alt)
qed (simp_all add: merge_into_def item_start_def)

lemma merge_into_no_wrap: "no_wrap l \<Longrightarrow> no_wrap c \<Longrightarrow> no_wrap (merge_into l c)"
  using merge_into_bounds(2) [of l c] by (simp add: no_wrap_def)

lemma merge_into_cells:
  assumes "no_wrap l" "no_wrap c" "mergeable l c" "item_start l \<le> item_start c"
  shows "item_cells (merge_into l c) = item_cells l \<union> item_cells c"
proof -
  have "{item_start l..<max (item_end l) (item_end c)}
      = {item_start l..<item_end l} \<union> {item_start c..<item_end c}"
    using assms(4) assms(3) [unfolded mergeable_iff [OF assms(1)]]
    by (auto simp: item_end_def item_start_def)
  then show ?thesis
    using assms(3) [unfolded mergeable_iff [OF assms(1)]] merge_into_bounds [OF assms(1,2)]
    by (simp add: item_cells_def Sigma_Un_distrib2)
qed

lemma item_inside_trans: "item_inside a b \<Longrightarrow> item_inside b c \<Longrightarrow> item_inside a c"
  by (auto simp: item_inside_def)

lemma item_inside_refl: "item_inside i i"
  by (simp add: item_inside_def)

lemma merge_into_inside:
  assumes "no_wrap l" "no_wrap c" "mergeable l c" "item_start l \<le> item_start c"
  shows "item_inside l (merge_into l c)" "item_inside c (merge_into l c)"
  using assms(3,4) merge_into_bounds [OF assms(1,2)]
  by (auto simp: item_inside_def mergeable_def)

definition run_ok :: "BatchItem list \<Rightarrow> bool" where
  "run_ok xs \<longleftrightarrow> sorted (map item_start xs) \<and> (\<forall>i\<in>set xs. no_wrap i)"

lemma run_ok_merge: "run_ok (l # c # cs) \<Longrightarrow> run_ok (merge_into l c # cs)"
  using merge_into_bounds(1) [of l c] merge_into_no_wrap [of l c] by (auto simp: run_ok_def)

lemma run_ok_Cons: "run_ok (l # cs) \<Longrightarrow> run_ok cs"
  by (simp add: run_ok_def)

lemma run_ok_heads:
  "run_ok (l # c # cs) \<Longrightarrow> no_wrap l \<and> no_wrap c \<and> item_start l \<le> item_start c"
  by (simp add: run_ok_def)

lemma merge_run_cells:
  "run_ok (l # cs) \<Longrightarrow> \<Union> (item_cells ` set (merge_run l cs)) = \<Union> (item_cells ` set (l # cs))"
proof (induction l cs rule: merge_run.induct)
  case (2 l c cs)
  note h = run_ok_heads [OF 2(3)]
  show ?case
    using 2 run_ok_merge [OF 2(3)] run_ok_Cons [OF 2(3)] merge_into_cells [of l c] h by auto
qed simp

lemma merge_run_inside:
  "run_ok (l # cs) \<Longrightarrow> i \<in> set (l # cs) \<Longrightarrow> \<exists>r\<in>set (merge_run l cs). item_inside i r"
proof (induction l cs arbitrary: i rule: merge_run.induct)
  case (1 l)
  then show ?case by (simp add: item_inside_def)
next
  case (2 l c cs)
  note h = run_ok_heads [OF 2(3)]
  show ?case
  proof (cases "mergeable l c")
    case True
    with h have "item_inside l (merge_into l c)" "item_inside c (merge_into l c)"
      using merge_into_inside [of l c] by blast+
    then obtain j where "j \<in> set (merge_into l c # cs)" "item_inside i j"
      using 2(4) by (metis item_inside_refl list.set_intros set_ConsD)
    with True 2(1) run_ok_merge [OF 2(3)] show ?thesis
      by (metis item_inside_trans merge_run.simps(2))
  next
    case False
    then show ?thesis
      using 2(2,4) run_ok_Cons [OF 2(3)] by (auto simp: item_inside_def)
  qed
qed

lemma merge_run_hd: "\<exists>r rs. merge_run l cs = r # rs \<and> bi_start_address r = bi_start_address l
    \<and> bi_byte_order r = bi_byte_order l"
  by (induction l cs rule: merge_run.induct) (auto simp: merge_into_def)

lemma merge_run_separated:
  "run_ok (l # cs) \<Longrightarrow> successively (\<lambda>a b. bi_byte_order a \<noteq> bi_byte_order b \<or> item_end a < item_start b)
     (merge_run l cs)"
proof (induction l cs rule: merge_run.induct)
  case (1 l)
  then show ?case by simp
next
  case (2 l c cs)
  note h = run_ok_heads [OF 2(3)]
  show ?case
  proof (cases "mergeable l c")
    case True
    then show ?thesis using 2(1) run_ok_merge [OF 2(3)] by simp
  next
    case False
    obtain r rs where r: "merge_run c cs = r # rs" "bi_start_address r = bi_start_address c"
      "bi_byte_order r = bi_byte_order c"
      using merge_run_hd by blast
    then show ?thesis
      using False 2(2) run_ok_Cons [OF 2(3)] h by (auto simp: mergeable_iff item_start_def)
  qed
qed

lemma length_merge_run: "length (merge_run l cs) \<le> Suc (length cs)"
  by (induction l cs rule: merge_run.induct) auto

section \<open>The optimised batch\<close>

lemma sorted_item_start: "sorted (map bi_start_address xs) \<longleftrightarrow> sorted (map item_start xs)"
  by (simp add: sorted_map item_start_def word_le_nat_alt)

lemma optimized_merge_run:
  assumes "sorts_by_address f" "\<forall>i\<in>set (br_items req). no_wrap i" "1 < length (br_items req)"
  obtains l cs where "br_items (optimized f req) = merge_run l cs" "run_ok (l # cs)"
    "mset (l # cs) = mset (br_items req)"
proof -
  have m: "mset (f (br_items req)) = mset (br_items req)"
    and s: "sorted (map bi_start_address (f (br_items req)))"
    using assms(1) by (auto simp: sorts_by_address_def)
  then have "length (f (br_items req)) = length (br_items req)" by (metis size_mset)
  then obtain l cs where lcs: "f (br_items req) = l # cs"
    using assms(3) by (cases "f (br_items req)") auto
  have "set (l # cs) = set (br_items req)" using m lcs by (metis set_mset_mset)
  then have "run_ok (l # cs)"
    using s assms(2) unfolding run_ok_def sorted_item_start lcs by auto
  then show thesis
    using that [of l cs] lcs m assms(3) by (simp add: optimized_eq)
qed

lemma optimized_small: "length (br_items req) \<le> 1 \<Longrightarrow> optimized f req = req"
  by (simp add: optimized_def)

lemma optimized_correct:
  assumes "sorts_by_address f" "\<forall>i\<in>set (br_items req). no_wrap i"
  defines "R \<equiv> br_items (optimized f req)"
  shows "\<Union> (item_cells ` set R) = \<Union> (item_cells ` set (br_items req))"
    and "\<forall>i\<in>set (br_items req). \<exists>r\<in>set R. item_inside i r"
    and "successively (\<lambda>a b. bi_byte_order a \<noteq> bi_byte_order b \<or> item_end a < item_start b) R"
    and "length R \<le> length (br_items req)"
proof -
  have "\<Union> (item_cells ` set R) = \<Union> (item_cells ` set (br_items req))
    \<and> (\<forall>i\<in>set (br_items req). \<exists>r\<in>set R. item_inside i r)
    \<and> successively (\<lambda>a b. bi_byte_order a \<noteq> bi_byte_order b \<or> item_end a < item_start b) R
    \<and> length R \<le> length (br_items req)"
  proof (cases "1 < length (br_items req)")
    case True
    with optimized_merge_run [OF assms(1,2)] obtain l cs where
      R: "R = merge_run l cs" "run_ok (l # cs)" "mset (l # cs) = mset (br_items req)"
      unfolding R_def by blast
    then have set: "set (l # cs) = set (br_items req)" and len: "Suc (length cs) = length (br_items req)"
      by (metis set_mset_mset, metis size_mset length_Cons)
    show ?thesis
      using merge_run_cells [OF R(2)] merge_run_inside [OF R(2)] merge_run_separated [OF R(2)]
        length_merge_run [of l cs] unfolding set R(1) len by blast
  next
    case False
    then have "R = br_items req" "br_items req = [] \<or> (\<exists>i. br_items req = [i])"
      by (auto simp: R_def optimized_small not_less le_Suc_eq length_Suc_conv)
    then show ?thesis
      by (auto simp: item_inside_refl)
  qed
  then show "\<Union> (item_cells ` set R) = \<Union> (item_cells ` set (br_items req))"
    and "\<forall>i\<in>set (br_items req). \<exists>r\<in>set R. item_inside i r"
    and "successively (\<lambda>a b. bi_byte_order a \<noteq> bi_byte_order b \<or> item_end a < item_start b) R"
    and "length R \<le> length (br_items req)"
    by blast+
qed

lemma total_registers_sum: "total_registers items t = t + sum_list (map bi_count items)"
  by (induction items arbitrary: t) (simp_all add: add.assoc)

section \<open>Requests on the wire\<close>

lemma length_serialize_items [simp]: "length (serialize_items items) = 6 * length items"
  by (induction items) auto

lemma deserialize_items_append:
  assumes "sp_mem data = pre @ serialize_items items @ rest" "length pre = offset"
  shows "deserialize_items data (length items) offset acc = Some (acc @ items)"
  using assms
proof (induction items arbitrary: pre offset acc)
  case Nil
  then show ?case by simp
next
  case (Cons i items)
  let ?s = "[hi8 (bi_start_address i), lo8 (bi_start_address i), hi8 (bi_count i), lo8 (bi_count i),
      bi_type i, bi_byte_order i]"
  have "sp_mem data = (pre @ ?s) @ serialize_items items @ rest" "length (pre @ ?s) = offset + 6"
    using Cons.prems by simp_all
  from Cons.IH [OF this] show ?case
    using Cons.prems by (simp add: span_at_def fetch_append mem_simps be_simps)
qed

lemma batch_request_roundtrip:
  assumes "length (br_items req) < 65536"
  shows "BatchRequest_deserialize (span_of (BatchRequest_serialize req @ rest)) = Some (Ok req)"
proof -
  let ?n = "of_nat (length (br_items req)) :: u16"
  have n: "unat ?n = length (br_items req)"
    using assms by simp
  have "deserialize_items (span_of (BatchRequest_serialize req @ rest)) (length (br_items req)) 2 []
      = Some (br_items req)"
    using deserialize_items_append [of _ "[hi8 ?n, lo8 ?n]" "br_items req" rest 2 "[]"]
    by (simp add: BatchRequest_serialize_def Let_def)
  then show ?thesis
    using n by (simp add: BatchRequest_deserialize_def BatchRequest_serialize_def span_at_def
        mem_simps be_simps Let_def)
qed

lemma deserialize_items_defined:
  assumes "offset + 6 * n \<le> length (sp_mem data)"
  shows "\<exists>items. deserialize_items data n offset acc = Some (acc @ items) \<and> length items = n
    \<and> serialize_items items = take (6 * n) (drop offset (sp_mem data))"
  using assms
proof (induction n arbitrary: offset acc)
  case 0
  then show ?case by simp
next
  case (Suc n)
  let ?m = "sp_mem data"
  have six: "take 6 (drop offset ?m) = [?m ! offset, ?m ! (offset + 1), ?m ! (offset + 2),
      ?m ! (offset + 3), ?m ! (offset + 4), ?m ! (offset + 5)]"
    using Suc.prems by (intro nth_equalityI) (auto simp: nth_Cons' less_Suc_eq numeral_eq_Suc)
  let ?i = "\<lparr>bi_start_address = be16 (?m ! offset) (?m ! (offset + 1)),
    bi_count = be16 (?m ! (offset + 2)) (?m ! (offset + 3)),
    bi_type = ?m ! (offset + 4), bi_byte_order = ?m ! (offset + 5)\<rparr>"
  from Suc obtain items where items: "deserialize_items data n (offset + 6) (acc @ [?i])
      = Some ((acc @ [?i]) @ items)" "length items = n"
    "serialize_items items = take (6 * n) (drop (offset + 6) ?m)"
    using Suc.IH [of "offset + 6" "acc @ [?i]"] by auto
  have "take (6 * Suc n) (drop offset ?m) = take 6 (drop offset ?m) @ take (6 * n) (drop (offset + 6) ?m)"
    by (simp add: take_add add.commute)
  then show ?case
    using items Suc.prems six
    by (intro exI [of _ "?i # items"]) (simp add: span_at_def fetch_lt be_simps)
qed

lemma two_bytes_split:
  assumes "2 \<le> length bs"
  obtains h l rest where "bs = h # l # rest"
  using assms by (cases bs; cases "tl bs") auto

lemma BatchRequest_deserialize_cases:
  assumes "bs = h # l # rest"
  shows "BatchRequest_deserialize (span_of bs) =
    (if length rest < 6 * unat (be16 h l) then Some (err DeserializationFailed)
     else do { items \<leftarrow> deserialize_items (span_of bs) (unat (be16 h l)) 2 []; Some (Ok (BatchRequest items)) })"
  using assms by (simp add: BatchRequest_deserialize_def span_at_def mem_simps Let_def)

lemma batch_request_parse:
  "BatchRequest_deserialize (span_of bs) = Some (Ok req) \<longleftrightarrow>
     length (br_items req) < 65536 \<and> (\<exists>rest. bs = BatchRequest_serialize req @ rest)"
proof
  assume ok: "BatchRequest_deserialize (span_of bs) = Some (Ok req)"
  then have "2 \<le> length bs"
    by (simp add: BatchRequest_deserialize_def not_less split: if_splits)
  then obtain h l rest where bs: "bs = h # l # rest" by (rule two_bytes_split)
  let ?n = "unat (be16 h l)"
  from ok have len: "6 * ?n \<le> length rest"
    by (simp add: BatchRequest_deserialize_cases [OF bs] not_less split: if_splits)
  then have "2 + 6 * ?n \<le> length (sp_mem (span_of bs))" by (simp add: bs)
  from deserialize_items_defined [OF this, of "[]"] obtain items where
    items: "deserialize_items (span_of bs) ?n 2 [] = Some items" "length items = ?n"
      "serialize_items items = take (6 * ?n) (drop 2 bs)"
    by auto
  then have req: "req = BatchRequest items"
    using ok len by (simp add: BatchRequest_deserialize_cases [OF bs])
  have "of_nat ?n = be16 h l" by simp
  then have "BatchRequest_serialize req @ drop (6 * ?n) rest = bs"
    using items(2,3) by (simp add: req BatchRequest_serialize_def bs be_simps)
  then show "length (br_items req) < 65536 \<and> (\<exists>rest. bs = BatchRequest_serialize req @ rest)"
    using items(2) unat_u16_less [of "be16 h l"] by (metis BatchRequest.sel req)
next
  assume "length (br_items req) < 65536 \<and> (\<exists>rest. bs = BatchRequest_serialize req @ rest)"
  then show "BatchRequest_deserialize (span_of bs) = Some (Ok req)"
    using batch_request_roundtrip by auto
qed

lemma batch_request_safe:
  "returns_within {DeserializationFailed} (BatchRequest_deserialize (span_of bs))"
proof (cases "2 \<le> length bs")
  case True
  then obtain h l rest where bs: "bs = h # l # rest" by (rule two_bytes_split)
  show ?thesis
    using deserialize_items_defined [of 2 "unat (be16 h l)" "span_of (h # l # rest)" "[]"]
      BatchRequest_deserialize_cases [OF refl, of h l rest]
    by (auto simp: bs not_less)
next
  case False
  then show ?thesis by (simp add: BatchRequest_deserialize_def)
qed

interpretation batch_request_codec: wire_codec BatchRequest_serialize
  "\<lambda>bs. BatchRequest_deserialize (span_of bs)" "\<lambda>req. length (br_items req) < 65536"
  by unfold_locales (use batch_request_roundtrip [where rest = "[]"] in simp)

section \<open>Responses on the wire\<close>

definition status_carried :: "error_code \<Rightarrow> bool" where
  "status_carried ec \<longleftrightarrow> ec = error_code_default
     \<or> ec_category ec = modbus_category \<and> 0 < ec_value ec \<and> ec_value ec < 256"

lemma status_roundtrip: "status_of_byte (status_byte ec) = ec \<longleftrightarrow> status_carried ec"
proof -
  have u: "uint (word_of_int (ec_value ec) :: byte) = ec_value ec mod 256"
    by (simp add: uint_word_of_int take_bit_eq_mod)
  have z: "(word_of_int (ec_value ec) :: byte) = 0 \<longleftrightarrow> ec_value ec mod 256 = 0"
    by (metis u uint_0_iff)
  have "ec_value ec mod 256 = ec_value ec \<longleftrightarrow> 0 \<le> ec_value ec \<and> ec_value ec < 256"
    by (metis mod_pos_pos_trivial pos_mod_bound pos_mod_sign zero_less_numeral)
  then show ?thesis
    using u z
    by (cases ec) (auto simp: status_of_byte_def status_byte_def status_carried_def
        make_error_code_def error_code_default_def)
qed

lemma status_carried_mk_error: "status_carried (mk_error e) \<longleftrightarrow> e \<noteq> Success"
  using ErrorCode_value_byte [of e] ErrorCode_value_0_iff [of e]
  by (auto simp: status_carried_def mk_error_def make_error_code_def error_code_default_def
      modbus_category_def less_le)

definition result_carried :: "ItemResult \<Rightarrow> bool" where
  "result_carried r \<longleftrightarrow> length (ir_registers r) < 65536 \<and> status_carried (ir_status r)"

definition response_carried :: "BatchResponse \<Rightarrow> bool" where
  "response_carried resp \<longleftrightarrow> length (bresp_results resp) < 65536
     \<and> (\<forall>r\<in>set (bresp_results resp). result_carried r)"

lemma read_registers_eq:
  "offset + 2 * n \<le> length (sp_mem data) \<Longrightarrow>
   read_registers data n offset = Some (bytes_to_regs (take (2 * n) (drop offset (sp_mem data))))"
proof (induction n arbitrary: offset)
  case 0
  then show ?case by simp
next
  case (Suc n)
  let ?m = "sp_mem data"
  have "drop offset ?m = ?m ! offset # ?m ! (offset + 1) # drop (offset + 2) ?m"
    using Suc.prems Cons_nth_drop_Suc [of offset ?m] Cons_nth_drop_Suc [of "offset + 1" ?m] by simp
  with Suc show ?case by (simp add: span_at_def fetch_lt)
qed

lemma deserialize_results_append:
  assumes "sp_mem data = pre @ serialize_results rs @ rest" "length pre = offset"
    and "sp_size data = length (sp_mem data)" "\<forall>r\<in>set rs. result_carried r"
  shows "deserialize_results data (length rs) offset (BatchResponse acc)
    = Some (Ok (BatchResponse (acc @ rs)))"
  using assms
proof (induction rs arbitrary: pre offset acc)
  case Nil
  then show ?case by simp
next
  case (Cons r rs)
  let ?n = "of_nat (length (ir_registers r)) :: u16"
  let ?h = "[hi8 (ir_address r), lo8 (ir_address r), status_byte (ir_status r), hi8 ?n, lo8 ?n]"
  let ?b = "regs_to_bytes (ir_registers r)"
  have mem: "sp_mem data = pre @ ?h @ ?b @ serialize_results rs @ rest"
    using Cons.prems(1) by (simp add: Let_def)
  have n: "unat ?n = length (ir_registers r)" and st: "status_of_byte (status_byte (ir_status r)) = ir_status r"
    using Cons.prems(4) by (simp_all add: result_carried_def status_roundtrip)
  have regs: "read_registers data (length (ir_registers r)) (offset + 5) = Some (ir_registers r)"
    using Cons.prems(2) by (subst read_registers_eq) (simp_all add: mem be_simps)
  have "sp_mem data = (pre @ ?h @ ?b) @ serialize_results rs @ rest"
    "length (pre @ ?h @ ?b) = offset + 5 + length (ir_registers r) * 2"
    using mem Cons.prems(2) by simp_all
  moreover have "\<forall>r\<in>set rs. result_carried r" using Cons.prems(4) by simp
  ultimately have "deserialize_results data (length rs) (offset + 5 + length (ir_registers r) * 2)
      (BatchResponse (acc @ [r])) = Some (Ok (BatchResponse (acc @ r # rs)))"
    using Cons.IH [of "pre @ ?h @ ?b" "offset + 5 + length (ir_registers r) * 2" "acc @ [r]"]
      Cons.prems(3) by simp
  moreover have "add_result (BatchResponse acc) (ir_address r) (ir_registers r) (ir_status r)
      = BatchResponse (acc @ [r])"
    by (simp add: add_result_def)
  ultimately show ?case
    using Cons.prems(2,3)
    by (simp add: mem span_at_def fetch_append mem_simps be_simps n st regs Let_def)
qed

lemma batch_response_roundtrip:
  assumes "response_carried resp"
  shows "BatchResponse_deserialize (span_of (BatchResponse_serialize resp @ rest)) = Some (Ok resp)"
proof -
  let ?n = "of_nat (length (bresp_results resp)) :: u16"
  let ?d = "span_of (BatchResponse_serialize resp @ rest)"
  have n: "unat ?n = length (bresp_results resp)"
    using assms by (simp add: response_carried_def)
  have "deserialize_results ?d (length (bresp_results resp)) 2 (BatchResponse []) = Some (Ok resp)"
    using deserialize_results_append [of ?d "[hi8 ?n, lo8 ?n]" "bresp_results resp" rest 2 "[]"] assms
    by (simp add: BatchResponse_serialize_def Let_def response_carried_def)
  then show ?thesis
    using n by (simp add: BatchResponse_deserialize_def BatchResponse_serialize_def span_at_def
        mem_simps be_simps Let_def)
qed

lemma deserialize_results_safe:
  assumes "span_valid data"
  shows "returns_within {DeserializationFailed} (deserialize_results data n offset resp)"
  using assms
proof (induction n arbitrary: offset resp)
  case 0
  then show ?case by simp
next
  case (Suc n)
  then show ?case
    by (auto simp: span_at_def fetch_lt span_valid_def read_registers_eq Let_def not_less)
qed

lemma batch_response_safe:
  assumes "span_valid data"
  shows "returns_within {DeserializationFailed} (BatchResponse_deserialize data)"
proof (cases "sp_size data < 2")
  case False
  then have "sp_mem data \<noteq> []" using assms by (auto simp: span_valid_def)
  then show ?thesis
    using deserialize_results_safe [OF assms] assms False
    by (simp add: BatchResponse_deserialize_def span_at_def fetch_lt span_valid_def)
qed (simp add: BatchResponse_deserialize_def)

interpretation batch_response_codec: wire_codec BatchResponse_serialize
  "\<lambda>bs. BatchResponse_deserialize (span_of bs)" response_carried
  by unfold_locales (use batch_response_roundtrip [where rest = "[]"] in simp)

lemma find_result_find: "find_result rs addr = find (\<lambda>r. ir_address r = addr) rs"
  by (induction rs) auto

section \<open>Properties\<close>

text \<open>
  Property C24. Merging is correct for every batch whose ranges end below 65536 and any
  conforming \<open>std::sort\<close>: the registers read are exactly the requested ones, per byte order;
  every requested range lies inside a single merged one, so its values are contiguous in one
  reply; no two neighbouring ranges of the result could still be merged; and there are no
  more ranges than before.
\<close>

theorem batch_optimized_correct:
  assumes "sorts_by_address f" and "\<forall>i\<in>set (br_items req). no_wrap i"
  shows "\<Union> (item_cells ` set (br_items (optimized f req))) = \<Union> (item_cells ` set (br_items req))
    \<and> (\<forall>i\<in>set (br_items req). \<exists>r\<in>set (br_items (optimized f req)). item_inside i r)
    \<and> successively (\<lambda>a b. bi_byte_order a \<noteq> bi_byte_order b \<or> item_end a < item_start b)
        (br_items (optimized f req))
    \<and> length (br_items (optimized f req)) \<le> length (br_items req)"
  using optimized_correct [OF assms] by blast

definition sort_items :: "BatchItem list \<Rightarrow> BatchItem list" where
  "sort_items = sort_key bi_start_address"

lemma sort_items_sorts: "sorts_by_address sort_items"
  by (simp add: sorts_by_address_def sort_items_def)

definition sample_batch :: BatchRequest where
  "sample_batch = batch_add (batch_add (batch_add (BatchRequest []) 10 4 RT_Float64 ABCD)
      0 2 RT_Float32 ABCD) 2 3 RT_UInt16 ABCD"

theorem batch_optimized_correct_witness:
  "\<Union> (item_cells ` set (br_items (optimized sort_items sample_batch)))
     = \<Union> (item_cells ` set (br_items sample_batch))
   \<and> map bi_count (br_items (optimized sort_items sample_batch)) = [5, 4]"
proof -
  have "\<forall>i\<in>set (br_items sample_batch). no_wrap i"
    by (simp add: sample_batch_def batch_add_def no_wrap_def item_end_def)
  from batch_optimized_correct [OF sort_items_sorts this] show ?thesis
    by (simp add: sample_batch_def batch_add_def optimized_def sort_items_def sort_key_def
        batch_merge_step_def)
qed

text \<open>
  At the top of the address space merging loses registers: a range that ends
  exactly at 65536 and overlaps its predecessor is dropped, and its last register is no
  longer read by any range of the optimised batch.
\<close>

theorem batch_optimized_drops_top_range:
  assumes "sorts_by_address f" and "bi_byte_order l = bi_byte_order c"
    and "item_start l < item_start c" and "item_start c \<le> item_end l"
    and "item_end l < 65536" and "item_end c = 65536"
  shows "br_items (optimized f (BatchRequest [l, c])) = [l\<lparr>bi_type := RegisterType_value RT_UInt16\<rparr>]
    \<and> (bi_byte_order c, 65535) \<in> item_cells c
    \<and> (bi_byte_order c, 65535) \<notin> \<Union> (item_cells ` set (br_items (optimized f (BatchRequest [l, c]))))"
proof -
  have m: "mset (f [l, c]) = mset [l, c]" and s: "sorted (map bi_start_address (f [l, c]))"
    using assms(1) by (auto simp: sorts_by_address_def)
  have "length (f [l, c]) = 2" using m by (metis size_mset length_Cons list.size(3) numeral_2_eq_2)
  then obtain x y where xy: "f [l, c] = [x, y]"
    by (auto simp: numeral_2_eq_2 length_Suc_conv)
  have "{#x, y#} = {#l, c#}" using m xy by simp
  then have "x = l \<and> y = c \<or> x = c \<and> y = l" by (auto simp: add_eq_conv_ex)
  then have fl: "f [l, c] = [l, c]"
    using s xy assms(3) by (auto simp: item_start_def word_le_nat_alt)
  have nl: "no_wrap l" using assms(5) by (simp add: no_wrap_def)
  have "bi_start_address c + bi_count c = of_nat (item_end c)"
    by (simp add: item_end_def)
  then have z: "bi_start_address c + bi_count c = 0" using assms(6) by simp
  have "mergeable l c" using nl assms(2,4) by (simp add: mergeable_iff)
  moreover have "merge_into l c = l\<lparr>bi_type := RegisterType_value RT_UInt16\<rparr>"
    using z by (simp add: merge_into_def max_def)
  ultimately have "br_items (optimized f (BatchRequest [l, c])) = [l\<lparr>bi_type := RegisterType_value RT_UInt16\<rparr>]"
    by (simp add: optimized_eq fl)
  moreover have "unat (bi_start_address c) < 65536" by (rule unat_u16_less)
  ultimately show ?thesis
    using assms(5,6) by (auto simp: item_cells_def item_end_def item_start_def)
qed

theorem batch_optimized_drops_top_range_witness:
  "br_items (optimized sort_items (BatchRequest
      [\<lparr>bi_start_address = 0xFF00, bi_count = 0x10, bi_type = 0, bi_byte_order = 0\<rparr>,
       \<lparr>bi_start_address = 0xFF08, bi_count = 0xF8, bi_type = 0, bi_byte_order = 0\<rparr>]))
   = [\<lparr>bi_start_address = 0xFF00, bi_count = 0x10, bi_type = 0, bi_byte_order = 0\<rparr>]"
  by (subst conjunct1 [OF batch_optimized_drops_top_range [OF sort_items_sorts]])
     (simp_all add: item_start_def item_end_def)

text \<open>
  The request parser accepts exactly the encodings of batches of fewer than
  65536 items, followed by anything, and is memory safe on all bytes.
\<close>

theorem batch_request_parse_exact:
  "(BatchRequest_deserialize (span_of bs) = Some (Ok req) \<longleftrightarrow>
     length (br_items req) < 65536 \<and> (\<exists>rest. bs = BatchRequest_serialize req @ rest))
   \<and> returns_within {DeserializationFailed} (BatchRequest_deserialize (span_of bs))"
  using batch_request_parse batch_request_safe by blast

text \<open>
  Batch responses round-trip when the counts fit 16 bits and every status is
  success or an error of the library; \<open>find\<close> and \<open>all_succeeded\<close> then answer the same on
  both sides.
\<close>

theorem batch_response_roundtrip_carried:
  assumes "response_carried resp"
  shows "BatchResponse_deserialize (span_of (BatchResponse_serialize resp @ rest)) = Some (Ok resp)"
  using assms by (rule batch_response_roundtrip)

theorem batch_response_roundtrip_carried_witness:
  "BatchResponse_deserialize (span_of (BatchResponse_serialize
      (add_result (add_result (BatchResponse []) 7 [1, 2] error_code_default)
         9 [] (mk_error IllegalDataAddress)) @ [0]))
   = Some (Ok (add_result (add_result (BatchResponse []) 7 [1, 2] error_code_default)
         9 [] (mk_error IllegalDataAddress)))"
  by (rule batch_response_roundtrip_carried)
     (simp add: response_carried_def add_result_def result_carried_def status_carried_mk_error,
      simp add: status_carried_def)

text \<open>
  The response parser is memory safe on every valid span and fails only with
  \<open>DeserializationFailed\<close>.
\<close>

theorem batch_response_memory_safe:
  "returns_within {DeserializationFailed} (BatchResponse_deserialize (span_of bs))"
  by (rule batch_response_safe) simp

text \<open>
  A status is one byte on the wire and its category is lost: it comes back
  unchanged exactly for success and the library's codes from 1 to 255, and an error of any
  category whose value is a multiple of 256 comes back as success.
\<close>

theorem batch_status_exact:
  "(status_of_byte (status_byte ec) = ec \<longleftrightarrow>
      ec = error_code_default \<or> ec_category ec = modbus_category \<and> 0 < ec_value ec \<and> ec_value ec < 256)
   \<and> (ec_bool (status_of_byte (status_byte ec)) \<longleftrightarrow> ec_value ec mod 256 \<noteq> 0)"
proof -
  have u: "uint (word_of_int (ec_value ec) :: byte) = ec_value ec mod 256"
    by (simp add: uint_word_of_int take_bit_eq_mod)
  then have "(word_of_int (ec_value ec) :: byte) = 0 \<longleftrightarrow> ec_value ec mod 256 = 0"
    by (metis uint_0_iff)
  then have "ec_bool (status_of_byte (status_byte ec)) \<longleftrightarrow> ec_value ec mod 256 \<noteq> 0"
    using u by (simp add: status_of_byte_def status_byte_def ec_bool_def error_code_default_def
        make_error_code_def)
  then show ?thesis
    using status_roundtrip [of ec] by (simp add: status_carried_def)
qed

end
