(* ===== verification/Security.thy ===== *)
theory Security
  imports Core_Types Error_Result Timestamps
begin

text \<open>
  Components \<open>security/hmac_auth.cpp\<close>, \<open>security/session.cpp\<close> and
  \<open>security/credential_store.hpp\<close>.

  HMAC-SHA256 is OpenSSL's: the parameter \<open>hmac key data\<close> of every operation that computes a
  digest. A digest is a list of 32 bytes (\<open>digest_size\<close> is the hypothesis that says so), a nonce
  and a token lists of 16. \<open>RAND_bytes\<close> and the clock are arguments of the operations that call
  them; elsewhere a nonce that was drawn is an argument. Timing is not modelled, so of the constant-time comparison only its result is.
\<close>

type_synonym HMACDigest = "byte list"
type_synonym Nonce = "byte list"
type_synonym SessionToken = "byte list"
type_synonym hmac_function = "byte list \<Rightarrow> byte list \<Rightarrow> HMACDigest"

definition digest_size :: "hmac_function \<Rightarrow> bool" where
  "digest_size hmac \<longleftrightarrow> (\<forall>key data. length (hmac key data) = 32)"

section \<open>HMACAuth\<close>

definition HMACAuth_compute :: "hmac_function \<Rightarrow> byte list \<Rightarrow> byte list \<Rightarrow> HMACDigest" where
  "HMACAuth_compute hmac data key = hmac key data"

fun verify_loop :: "HMACDigest \<Rightarrow> HMACDigest \<Rightarrow> nat list \<Rightarrow> byte \<Rightarrow> byte" where
  "verify_loop computed expected [] diff = diff"
| "verify_loop computed expected (i # is) diff =
     verify_loop computed expected is (diff OR (computed ! i XOR expected ! i))"

definition HMACAuth_verify :: "hmac_function \<Rightarrow> byte list \<Rightarrow> byte list \<Rightarrow> HMACDigest \<Rightarrow> bool" where
  "HMACAuth_verify hmac data key expected =
     (let computed = HMACAuth_compute hmac data key in
      verify_loop computed expected [0..<32] 0 = 0)"

text \<open>
  \<open>RAND_bytes\<close> is OpenSSL's: it returns a code and leaves something in the buffer that it is given, under
  a state of its own. The code is not looked at: what the buffer holds is the nonce.
\<close>

definition generate_nonce :: "(byte list \<Rightarrow> 's \<Rightarrow> (int \<times> byte list) \<times> 's) \<Rightarrow> 's \<Rightarrow> Nonce \<times> 's" where
  "generate_nonce rand_bytes s = (case rand_bytes (replicate 16 0) s of ((rc, nonce), s) \<Rightarrow> (nonce, s))"

lemma generate_nonce_failed:
  assumes "\<And>buf s. rand_bytes buf s = ((0, buf), s)"
  shows "generate_nonce rand_bytes s = (replicate 16 0, s)"
  by (simp add: generate_nonce_def assms)

section \<open>Session\<close>

record Session =
  ss_token :: SessionToken
  ss_session_key :: "byte list"
  ss_expiry :: Timestamp
  ss_authenticated :: bool

definition Session_default :: Session where
  "Session_default = \<lparr>ss_token = replicate 16 0, ss_session_key = [], ss_expiry = Timestamp_default,
     ss_authenticated = False\<rparr>"

definition Session_create :: "SessionToken \<Rightarrow> byte list \<Rightarrow> Timestamp \<Rightarrow> Session" where
  "Session_create token session_key expiry = Session_default
     \<lparr>ss_token := token, ss_session_key := session_key, ss_expiry := expiry, ss_authenticated := True\<rparr>"

definition is_expired :: "Timestamp \<Rightarrow> Session \<Rightarrow> bool" where
  "is_expired now s \<longleftrightarrow> now > ss_expiry s"

definition Session_sign :: "hmac_function \<Rightarrow> Session \<Rightarrow> byte list \<Rightarrow> HMACDigest" where
  "Session_sign hmac s pdu_data = HMACAuth_compute hmac pdu_data (ss_session_key s)"

definition Session_verify :: "hmac_function \<Rightarrow> Session \<Rightarrow> byte list \<Rightarrow> HMACDigest \<Rightarrow> bool" where
  "Session_verify hmac s pdu_data digest = HMACAuth_verify hmac pdu_data (ss_session_key s) digest"

fun copy_to :: "byte list \<Rightarrow> nat \<Rightarrow> byte list \<Rightarrow> byte list" where
  "copy_to [] i buf = buf"
| "copy_to (x # xs) i buf = copy_to xs (i + 1) (buf[i := x])"

definition concat_nonces :: "Nonce \<Rightarrow> Nonce \<Rightarrow> byte list" where
  "concat_nonces a b = copy_to b 16 (copy_to a 0 (replicate 32 0))"

definition derive_session_key :: "hmac_function \<Rightarrow> Nonce \<Rightarrow> Nonce \<Rightarrow> byte list \<Rightarrow> byte list" where
  "derive_session_key hmac client_nonce server_nonce shared_secret =
     (let combined = concat_nonces client_nonce server_nonce;
          digest = HMACAuth_compute hmac combined shared_secret in digest)"

definition compute_auth_challenge_response :: "hmac_function \<Rightarrow> Nonce \<Rightarrow> Nonce \<Rightarrow> byte list \<Rightarrow> HMACDigest" where
  "compute_auth_challenge_response hmac client_nonce server_nonce shared_secret =
     (let combined = concat_nonces client_nonce server_nonce in
      HMACAuth_compute hmac combined shared_secret)"

definition compute_auth_response :: "hmac_function \<Rightarrow> Nonce \<Rightarrow> Nonce \<Rightarrow> byte list \<Rightarrow> HMACDigest" where
  "compute_auth_response hmac client_nonce server_nonce shared_secret =
     (let combined = concat_nonces server_nonce client_nonce in
      HMACAuth_compute hmac combined shared_secret)"

section \<open>Credentials\<close>

type_synonym credentials = "unit_id \<rightharpoonup> byte list"

definition add_credential :: "unit_id \<Rightarrow> byte list \<Rightarrow> credentials \<Rightarrow> credentials" where
  "add_credential device_id key keys = keys(device_id \<mapsto> key)"

definition get_key :: "credentials \<Rightarrow> unit_id \<Rightarrow> byte list Result" where
  "get_key keys device_id = (case keys device_id of
     None \<Rightarrow> err AuthenticationFailed
   | Some key \<Rightarrow> Ok key)"

section \<open>Facts\<close>

lemma or_eq_0_iff: "(a OR b :: 'a::len word) = 0 \<longleftrightarrow> a = 0 \<and> b = 0"
  by (auto simp: bit_eq_iff bit_or_iff)

lemma xor_eq_0_iff: "(a XOR b :: 'a::len word) = 0 \<longleftrightarrow> a = b"
  by (auto simp: bit_eq_iff bit_xor_iff)

lemma verify_loop_eq_0:
  "verify_loop computed expected is diff = 0 \<longleftrightarrow> diff = 0 \<and> (\<forall>i\<in>set is. computed ! i = expected ! i)"
  by (induction "is" arbitrary: diff) (auto simp: or_eq_0_iff xor_eq_0_iff)

lemma HMACAuth_verify_iff:
  assumes "digest_size hmac" "length expected = 32"
  shows "HMACAuth_verify hmac data key expected \<longleftrightarrow> expected = HMACAuth_compute hmac data key"
proof -
  have "length (HMACAuth_compute hmac data key) = 32"
    using assms(1) by (simp add: digest_size_def HMACAuth_compute_def)
  then show ?thesis
    using assms(2) by (auto simp: HMACAuth_verify_def verify_loop_eq_0 list_eq_iff_nth_eq)
qed

lemma copy_to_eq:
  "i + length xs \<le> length buf \<Longrightarrow> copy_to xs i buf = take i buf @ xs @ drop (i + length xs) buf"
proof (induction xs arbitrary: i buf)
  case (Cons x xs)
  then have "i < length buf" by simp
  with Cons show ?case by (simp add: upd_conv_take_nth_drop min_def add.commute)
qed simp

lemma concat_nonces_eq:
  assumes "length a = 16" "length b = 16"
  shows "concat_nonces a b = a @ b"
proof -
  have "copy_to a 0 (replicate 32 0) = a @ replicate 16 0"
    using assms by (simp add: copy_to_eq)
  then show ?thesis using assms by (simp add: concat_nonces_def copy_to_eq)
qed

lemma session_key_is_challenge_response:
  "derive_session_key hmac c s k = compute_auth_challenge_response hmac c s k"
  by (simp add: derive_session_key_def compute_auth_challenge_response_def)

text \<open>The credential store returns the last key stored for a device.\<close>

lemma get_key_add:
  "get_key (add_credential d k keys) d' = (if d' = d then Ok k else get_key keys d')"
  by (simp add: get_key_def add_credential_def)

section \<open>Properties\<close>

text \<open>
  The constant-time comparison decides equality of digests: a session accepts
  exactly the digest it would have signed the same data with, and no other digest of the
  right size.
\<close>

theorem session_verify_exact:
  assumes "digest_size hmac" and "length digest = 32"
  shows "Session_verify hmac s pdu_data digest \<longleftrightarrow> digest = Session_sign hmac s pdu_data"
  using HMACAuth_verify_iff [OF assms] by (simp add: Session_verify_def Session_sign_def)

text \<open>A keyed checksum with digests of 32 bytes, to evaluate the model on.\<close>

definition toy_hmac :: hmac_function where
  "toy_hmac key data = (let x = foldl (\<lambda>a b. 3 * a + b) 1 (key @ data) in map (\<lambda>i. x + of_nat i) [0..<32])"

lemma toy_hmac_size: "digest_size toy_hmac"
  by (simp add: digest_size_def toy_hmac_def Let_def)

theorem session_verify_exact_witness:
  "\<not> Session_verify toy_hmac (Session_create (replicate 16 1) [1, 2] (Timestamp 5)) [7]
     (Session_sign toy_hmac (Session_create (replicate 16 1) [1, 3] (Timestamp 5)) [7])"
proof -
  have "length (Session_sign toy_hmac (Session_create (replicate 16 1) [1, 3] (Timestamp 5)) [7]) = 32"
    by (simp add: Session_sign_def HMACAuth_compute_def toy_hmac_def Let_def)
  from session_verify_exact [OF toy_hmac_size this] show ?thesis
    by (simp add: Session_sign_def HMACAuth_compute_def toy_hmac_def Session_create_def Let_def upt_rec)
qed

end
