(* ===== verification/Scanner.thy ===== *)
theory Scanner
  imports Frame_Codec Transport Endian
begin

text \<open>
  Components \<open>discovery/device_info.hpp\<close> and \<open>discovery/scanner.cpp\<close>: probing of unit addresses
  over a transport.

  A probe is \<open>None\<close> where the code reads outside a frame (\<open>unwrap_tcp\<close> on a reply with a zero
  length field). \<open>clock\<close> reads the time off the transport's state. The loop runs on the
  8-bit address as the code's does, with its early exit; it is shown to visit the range.
\<close>

section \<open>Device information\<close>

type_synonym Capability = u32

datatype Capability_name =
    CapNone | CapPipeline | CapPubSub | CapBatchOps | CapHMACAuth | CapTimestamps | CapCompression

fun Capability_value :: "Capability_name \<Rightarrow> Capability" where
  "Capability_value CapNone = 0"
| "Capability_value CapPipeline = push_bit 0 1"
| "Capability_value CapPubSub = push_bit 1 1"
| "Capability_value CapBatchOps = push_bit 2 1"
| "Capability_value CapHMACAuth = push_bit 3 1"
| "Capability_value CapTimestamps = push_bit 4 1"
| "Capability_value CapCompression = push_bit 5 1"

definition capability_or :: "Capability \<Rightarrow> Capability \<Rightarrow> Capability" where
  "capability_or a b = a OR b"

definition capability_and :: "Capability \<Rightarrow> Capability \<Rightarrow> Capability" where
  "capability_and a b = a AND b"

definition has_capability :: "Capability \<Rightarrow> Capability \<Rightarrow> bool" where
  "has_capability caps cap \<longleftrightarrow> capability_and caps cap \<noteq> Capability_value CapNone"

record DeviceInfo =
  di_unit_id :: unit_id
  di_vendor :: string
  di_product_code :: string
  di_firmware_version :: string
  di_supports_extended :: bool
  di_extension_version :: byte
  di_discovered_at :: Timestamp
  di_capabilities :: Capability

definition DeviceInfo_default :: DeviceInfo where
  "DeviceInfo_default = \<lparr>di_unit_id = 0, di_vendor = [], di_product_code = [], di_firmware_version = [],
     di_supports_extended = False, di_extension_version = 0, di_discovered_at = Timestamp_default,
     di_capabilities = Capability_value CapNone\<rparr>"

section \<open>The scanner\<close>

record ScannerConfig =
  sc_scan_timeout :: milliseconds
  sc_range_start :: unit_id
  sc_range_end :: unit_id

definition ScannerConfig_default :: ScannerConfig where
  "ScannerConfig_default = \<lparr>sc_scan_timeout = 500, sc_range_start = 1, sc_range_end = 247\<rparr>"

definition parse_capabilities :: "byte list \<Rightarrow> Capability" where
  "parse_capabilities pl = push_bit 24 (ucast (pl ! 0)) OR push_bit 16 (ucast (pl ! 1))
     OR push_bit 8 (ucast (pl ! 2)) OR ucast (pl ! 3)"

definition apply_discover_response :: "PDU \<Rightarrow> DeviceInfo \<Rightarrow> DeviceInfo" where
  "apply_discover_response resp_pdu info = (case extended_header resp_pdu of
     None \<Rightarrow> info
   | Some h \<Rightarrow>
       if ext_function_code h = ExtendedFunctionCode_value DiscoverResponse then
         let info = info\<lparr>di_supports_extended := True, di_extension_version := 1\<rparr> in
         if length (payload resp_pdu) \<ge> 4 then info\<lparr>di_capabilities := parse_capabilities (payload resp_pdu)\<rparr>
         else info
       else info)"

definition probe_extended :: "'s transport \<Rightarrow> ScannerConfig \<Rightarrow> unit_id \<Rightarrow> DeviceInfo \<Rightarrow> 's
    \<Rightarrow> (DeviceInfo \<times> 's) option" where
  "probe_extended T cfg u info s =
     (let hdr = FrameHeader_default\<lparr>ext_function_code := ExtendedFunctionCode_value Discover\<rparr>;
          ext_pdu = make_extended hdr [] None;
          ext_frame = wrap_tcp u ext_pdu (ucast u + 256) in
      case t_send T ext_frame s of (ext_send, s) \<Rightarrow>
        if \<not> void_has_value ext_send then Some (info, s)
        else (case t_receive T (sc_scan_timeout cfg) s of
            (Err ec, s) \<Rightarrow> Some (info, s)
          | (Ok frame, s) \<Rightarrow>
              (case unwrap_tcp (span_of frame) of
                 None \<Rightarrow> None
               | Some (Err ec) \<Rightarrow> Some (info, s)
               | Some (Ok (uid, resp_pdu, txn)) \<Rightarrow> Some (apply_discover_response resp_pdu info, s))))"

definition probe :: "'s transport \<Rightarrow> ('s \<Rightarrow> Timestamp) \<Rightarrow> ScannerConfig \<Rightarrow> unit_id \<Rightarrow> 's
    \<Rightarrow> (DeviceInfo Result \<times> 's) option" where
  "probe T clock cfg u s =
     (let pdu = make_standard (FunctionCode_value ReadHoldingRegisters) [0x00, 0x00, 0x00, 0x01];
          frame = wrap_tcp u pdu (ucast u) in
      case t_send T frame s of (send_result, s) \<Rightarrow>
        if \<not> void_has_value send_result then Some (Err (vr_ec send_result), s)
        else (case t_receive T (sc_scan_timeout cfg) s of
            (Err ec, s) \<Rightarrow> Some (Err ec, s)
          | (Ok reply, s) \<Rightarrow>
              (case probe_extended T cfg u (DeviceInfo_default\<lparr>di_unit_id := u, di_discovered_at := clock s\<rparr>) s of
                 None \<Rightarrow> None
               | Some (info, s) \<Rightarrow> Some (Ok info, s))))"

lemma unat_Suc_less:
  assumes "(i :: 'a::len word) < j"
  shows "unat (i + 1) = unat i + 1"
proof -
  have "unat i < unat j" using assms by (simp add: word_less_nat_alt)
  moreover have "unat j < 2 ^ LENGTH('a)" by (rule unsigned_less)
  ultimately have "Suc (unat i) < 2 ^ LENGTH('a)" by linarith
  then show ?thesis by (simp add: unat_word_ariths)
qed

lemma scan_measure:
  "(i :: unit_id) \<le> e \<Longrightarrow> i \<noteq> e \<Longrightarrow> unat e - unat (i + 1) < unat e - unat i"
  using unat_Suc_less [of i e] by (simp add: word_less_nat_alt word_le_nat_alt word_unat_eq_iff)

function scan_loop :: "'s transport \<Rightarrow> ('s \<Rightarrow> Timestamp) \<Rightarrow> ScannerConfig \<Rightarrow> unit_id \<Rightarrow> DeviceInfo list \<Rightarrow> 's
    \<Rightarrow> (DeviceInfo list \<times> 's) option" where
  "scan_loop T clock cfg i devices s =
     (if i \<le> sc_range_end cfg then
        (case probe T clock cfg i s of
           None \<Rightarrow> None
         | Some (r, s) \<Rightarrow>
             (let devices = (case r of Ok info \<Rightarrow> devices @ [info] | Err ec \<Rightarrow> devices) in
              if i = sc_range_end cfg then Some (devices, s)
              else scan_loop T clock cfg (i + 1) devices s))
      else Some (devices, s))"
  by pat_completeness auto
termination
  by (relation "measure (\<lambda>(T, clock, cfg, i, devices, s). unat (sc_range_end cfg) - unat i)")
    (auto simp: scan_measure)

declare scan_loop.simps [simp del]

definition scan :: "'s transport \<Rightarrow> ('s \<Rightarrow> Timestamp) \<Rightarrow> ScannerConfig \<Rightarrow> 's \<Rightarrow> (DeviceInfo list \<times> 's) option" where
  "scan T clock cfg s = scan_loop T clock cfg (sc_range_start cfg) [] s"

text \<open>
  \<open>scan_async\<close> with a callback \<open>on_found\<close> that can be called: the code checks only \<open>on_complete\<close> for
  emptiness, and an empty \<open>on_found\<close> would throw at the first device found.
\<close>

datatype scan_call = OnFound DeviceInfo | OnComplete

function scan_async_loop :: "'s transport \<Rightarrow> ('s \<Rightarrow> Timestamp) \<Rightarrow> ScannerConfig \<Rightarrow> unit_id \<Rightarrow> scan_call list \<Rightarrow> 's
    \<Rightarrow> (scan_call list \<times> 's) option" where
  "scan_async_loop T clock cfg i calls s =
     (if i \<le> sc_range_end cfg then
        (case probe T clock cfg i s of
           None \<Rightarrow> None
         | Some (r, s) \<Rightarrow>
             (let calls = (case r of Ok info \<Rightarrow> calls @ [OnFound info] | Err ec \<Rightarrow> calls) in
              if i = sc_range_end cfg then Some (calls, s)
              else scan_async_loop T clock cfg (i + 1) calls s))
      else Some (calls, s))"
  by pat_completeness auto
termination
  by (relation "measure (\<lambda>(T, clock, cfg, i, calls, s). unat (sc_range_end cfg) - unat i)")
    (auto simp: scan_measure)

declare scan_async_loop.simps [simp del]

definition scan_async :: "'s transport \<Rightarrow> ('s \<Rightarrow> Timestamp) \<Rightarrow> ScannerConfig \<Rightarrow> bool \<Rightarrow> 's
    \<Rightarrow> (scan_call list \<times> 's) option" where
  "scan_async T clock cfg has_on_complete s =
     (case scan_async_loop T clock cfg (sc_range_start cfg) [] s of
        None \<Rightarrow> None
      | Some (calls, s) \<Rightarrow> Some (calls @ (if has_on_complete then [OnComplete] else []), s))"

section \<open>The loop visits the range once\<close>

text \<open>The reference: probe a list of addresses and collect the devices that answered.\<close>

fun probe_all :: "'s transport \<Rightarrow> ('s \<Rightarrow> Timestamp) \<Rightarrow> ScannerConfig \<Rightarrow> unit_id list \<Rightarrow> 's
    \<Rightarrow> (DeviceInfo list \<times> 's) option" where
  "probe_all T clock cfg [] s = Some ([], s)"
| "probe_all T clock cfg (u # us) s = (case probe T clock cfg u s of
     None \<Rightarrow> None
   | Some (r, s) \<Rightarrow> (case probe_all T clock cfg us s of
       None \<Rightarrow> None
     | Some (infos, s) \<Rightarrow> Some ((case r of Ok info \<Rightarrow> [info] | Err ec \<Rightarrow> []) @ infos, s)))"

definition range_addresses :: "unit_id \<Rightarrow> unit_id \<Rightarrow> unit_id list" where
  "range_addresses a b = map of_nat [unat a..<unat b + 1]"

lemma range_addresses_empty: "\<not> a \<le> b \<Longrightarrow> range_addresses a b = []"
  by (simp add: range_addresses_def word_le_nat_alt)

lemma range_addresses_single: "range_addresses a a = [a]"
  by (simp add: range_addresses_def)

lemma range_addresses_Cons: "a < b \<Longrightarrow> range_addresses a b = a # range_addresses (a + 1) b"
  using unat_Suc_less [of a b]
  by (simp add: range_addresses_def word_less_nat_alt upt_conv_Cons)

lemma scan_loop_eq:
  "scan_loop T clock cfg i devices s =
     map_option (\<lambda>(infos, s). (devices @ infos, s)) (probe_all T clock cfg (range_addresses i (sc_range_end cfg)) s)"
proof (induction T clock cfg i devices s rule: scan_loop.induct)
  case (1 T clock cfg i devices s)
  consider "\<not> i \<le> sc_range_end cfg" | "i = sc_range_end cfg" | "i < sc_range_end cfg"
    by fastforce
  then show ?case
  proof cases
    case 3
    then have "i \<le> sc_range_end cfg" "i \<noteq> sc_range_end cfg" by auto
    with 3 1 show ?thesis
      by (subst scan_loop.simps)
        (auto simp: range_addresses_Cons Let_def option.map_comp o_def split: option.split Result.split
          intro!: map_option_cong)
  qed (auto simp: scan_loop.simps [of T clock cfg] range_addresses_empty range_addresses_single
      split: option.split Result.split)
qed

lemma scan_async_loop_eq:
  "scan_async_loop T clock cfg i (map OnFound devices) s =
     map_option (\<lambda>(infos, s). (map OnFound infos, s)) (scan_loop T clock cfg i devices s)"
proof (induction T clock cfg i devices s rule: scan_loop.induct)
  case (1 T clock cfg i devices s)
  have snoc: "map OnFound devices @ [OnFound info] = map OnFound (devices @ [info])" for info
    by simp
  have IH: "scan_async_loop T clock cfg (i + 1) (map OnFound (case r of Ok info \<Rightarrow> devices @ [info] | Err ec \<Rightarrow> devices)) s'
      = map_option (\<lambda>(infos, s). (map OnFound infos, s))
          (scan_loop T clock cfg (i + 1) (case r of Ok info \<Rightarrow> devices @ [info] | Err ec \<Rightarrow> devices) s')"
    if "i \<le> sc_range_end cfg" "i \<noteq> sc_range_end cfg" "probe T clock cfg i s = Some (r, s')" for r s'
    using 1 [OF that(1,3) refl refl that(2)] .
  show ?case
    by (subst scan_loop.simps, subst scan_async_loop.simps)
      (use IH [of "Ok info" for info] IH [of "Err ec" for ec] in \<open>auto simp: Let_def snoc simp del: map_append split: option.split Result.split\<close>)
qed

lemma set_range_addresses: "set (range_addresses a b) = {a..b}"
proof (intro set_eqI iffI)
  fix x assume "x \<in> {a..b}"
  then have "x = of_nat (unat x)" "unat x \<in> set [unat a..<unat b + 1]"
    by (auto simp: word_le_nat_alt)
  then show "x \<in> set (range_addresses a b)"
    unfolding range_addresses_def by (metis image_eqI list.set_map)
next
  fix x assume "x \<in> set (range_addresses a b)"
  then obtain n where n: "x = of_nat n" "unat a \<le> n" "n \<le> unat b"
    by (auto simp: range_addresses_def)
  have "unat b < 2 ^ 8" using unsigned_less [of b] by simp
  with n have "unat x = n" by (simp add: unat_of_nat take_bit_nat_eq_self_iff)
  with n show "x \<in> {a..b}" by (simp add: word_le_nat_alt)
qed

lemma distinct_range_addresses: "distinct (range_addresses a b)"
proof -
  have "inj_on (of_nat :: nat \<Rightarrow> unit_id) {unat a..<unat b + 1}"
  proof (rule inj_onI)
    fix m n assume mn: "m \<in> {unat a..<unat b + 1}" "n \<in> {unat a..<unat b + 1}" "(of_nat m :: unit_id) = of_nat n"
    have "unat b < 2 ^ 8" using unsigned_less [of b] by simp
    with mn show "m = n"
      by (auto simp: word_of_nat_eq_iff take_bit_nat_eq_self_iff[THEN iffD2])
  qed
  then show ?thesis by (simp only: range_addresses_def distinct_map distinct_upt set_upt)
qed

section \<open>Properties\<close>

text \<open>
  Property C29. A scan visits every address of its range exactly once, in ascending order,
  and ends, also when the range ends at the last 8-bit address, where the increment would wrap; it collects the
  devices in the order they answer, and \<open>scan_async\<close> reports the same devices in the same
  order, then the completion.
\<close>

theorem scan_probes_range:
  "scan T clock cfg s = probe_all T clock cfg (range_addresses (sc_range_start cfg) (sc_range_end cfg)) s
   \<and> set (range_addresses a b) = {a..b} \<and> distinct (range_addresses a b)
   \<and> scan_async T clock cfg notify s =
       map_option (\<lambda>(devices, s). (map OnFound devices @ (if notify then [OnComplete] else []), s)) (scan T clock cfg s)"
  using scan_loop_eq [of T clock cfg "sc_range_start cfg" "[]" s]
    scan_async_loop_eq [of T clock cfg "sc_range_start cfg" "[]" s]
  by (auto simp: scan_def scan_async_def set_range_addresses distinct_range_addresses option.map_comp
      option.map_ident split: option.split prod.split)

definition discover_request :: "unit_id \<Rightarrow> byte list" where
  "discover_request u = wrap_tcp u (make_extended
     (FrameHeader_default\<lparr>ext_function_code := ExtendedFunctionCode_value Discover\<rparr>) [] None) (ucast u + 256)"

definition probe_request :: "unit_id \<Rightarrow> byte list" where
  "probe_request u = wrap_tcp u (make_standard (FunctionCode_value ReadHoldingRegisters) [0, 0, 0, 1]) (ucast u)"

definition discover_response :: "Capability \<Rightarrow> byte list \<Rightarrow> PDU" where
  "discover_response caps rest = make_extended
     (FrameHeader_default\<lparr>ext_function_code := ExtendedFunctionCode_value DiscoverResponse\<rparr>)
     (to_big_endian_bytes caps @ rest) None"

lemma discover_response_wf:
  assumes "length rest < 65000"
  shows "PDU_wf (discover_response caps rest)" "1 + length (PDU_serialize (discover_response caps rest)) < 2 ^ 16"
  using make_extended_carried [of "FrameHeader_default\<lparr>ext_function_code := ExtendedFunctionCode_value DiscoverResponse\<rparr>"
    "to_big_endian_bytes caps @ rest" None] assms
  by (simp_all add: discover_response_def FrameHeader_default_def)

lemma parse_capabilities_bytes: "parse_capabilities (to_big_endian_bytes caps @ rest) = caps"
  by (simp add: parse_capabilities_def to_big_endian_bytes32 bytes32_def be_simps flip: be32_def)

lemma apply_discover_response_caps:
  "apply_discover_response (discover_response caps rest) info =
     info\<lparr>di_supports_extended := True, di_extension_version := 1, di_capabilities := caps\<rparr>"
  by (simp add: apply_discover_response_def discover_response_def make_extended_header parse_capabilities_bytes)

text \<open>
  What a probe reports: any reply at all to the first request makes the device
  alive, under the probed address, whatever the reply's bytes, unit or transaction; and when the reply
  to the second request is a discover response, of any unit and transaction, the capabilities
  are the big-endian word at the start of its payload.
\<close>

theorem probe_reads_capabilities:
  assumes "t_send T (probe_request u) s = (void_ok, s1)"
    and "t_receive T (sc_scan_timeout cfg) s1 = (Ok junk, s2)"
    and "t_send T (discover_request u) s2 = (void_ok, s3)"
    and "t_receive T (sc_scan_timeout cfg) s3 = (Ok (wrap_tcp u' (discover_response caps rest) txn), s4)"
    and "length rest < 65000"
  shows "probe T clock cfg u s = Some (Ok (DeviceInfo_default\<lparr>di_unit_id := u, di_supports_extended := True,
    di_extension_version := 1, di_discovered_at := clock s2, di_capabilities := caps\<rparr>), s4)"
  using assms(1-4) tcp_roundtrip [OF discover_response_wf [OF assms(5)], of u' caps txn "[]"]
  by (simp add: probe_def probe_extended_def probe_request_def discover_request_def Let_def
      apply_discover_response_caps)

definition scripted_transport :: "frame list transport" where
  "scripted_transport = \<lparr>t_send = (\<lambda>f s. (void_ok, s)),
     t_receive = (\<lambda>timeout s. case s of [] \<Rightarrow> (err TimeoutExpired, []) | f # fs \<Rightarrow> (Ok f, fs)),
     t_connect = (\<lambda>s. (void_ok, s)), t_disconnect = (\<lambda>s. s), t_is_connected = (\<lambda>s. True),
     t_transport_name = ''scripted''\<rparr>"

theorem probe_reads_capabilities_witness:
  "probe scripted_transport (\<lambda>_. Timestamp 9) ScannerConfig_default 5
     [[0xFF], wrap_tcp 77 (discover_response (capability_or (Capability_value CapPipeline) (Capability_value CapTimestamps)) [1]) 3]
   = Some (Ok (DeviceInfo_default\<lparr>di_unit_id := 5, di_supports_extended := True, di_extension_version := 1,
       di_discovered_at := Timestamp 9, di_capabilities := 17\<rparr>), [])"
proof -
  have caps: "capability_or (Capability_value CapPipeline) (Capability_value CapTimestamps) = 17"
    by (simp add: capability_or_def)
  show ?thesis unfolding caps
    by (rule probe_reads_capabilities [where ?s2.0 = "[wrap_tcp 77 (discover_response 17 [1]) 3]"
          and junk = "[0xFF]" and u' = 77 and rest = "[1]" and txn = 3])
      (simp_all only: scripted_transport_def transport.simps, simp_all)
qed

end
