(* ===== verification/Pipeline.thy ===== *)
theory Pipeline
  imports Pdu Transport "HOL-Library.Multiset"
begin

text \<open>
  Components \<open>pipeline/correlation_id.hpp\<close>, \<open>pipeline/request_queue.hpp\<close> and
  \<open>pipeline/pipeline.cpp\<close>: several requests in flight, matched to responses by correlation ID.

  A callback is an identifier of type \<open>'cb\<close>; an operation that runs callbacks returns the list
  of the calls it makes, in order (a null callback is \<open>None\<close> and makes none). The
  \<open>unordered_map\<close> of pending requests is a list without duplicate IDs whose order stands for
  the unspecified iteration order; \<open>clock\<close> reads the time off the transport's state. Mutexes
  make every operation of the queue atomic.
\<close>

section \<open>Correlation IDs\<close>

type_synonym CorrelationID = u16

definition CorrelationID_next :: "CorrelationID \<Rightarrow> CorrelationID \<times> CorrelationID" where
  "CorrelationID_next counter = (counter, counter + 1)"

section \<open>The request queue\<close>

record 'cb PendingRequest =
  pr_id :: CorrelationID
  pr_request :: PDU
  pr_sent_at :: Timestamp
  pr_timeout :: milliseconds
  pr_callback :: "'cb option"

record 'cb RequestQueue =
  rq_pending :: "'cb PendingRequest list"
  rq_max_size :: nat

definition RequestQueue_default :: "'cb RequestQueue" where
  "RequestQueue_default = \<lparr>rq_pending = [], rq_max_size = 0\<rparr>"

definition set_max_size :: "nat \<Rightarrow> 'cb RequestQueue \<Rightarrow> 'cb RequestQueue" where
  "set_max_size m q = q\<lparr>rq_max_size := m\<rparr>"

definition rq_size :: "'cb RequestQueue \<Rightarrow> nat" where
  "rq_size q = length (rq_pending q)"

definition rq_empty :: "'cb RequestQueue \<Rightarrow> bool" where
  "rq_empty q \<longleftrightarrow> rq_pending q = []"

text \<open>\<open>emplace\<close> does nothing when the key is present; \<open>insert\<close> returns true all the same.\<close>

definition rq_insert :: "'cb PendingRequest \<Rightarrow> 'cb RequestQueue \<Rightarrow> bool \<times> 'cb RequestQueue" where
  "rq_insert req q =
     (if rq_max_size q > 0 \<and> length (rq_pending q) \<ge> rq_max_size q then (False, q)
      else if pr_id req \<in> set (map pr_id (rq_pending q)) then (True, q)
      else (True, q\<lparr>rq_pending := rq_pending q @ [req]\<rparr>))"

definition rq_remove :: "CorrelationID \<Rightarrow> 'cb RequestQueue \<Rightarrow> 'cb PendingRequest option \<times> 'cb RequestQueue" where
  "rq_remove cid q = (case find (\<lambda>r. pr_id r = cid) (rq_pending q) of
     None \<Rightarrow> (None, q)
   | Some req \<Rightarrow> (Some req, q\<lparr>rq_pending := filter (\<lambda>r. pr_id r \<noteq> cid) (rq_pending q)\<rparr>))"

text \<open>The arithmetic on \<open>int64_t\<close> microseconds is that of integers in the range of real clocks.\<close>

definition request_expired :: "Timestamp \<Rightarrow> 'cb PendingRequest \<Rightarrow> bool" where
  "request_expired now r \<longleftrightarrow>
     epoch_microseconds now - epoch_microseconds (pr_sent_at r) > pr_timeout r * 1000"

fun remove_expired_loop ::
  "Timestamp \<Rightarrow> 'cb PendingRequest list \<Rightarrow> 'cb PendingRequest list \<times> 'cb PendingRequest list" where
  "remove_expired_loop now [] = ([], [])"
| "remove_expired_loop now (r # rs) = (case remove_expired_loop now rs of (expired, kept) \<Rightarrow>
     if request_expired now r then (r # expired, kept) else (expired, r # kept))"

definition rq_remove_expired ::
  "Timestamp \<Rightarrow> 'cb RequestQueue \<Rightarrow> 'cb PendingRequest list \<times> 'cb RequestQueue" where
  "rq_remove_expired now q = (case remove_expired_loop now (rq_pending q) of (expired, kept) \<Rightarrow>
     (expired, q\<lparr>rq_pending := kept\<rparr>))"

definition rq_cancel :: "CorrelationID \<Rightarrow> 'cb RequestQueue \<Rightarrow> bool \<times> 'cb RequestQueue" where
  "rq_cancel cid q =
     (cid \<in> set (map pr_id (rq_pending q)), q\<lparr>rq_pending := filter (\<lambda>r. pr_id r \<noteq> cid) (rq_pending q)\<rparr>)"

section \<open>The pipeline\<close>

record PipelineConfig =
  pc_max_in_flight :: u16
  pc_default_timeout :: milliseconds

definition PipelineConfig_default :: PipelineConfig where
  "PipelineConfig_default = \<lparr>pc_max_in_flight = 16, pc_default_timeout = 1000\<rparr>"

record 'cb pipeline =
  pl_config :: PipelineConfig
  pl_queue :: "'cb RequestQueue"
  pl_counter :: CorrelationID
  pl_total_completed :: u64
  pl_total_latency_us :: u64

definition Pipeline :: "PipelineConfig \<Rightarrow> 'cb pipeline" where
  "Pipeline config = \<lparr>pl_config = config,
     pl_queue = set_max_size (unat (pc_max_in_flight config)) RequestQueue_default,
     pl_counter = 1, pl_total_completed = 0, pl_total_latency_us = 0\<rparr>"

text \<open>What \<open>submit\<close> sends for a request: the request under a new correlation ID, or wrapped.\<close>

definition pipeline_wrap :: "CorrelationID \<Rightarrow> PDU \<Rightarrow> PDU" where
  "pipeline_wrap corr_id request = (case extended_header request of
     Some h \<Rightarrow> make_extended (h\<lparr>correlation_id := corr_id\<rparr>) (payload request) (hmac request)
   | None \<Rightarrow> make_extended (FrameHeader_default\<lparr>correlation_id := corr_id,
         ext_function_code := ExtendedFunctionCode_value PipelineBegin\<rparr>) (PDU_serialize request) None)"

definition pipeline_submit :: "'s transport \<Rightarrow> ('s \<Rightarrow> Timestamp) \<Rightarrow> PDU \<Rightarrow> 'cb option \<Rightarrow> milliseconds
    \<Rightarrow> 'cb pipeline \<Rightarrow> 's \<Rightarrow> CorrelationID Result \<times> 'cb pipeline \<times> 's" where
  "pipeline_submit T clock request callback timeout p s =
     (let timeout = (if timeout = 0 then pc_default_timeout (pl_config p) else timeout) in
      case CorrelationID_next (pl_counter p) of (corr_id, counter) \<Rightarrow>
        let p = p\<lparr>pl_counter := counter\<rparr>;
            pending = \<lparr>pr_id = corr_id, pr_request = pipeline_wrap corr_id request,
              pr_sent_at = clock s, pr_timeout = timeout, pr_callback = callback\<rparr>;
            send_bytes = PDU_serialize (pr_request pending) in
        (case t_send T send_bytes s of (send_result, s) \<Rightarrow>
           if \<not> void_has_value send_result then (Err (vr_ec send_result), p, s)
           else (case rq_insert pending (pl_queue p) of
               (False, q) \<Rightarrow> (err PipelineOverflow, p\<lparr>pl_queue := q\<rparr>, s)
             | (True, q) \<Rightarrow> (Ok corr_id, p\<lparr>pl_queue := q\<rparr>, s))))"

definition run_callback :: "'cb option \<Rightarrow> PDU Result \<Rightarrow> ('cb \<times> PDU Result) list" where
  "run_callback cb r = (case cb of None \<Rightarrow> [] | Some c \<Rightarrow> [(c, r)])"

text \<open>\<open>poll\<close> from the point where a PDU has been parsed: match, account, dispatch, expire.\<close>

definition pipeline_dispatch :: "Timestamp \<Rightarrow> Timestamp \<Rightarrow> PDU \<Rightarrow> 'cb pipeline
    \<Rightarrow> ('cb \<times> PDU Result) list \<times> 'cb pipeline" where
  "pipeline_dispatch now1 now2 pdu p =
     (let corr_id = (case extended_header pdu of Some h \<Rightarrow> correlation_id h | None \<Rightarrow> 0) in
      (case rq_remove corr_id (pl_queue p) of
         (None, q) \<Rightarrow> ([], p\<lparr>pl_queue := q\<rparr>)
       | (Some pending, q) \<Rightarrow>
           let latency_us = word_of_int (epoch_microseconds now1 - epoch_microseconds (pr_sent_at pending));
               p = p\<lparr>pl_total_completed := pl_total_completed p + 1,
                     pl_total_latency_us := pl_total_latency_us p + latency_us\<rparr>;
               calls = run_callback (pr_callback pending) (Ok pdu) in
           (case rq_remove_expired now2 q of (expired, q) \<Rightarrow>
              (calls @ concat (map (\<lambda>req. run_callback (pr_callback req) (err TimeoutExpired)) expired),
               p\<lparr>pl_queue := q\<rparr>))))"

definition pipeline_poll :: "'s transport \<Rightarrow> ('s \<Rightarrow> Timestamp) \<Rightarrow> 'cb pipeline \<Rightarrow> 's
    \<Rightarrow> (('cb \<times> PDU Result) list \<times> 'cb pipeline \<times> 's) option" where
  "pipeline_poll T clock p s =
     (case t_receive T 0 s of
        (Err ec, s) \<Rightarrow> Some ([], p, s)
      | (Ok frame, s) \<Rightarrow>
          (case PDU_deserialize (span_of frame) of
             None \<Rightarrow> None
           | Some (Err ec) \<Rightarrow> Some ([], p, s)
           | Some (Ok pdu) \<Rightarrow>
               (case pipeline_dispatch (clock s) (clock s) pdu p of (calls, p) \<Rightarrow> Some (calls, p, s))))"

definition pipeline_cancel :: "CorrelationID \<Rightarrow> 'cb pipeline \<Rightarrow> bool \<times> 'cb pipeline" where
  "pipeline_cancel cid p = (case rq_cancel cid (pl_queue p) of (b, q) \<Rightarrow> (b, p\<lparr>pl_queue := q\<rparr>))"

definition in_flight_count :: "'cb pipeline \<Rightarrow> nat" where
  "in_flight_count p = rq_size (pl_queue p)"

definition completed_count :: "'cb pipeline \<Rightarrow> u64" where
  "completed_count p = pl_total_completed p"

definition average_latency :: "'cb pipeline \<Rightarrow> u64" where
  "average_latency p =
     (if pl_total_completed p = 0 then 0 else pl_total_latency_us p div pl_total_completed p)"

text \<open>
  \<open>submit_sync\<close>: its callback \<open>tok\<close> stores the result; the loop polls until it has been called
  or the deadline has passed. Callbacks of other requests that a poll runs meanwhile are
  collected. \<open>elapse\<close> is the wait of one millisecond. One clock stands for both clocks of the
  code: the steady one that the deadline is read from and the system one of \<open>sent_at\<close>.
\<close>

partial_function (option) pipeline_sync_loop :: "'s transport \<Rightarrow> ('s \<Rightarrow> Timestamp) \<Rightarrow> ('s \<Rightarrow> 's)
    \<Rightarrow> int \<Rightarrow> CorrelationID \<Rightarrow> 'cb \<Rightarrow> ('cb \<times> PDU Result) list \<times> 'cb pipeline \<times> 's
    \<Rightarrow> (PDU Result \<times> ('cb \<times> PDU Result) list \<times> 'cb pipeline \<times> 's) option" where
  "pipeline_sync_loop T clock elapse deadline cid tok st =
     (case st of (others, p, s) \<Rightarrow>
     (case pipeline_poll T clock p s of
        None \<Rightarrow> None
      | Some (calls, p, s) \<Rightarrow>
          (let mine = filter (\<lambda>c. fst c = tok) calls;
               others = others @ filter (\<lambda>c. fst c \<noteq> tok) calls in
           if mine \<noteq> [] then Some (snd (last mine), others, p, s)
           else if epoch_microseconds (clock (elapse s)) \<ge> deadline
           then Some (err TimeoutExpired, others, snd (pipeline_cancel cid p), elapse s)
           else pipeline_sync_loop T clock elapse deadline cid tok (others, p, elapse s))))"

definition pipeline_submit_sync :: "'s transport \<Rightarrow> ('s \<Rightarrow> Timestamp) \<Rightarrow> ('s \<Rightarrow> 's) \<Rightarrow> PDU \<Rightarrow> milliseconds
    \<Rightarrow> 'cb \<Rightarrow> 'cb pipeline \<Rightarrow> 's \<Rightarrow> (PDU Result \<times> ('cb \<times> PDU Result) list \<times> 'cb pipeline \<times> 's) option" where
  "pipeline_submit_sync T clock elapse request timeout tok p s =
     (case pipeline_submit T clock request (Some tok) timeout p s of
        (Err ec, p, s) \<Rightarrow> Some (Err ec, [], p, s)
      | (Ok cid, p, s) \<Rightarrow>
          pipeline_sync_loop T clock elapse (epoch_microseconds (clock s) + timeout * 1000) cid tok ([], p, s))"

section \<open>The queue\<close>

lemma remove_expired_loop_eq:
  "remove_expired_loop now rs = (filter (request_expired now) rs, filter (\<lambda>r. \<not> request_expired now r) rs)"
  by (induction rs) auto

definition rq_inv :: "'cb RequestQueue \<Rightarrow> bool" where
  "rq_inv q \<longleftrightarrow> distinct (map pr_id (rq_pending q))
     \<and> (0 < rq_max_size q \<longrightarrow> length (rq_pending q) \<le> rq_max_size q)"

lemma rq_inv_insert: "rq_inv q \<Longrightarrow> rq_inv (snd (rq_insert r q))"
  by (auto simp: rq_inv_def rq_insert_def)

lemma rq_inv_filter:
  "rq_inv q \<Longrightarrow> rq_inv (q\<lparr>rq_pending := filter P (rq_pending q)\<rparr>)"
  by (auto simp: rq_inv_def distinct_map_filter intro: order.trans [OF length_filter_le])

lemma rq_inv_remove: "rq_inv q \<Longrightarrow> rq_inv (snd (rq_remove cid q))"
  by (simp add: rq_remove_def rq_inv_filter split: option.split)

lemma rq_inv_remove_expired: "rq_inv q \<Longrightarrow> rq_inv (snd (rq_remove_expired now q))"
  by (simp add: rq_remove_expired_def remove_expired_loop_eq rq_inv_filter)

lemma rq_inv_cancel: "rq_inv q \<Longrightarrow> rq_inv (snd (rq_cancel cid q))"
  by (simp add: rq_cancel_def rq_inv_filter)

text \<open>Every operation splits the pending requests into those it takes and those it leaves.\<close>

lemma mset_filter_split: "mset xs = mset (filter P xs) + mset (filter (\<lambda>x. \<not> P x) xs)"
  by (metis mset_filter multiset_partition)

lemma distinct_key_filter:
  "distinct (map f xs) \<Longrightarrow> x \<in> set xs \<Longrightarrow> f x = k \<Longrightarrow> filter (\<lambda>y. f y = k) xs = [x]"
proof (induction xs)
  case (Cons a xs)
  show ?case
  proof (cases "x = a")
    case True
    then have "filter (\<lambda>y. f y = k) xs = []"
      using Cons.prems by (auto simp: filter_empty_conv image_iff)
    then show ?thesis using True Cons.prems by simp
  next
    case False
    then have "f a \<noteq> k" using Cons.prems by (auto simp: image_iff)
    then show ?thesis using Cons False by simp
  qed
qed simp

lemma rq_remove_mset:
  assumes "rq_inv q" "rq_remove cid q = (ro, q')"
  shows "mset (rq_pending q) = (case ro of None \<Rightarrow> {#} | Some r \<Rightarrow> {#r#}) + mset (rq_pending q')
    \<and> (case ro of None \<Rightarrow> cid \<notin> set (map pr_id (rq_pending q)) | Some r \<Rightarrow> pr_id r = cid \<and> r \<in> set (rq_pending q))"
proof (cases "find (\<lambda>r. pr_id r = cid) (rq_pending q)")
  case None
  then have "cid \<notin> set (map pr_id (rq_pending q))" by (auto simp: find_None_iff)
  then show ?thesis using assms(2) None by (auto simp: rq_remove_def)
next
  case (Some r)
  then have r: "r \<in> set (rq_pending q)" "pr_id r = cid"
    by (auto simp: find_Some_iff)
  have "distinct (map pr_id (rq_pending q))" using assms(1) by (simp add: rq_inv_def)
  then have "filter (\<lambda>x. pr_id x = cid) (rq_pending q) = [r]"
    using r by (rule distinct_key_filter)
  moreover have "ro = Some r" "rq_pending q' = filter (\<lambda>r. pr_id r \<noteq> cid) (rq_pending q)"
    using assms(2) Some by (auto simp: rq_remove_def)
  ultimately show ?thesis
    using r mset_filter_split [of "rq_pending q" "\<lambda>x. pr_id x = cid"] by simp
qed

section \<open>Executions\<close>

text \<open>
  One step is an operation of the pipeline or anything that happens outside it to the
  transport and the clock. The events name the callbacks concerned.
\<close>

datatype 'cb pl_event =
    EvSubmit "'cb option" "CorrelationID Result"
  | EvPoll "('cb \<times> PDU Result) list"
  | EvCancel "'cb option list" bool
  | EvOutside

inductive pl_step :: "'s transport \<Rightarrow> ('s \<Rightarrow> Timestamp) \<Rightarrow> 'cb pipeline \<times> 's \<Rightarrow> 'cb pl_event \<Rightarrow> 'cb pipeline \<times> 's \<Rightarrow> bool"
  for T clock where
  submit: "pipeline_submit T clock request cb timeout p s = (r, p', s') \<Longrightarrow>
    pl_step T clock (p, s) (EvSubmit cb r) (p', s')"
| poll: "pipeline_poll T clock p s = Some (calls, p', s') \<Longrightarrow>
    pl_step T clock (p, s) (EvPoll calls) (p', s')"
| cancel: "pipeline_cancel cid p = (b, p') \<Longrightarrow>
    cbs = map pr_callback (filter (\<lambda>r. pr_id r = cid) (rq_pending (pl_queue p))) \<Longrightarrow>
    pl_step T clock (p, s) (EvCancel cbs b) (p', s)"
| outside: "pl_step T clock (p, s) EvOutside (p, s')"

inductive pl_trace :: "'s transport \<Rightarrow> ('s \<Rightarrow> Timestamp) \<Rightarrow> 'cb pipeline \<times> 's \<Rightarrow> 'cb pl_event list \<Rightarrow> 'cb pipeline \<times> 's \<Rightarrow> bool"
  for T clock where
  nil: "pl_trace T clock st [] st"
| snoc: "pl_trace T clock st es st1 \<Longrightarrow> pl_step T clock st1 e st2 \<Longrightarrow> pl_trace T clock st (es @ [e]) st2"

inductive_cases pl_step_submitE: "pl_step T clock st (EvSubmit cb r) st'"
inductive_cases pl_step_pollE: "pl_step T clock st (EvPoll calls) st'"
inductive_cases pl_step_cancelE: "pl_step T clock st (EvCancel cbs b) st'"

definition some_cbs :: "'cb option list \<Rightarrow> 'cb multiset" where
  "some_cbs cbs = mset (concat (map (\<lambda>c. case c of None \<Rightarrow> [] | Some x \<Rightarrow> [x]) cbs))"

fun accepted_cbs :: "'cb pl_event \<Rightarrow> 'cb multiset" where
  "accepted_cbs (EvSubmit cb (Ok cid)) = some_cbs [cb]"
| "accepted_cbs _ = {#}"

fun called_cbs :: "'cb pl_event \<Rightarrow> 'cb multiset" where
  "called_cbs (EvPoll calls) = mset (map fst calls)"
| "called_cbs _ = {#}"

fun cancelled_cbs :: "'cb pl_event \<Rightarrow> 'cb multiset" where
  "cancelled_cbs (EvCancel cbs b) = some_cbs cbs"
| "cancelled_cbs _ = {#}"

fun is_submit :: "'cb pl_event \<Rightarrow> bool" where
  "is_submit (EvSubmit cb r) = True"
| "is_submit _ = False"

definition total_cbs :: "('e \<Rightarrow> 'cb multiset) \<Rightarrow> 'e list \<Rightarrow> 'cb multiset" where
  "total_cbs f es = sum_list (map f es)"

definition pending_cbs :: "'cb pipeline \<Rightarrow> 'cb multiset" where
  "pending_cbs p = some_cbs (map pr_callback (rq_pending (pl_queue p)))"

lemma accepted_cbs_err [simp]: "accepted_cbs (EvSubmit cb (err e)) = {#}"
  by (simp add: err_def)

lemma some_cbs_append: "some_cbs (xs @ ys) = some_cbs xs + some_cbs ys"
  by (simp add: some_cbs_def)

lemma some_cbs_mset: "mset xs = mset ys \<Longrightarrow> some_cbs xs = some_cbs ys"
proof -
  assume eq: "mset xs = mset ys"
  have "some_cbs zs = sum_mset (image_mset (\<lambda>c. case c of None \<Rightarrow> {#} | Some x \<Rightarrow> {#x#}) (mset zs))"
    for zs :: "'a option list"
    by (induction zs) (auto simp: some_cbs_def split: option.split)
  then show "some_cbs xs = some_cbs ys" by (simp only: eq)
qed

lemma some_cbs_map_mset: "mset xs = mset ys \<Longrightarrow> some_cbs (map f xs) = some_cbs (map f ys)"
  by (rule some_cbs_mset) (simp only: mset_map)

lemma some_cbs_split:
  "some_cbs (map f xs) = some_cbs (map f (filter P xs)) + some_cbs (map f (filter (\<lambda>x. \<not> P x) xs))"
proof -
  have "mset xs = mset (filter P xs @ filter (\<lambda>x. \<not> P x) xs)"
    by (simp only: mset_append mset_filter_split [of xs P, symmetric])
  from some_cbs_map_mset [OF this, of f] show ?thesis by (simp only: map_append some_cbs_append)
qed

lemma run_callback_fst: "mset (map fst (run_callback cb r)) = some_cbs [cb]"
  by (simp add: run_callback_def some_cbs_def split: option.split)

lemma run_callbacks_fst:
  "mset (map fst (concat (map (\<lambda>req. run_callback (pr_callback req) r) rs))) = some_cbs (map pr_callback rs)"
  by (induction rs) (auto simp: some_cbs_def run_callback_def split: option.split)

section \<open>Accounting of one step\<close>

definition pl_inv :: "'cb pipeline \<Rightarrow> bool" where
  "pl_inv p \<longleftrightarrow> rq_inv (pl_queue p) \<and> rq_max_size (pl_queue p) = unat (pc_max_in_flight (pl_config p))"

lemma rq_ops_max_size [simp]:
  "rq_max_size (snd (rq_insert r q)) = rq_max_size q"
  "rq_max_size (snd (rq_remove cid q)) = rq_max_size q"
  "rq_max_size (snd (rq_remove_expired now q)) = rq_max_size q"
  "rq_max_size (snd (rq_cancel cid q)) = rq_max_size q"
  by (simp_all add: rq_insert_def rq_remove_def rq_remove_expired_def rq_cancel_def split: option.split prod.split)

lemma pl_inv_new: "pl_inv (Pipeline config)"
  by (simp add: pl_inv_def Pipeline_def rq_inv_def set_max_size_def RequestQueue_default_def)

text \<open>The request a \<open>submit\<close> builds.\<close>

definition new_pending :: "('s \<Rightarrow> Timestamp) \<Rightarrow> PDU \<Rightarrow> 'cb option \<Rightarrow> milliseconds \<Rightarrow> 'cb pipeline \<Rightarrow> 's \<Rightarrow> 'cb PendingRequest" where
  "new_pending clock request cb timeout p s =
     \<lparr>pr_id = pl_counter p, pr_request = pipeline_wrap (pl_counter p) request, pr_sent_at = clock s,
      pr_timeout = (if timeout = 0 then pc_default_timeout (pl_config p) else timeout), pr_callback = cb\<rparr>"

lemma pipeline_submit_cases:
  assumes "pipeline_submit T clock request cb timeout p s = (r, p', s')"
    and send: "t_send T (PDU_serialize (pipeline_wrap (pl_counter p) request)) s = (sr, s1)"
    and ins: "rq_insert (new_pending clock request cb timeout p s) (pl_queue p) = (ok, q)"
  shows "s' = s1 \<and> pl_counter p' = pl_counter p + 1 \<and> pl_config p' = pl_config p
    \<and> pl_queue p' = (if void_has_value sr then q else pl_queue p)
    \<and> r = (if \<not> void_has_value sr then Err (vr_ec sr) else if ok then Ok (pl_counter p) else err PipelineOverflow)"
  using assms
  by (auto simp: pipeline_submit_def new_pending_def CorrelationID_next_def Let_def split: bool.splits if_splits)

lemma pipeline_dispatch_accounts:
  assumes "pl_inv p" "pipeline_dispatch now1 now2 pdu p = (calls, p')"
  shows "pl_inv p' \<and> pending_cbs p = mset (map fst calls) + pending_cbs p'
    \<and> pl_counter p' = pl_counter p \<and> pl_config p' = pl_config p
    \<and> set (rq_pending (pl_queue p')) \<subseteq> set (rq_pending (pl_queue p))"
proof -
  define cid where "cid = (case extended_header pdu of Some h \<Rightarrow> correlation_id h | None \<Rightarrow> 0)"
  obtain ro q1 where rem: "rq_remove cid (pl_queue p) = (ro, q1)" by fastforce
  have inv: "rq_inv (pl_queue p)" using assms(1) by (simp add: pl_inv_def)
  have q1: "rq_inv q1" "rq_max_size q1 = rq_max_size (pl_queue p)"
    using rq_inv_remove [OF inv, of cid] rq_ops_max_size(2) [of cid "pl_queue p"] rem by simp_all
  note ms = rq_remove_mset [OF inv rem]
  show ?thesis
  proof (cases ro)
    case None
    then have "rq_pending q1 = rq_pending (pl_queue p)"
      using rem by (auto simp: rq_remove_def split: option.splits)
    then show ?thesis
      using assms None rem q1
      by (auto simp: pipeline_dispatch_def cid_def [symmetric] Let_def pl_inv_def pending_cbs_def)
  next
    case (Some r)
    define expired where "expired = filter (request_expired now2) (rq_pending q1)"
    define q2 where "q2 = q1\<lparr>rq_pending := filter (\<lambda>r. \<not> request_expired now2 r) (rq_pending q1)\<rparr>"
    have exp: "rq_remove_expired now2 q1 = (expired, q2)"
      by (simp add: rq_remove_expired_def remove_expired_loop_eq expired_def q2_def)
    have calls: "calls = run_callback (pr_callback r) (Ok pdu)
        @ concat (map (\<lambda>req. run_callback (pr_callback req) (err TimeoutExpired)) expired)"
      and p': "pl_queue p' = q2" "pl_config p' = pl_config p" "pl_counter p' = pl_counter p"
      using assms(2) Some rem exp by (auto simp: pipeline_dispatch_def cid_def [symmetric] Let_def)
    have "some_cbs (map pr_callback (rq_pending (pl_queue p))) = some_cbs (map pr_callback (r # rq_pending q1))"
      using ms Some by (intro some_cbs_map_mset) simp
    also have "\<dots> = some_cbs [pr_callback r] + some_cbs (map pr_callback (rq_pending q1))"
      by (simp add: some_cbs_def)
    also have "some_cbs (map pr_callback (rq_pending q1))
        = some_cbs (map pr_callback expired) + some_cbs (map pr_callback (rq_pending q2))"
      unfolding expired_def q2_def by (simp flip: some_cbs_split)
    finally have "pending_cbs p = mset (map fst calls) + pending_cbs p'"
      unfolding pending_cbs_def calls p'(1)
      using run_callback_fst [of "pr_callback r" "Ok pdu"] run_callbacks_fst [of "err TimeoutExpired" expired]
      by (simp add: add.assoc)
    moreover have "rq_inv q2" unfolding q2_def by (rule rq_inv_filter [OF q1(1)])
    moreover have "set (rq_pending q1) \<subseteq> set (rq_pending (pl_queue p))"
      using ms Some by (metis mset_subset_eq_add_right set_mset_mono set_mset_mset)
    ultimately show ?thesis
      using assms(1) p' q1(2) by (auto simp: pl_inv_def q2_def)
  qed
qed

definition pending_ids :: "'cb pipeline \<Rightarrow> CorrelationID set" where
  "pending_ids p = pr_id ` set (rq_pending (pl_queue p))"

lemma pipeline_submit_accounts:
  assumes "pl_inv p" "pipeline_submit T clock request cb timeout p s = (r, p', s')"
  shows "pl_inv p' \<and> pl_config p' = pl_config p \<and> pl_counter p' = pl_counter p + 1
    \<and> pending_cbs p' \<subseteq># pending_cbs p + accepted_cbs (EvSubmit cb r)
    \<and> pending_ids p' \<subseteq> insert (pl_counter p) (pending_ids p)
    \<and> (pl_counter p \<notin> pending_ids p \<longrightarrow> pending_cbs p' = pending_cbs p + accepted_cbs (EvSubmit cb r))"
proof -
  obtain sr s1 where send: "t_send T (PDU_serialize (pipeline_wrap (pl_counter p) request)) s = (sr, s1)"
    by (metis surj_pair)
  obtain ok q where ins: "rq_insert (new_pending clock request cb timeout p s) (pl_queue p) = (ok, q)"
    by (metis surj_pair)
  note c = pipeline_submit_cases [OF assms(2) send ins]
  have q: "rq_inv q" "rq_max_size q = rq_max_size (pl_queue p)"
    using assms(1) rq_inv_insert [of "pl_queue p" "new_pending clock request cb timeout p s"]
      rq_ops_max_size(1) [of "new_pending clock request cb timeout p s" "pl_queue p"] ins
    by (simp_all add: pl_inv_def)
  have np: "pr_id (new_pending clock request cb timeout p s) = pl_counter p"
    "pr_callback (new_pending clock request cb timeout p s) = cb"
    by (simp_all add: new_pending_def)
  show ?thesis
  proof (cases "void_has_value sr")
    case False
    then show ?thesis using c assms(1) by (auto simp: pl_inv_def pending_cbs_def pending_ids_def)
  next
    case True
    have "rq_pending q = rq_pending (pl_queue p) \<and> (ok \<longrightarrow> pl_counter p \<in> pending_ids p)
        \<or> ok \<and> rq_pending q = rq_pending (pl_queue p) @ [new_pending clock request cb timeout p s]"
      using ins np by (auto simp: rq_insert_def pending_ids_def split: if_splits)
    then show ?thesis
      using True c q assms(1) np
      by (cases ok) (auto simp: pl_inv_def pending_cbs_def pending_ids_def some_cbs_append)
  qed
qed

lemma pipeline_poll_accounts:
  assumes "pl_inv p" "pipeline_poll T clock p s = Some (calls, p', s')"
  shows "pl_inv p' \<and> pl_config p' = pl_config p \<and> pl_counter p' = pl_counter p
    \<and> pending_cbs p = mset (map fst calls) + pending_cbs p'
    \<and> set (rq_pending (pl_queue p')) \<subseteq> set (rq_pending (pl_queue p))"
proof -
  obtain fr s1 where rcv: "t_receive T 0 s = (fr, s1)" by (metis surj_pair)
  consider (idle) "calls = []" "p' = p"
    | (pdu) pdu where "pipeline_dispatch (clock s1) (clock s1) pdu p = (calls, p')"
    using assms(2) rcv
    by (cases fr) (auto simp: pipeline_poll_def split: prod.splits Result.splits option.splits)
  then show ?thesis
  proof cases
    case idle
    then show ?thesis using assms(1) by simp
  next
    case pdu
    from pipeline_dispatch_accounts [OF assms(1) pdu] show ?thesis by blast
  qed
qed

lemma pipeline_cancel_accounts:
  assumes "pl_inv p" "pipeline_cancel cid p = (b, p')"
    and "cbs = map pr_callback (filter (\<lambda>r. pr_id r = cid) (rq_pending (pl_queue p)))"
  shows "pl_inv p' \<and> pl_config p' = pl_config p \<and> pl_counter p' = pl_counter p
    \<and> pending_cbs p = some_cbs cbs + pending_cbs p' \<and> pending_ids p' = pending_ids p - {cid}
    \<and> b = (cid \<in> pending_ids p)"
proof -
  have p': "p' = p\<lparr>pl_queue := pl_queue p\<lparr>rq_pending := filter (\<lambda>r. pr_id r \<noteq> cid) (rq_pending (pl_queue p))\<rparr>\<rparr>"
    and b: "b = (cid \<in> pending_ids p)"
    using assms(2) by (auto simp: pipeline_cancel_def rq_cancel_def pending_ids_def)
  have "rq_inv (pl_queue p')"
    using assms(1) unfolding p' by (simp add: pl_inv_def rq_inv_filter)
  moreover have "pending_cbs p = some_cbs cbs + pending_cbs p'"
    unfolding pending_cbs_def assms(3) p' by (simp flip: some_cbs_split)
  ultimately show ?thesis using assms(1) b by (auto simp: pl_inv_def pending_ids_def p')
qed

section \<open>Executions account for every callback\<close>

lemma pl_step_accounts:
  assumes "pl_step T clock st e st'" "pl_inv (fst st)"
  shows "pl_inv (fst st') \<and> pl_config (fst st') = pl_config (fst st)
    \<and> pl_counter (fst st') = pl_counter (fst st) + (if is_submit e then 1 else 0)
    \<and> called_cbs e + cancelled_cbs e + pending_cbs (fst st') \<subseteq># pending_cbs (fst st) + accepted_cbs e
    \<and> pending_ids (fst st') \<subseteq> (if is_submit e then {pl_counter (fst st)} else {}) \<union> pending_ids (fst st)
    \<and> ((is_submit e \<longrightarrow> pl_counter (fst st) \<notin> pending_ids (fst st)) \<longrightarrow>
       called_cbs e + cancelled_cbs e + pending_cbs (fst st') = pending_cbs (fst st) + accepted_cbs e)"
  using assms
proof (induction rule: pl_step.cases)
  case (submit request cb timeout p s r p' s')
  then show ?case using pipeline_submit_accounts [of p T clock request cb timeout s r p' s'] by auto
next
  case (poll p s calls p' s')
  then show ?case using pipeline_poll_accounts [of p T clock s calls p' s'] by (auto simp: pending_ids_def)
next
  case (cancel cid p b p' cbs s)
  then show ?case using pipeline_cancel_accounts [of p cid b p' cbs] by auto
qed simp

lemma total_cbs_simps [simp]:
  "total_cbs f [] = {#}" "total_cbs f (es @ [e]) = total_cbs f es + f e"
  by (simp_all add: total_cbs_def)

lemma pl_trace_inv:
  assumes "pl_trace T clock st es st'" "pl_inv (fst st)"
  shows "pl_inv (fst st') \<and> pl_config (fst st') = pl_config (fst st)"
  using assms
proof (induction rule: pl_trace.induct)
  case (snoc st es st1 e st2)
  then show ?case using pl_step_accounts [of T clock st1 e st2] by simp
qed simp

lemma pl_trace_at_most_once:
  assumes "pl_trace T clock st es st'" "pl_inv (fst st)"
  shows "total_cbs called_cbs es + total_cbs cancelled_cbs es + pending_cbs (fst st')
    \<subseteq># pending_cbs (fst st) + total_cbs accepted_cbs es"
  using assms
proof (induction rule: pl_trace.induct)
  case (snoc st es st1 e st2)
  then have "pl_inv (fst st1)" using pl_trace_inv by blast
  with snoc.hyps(2) have "called_cbs e + cancelled_cbs e + pending_cbs (fst st2)
      \<subseteq># pending_cbs (fst st1) + accepted_cbs e"
    using pl_step_accounts by blast
  from subset_mset.add_mono [OF snoc.IH [OF snoc.prems] this]
  have "(total_cbs called_cbs (es @ [e]) + total_cbs cancelled_cbs (es @ [e]) + pending_cbs (fst st2))
        + pending_cbs (fst st1)
      \<subseteq># (pending_cbs (fst st) + total_cbs accepted_cbs (es @ [e])) + pending_cbs (fst st1)"
    by (simp only: total_cbs_simps ac_simps)
  then show ?case by (simp only: mset_subset_eq_mono_add_right_cancel)
qed simp

text \<open>Correlation IDs repeat only after 65536 submissions.\<close>

lemma u16_of_nat_inj:
  assumes "(of_nat i :: u16) = of_nat j" "1 \<le> i" "1 \<le> j" "i \<le> 65536" "j \<le> 65536"
  shows "i = j"
proof -
  have "i mod 65536 = j mod 65536"
    using assms(1) by (simp add: word_of_nat_eq_iff take_bit_eq_mod)
  then show ?thesis using assms(2-) by (cases "i = 65536"; cases "j = 65536") auto
qed

definition submissions :: "'cb pl_event list \<Rightarrow> nat" where
  "submissions es = length (filter is_submit es)"

lemma submissions_simps [simp]:
  "submissions [] = 0" "submissions (es @ [e]) = submissions es + (if is_submit e then 1 else 0)"
  by (simp_all add: submissions_def)

lemma pl_trace_ids:
  assumes "pl_trace T clock st es st'" "pl_inv (fst st)" "pl_counter (fst st) = 1" "pending_ids (fst st) = {}"
  shows "pl_counter (fst st') = of_nat (submissions es + 1)
    \<and> pending_ids (fst st') \<subseteq> of_nat ` {1..submissions es}"
  using assms
proof (induction rule: pl_trace.induct)
  case (snoc st es st1 e st2)
  then have "pl_inv (fst st1)" using pl_trace_inv by blast
  with snoc.hyps(2) have "pl_counter (fst st2) = pl_counter (fst st1) + (if is_submit e then 1 else 0)"
    and "pending_ids (fst st2) \<subseteq> (if is_submit e then {pl_counter (fst st1)} else {}) \<union> pending_ids (fst st1)"
    using pl_step_accounts by blast+
  with snoc.IH [OF snoc.prems] show ?case
    by (cases "is_submit e") (auto simp: atLeastAtMostSuc_conv)
qed simp

lemma pl_trace_exact:
  assumes "pl_trace T clock st es st'" "pl_inv (fst st)" "pl_counter (fst st) = 1" "pending_ids (fst st) = {}"
    and "submissions es \<le> 65536"
  shows "total_cbs called_cbs es + total_cbs cancelled_cbs es + pending_cbs (fst st')
    = pending_cbs (fst st) + total_cbs accepted_cbs es"
  using assms
proof (induction rule: pl_trace.induct)
  case (snoc st es st1 e st2)
  then have inv: "pl_inv (fst st1)" using pl_trace_inv by blast
  have le: "submissions es \<le> 65536" using snoc.prems by (simp split: if_splits)
  have "pl_counter (fst st1) \<notin> pending_ids (fst st1)" if "is_submit e"
  proof
    assume "pl_counter (fst st1) \<in> pending_ids (fst st1)"
    then obtain k where "k \<in> {1..submissions es}" "(of_nat (submissions es + 1) :: u16) = of_nat k"
      using pl_trace_ids [OF snoc.hyps(1) snoc.prems(1-3)] by (metis imageE subsetD)
    then show False
      using u16_of_nat_inj [of "submissions es + 1" k] that snoc.prems(4) by simp
  qed
  with snoc.hyps(2) inv have "called_cbs e + cancelled_cbs e + pending_cbs (fst st2)
      = pending_cbs (fst st1) + accepted_cbs e"
    using pl_step_accounts by blast
  with snoc.IH [OF snoc.prems(1-3) le] have
    "(total_cbs called_cbs es + total_cbs cancelled_cbs es + pending_cbs (fst st1))
       + (called_cbs e + cancelled_cbs e + pending_cbs (fst st2))
     = (pending_cbs (fst st) + total_cbs accepted_cbs es) + (pending_cbs (fst st1) + accepted_cbs e)"
    by simp
  then have "(total_cbs called_cbs (es @ [e]) + total_cbs cancelled_cbs (es @ [e]) + pending_cbs (fst st2))
        + pending_cbs (fst st1)
      = (pending_cbs (fst st) + total_cbs accepted_cbs (es @ [e])) + pending_cbs (fst st1)"
    by (simp only: total_cbs_simps ac_simps)
  then show ?case by (simp only: add_right_cancel)
qed simp

lemma Pipeline_simps [simp]:
  "pl_counter (Pipeline config) = 1" "pending_ids (Pipeline config) = {}" "pending_cbs (Pipeline config) = {#}"
  "pl_config (Pipeline config) = config"
  by (simp_all add: Pipeline_def pending_ids_def pending_cbs_def set_max_size_def RequestQueue_default_def some_cbs_def)

section \<open>Matching\<close>

lemma pipeline_poll_total: "\<exists>calls p' s'. pipeline_poll T clock p s = Some (calls, p', s')"
proof -
  obtain fr s1 where rcv: "t_receive T 0 s = (fr, s1)" by (metis surj_pair)
  show ?thesis
  proof (cases fr)
    case (Ok frame)
    have "returns_within {InvalidFrame, UnsupportedVersion} (PDU_deserialize (span_of frame))"
      by (rule PDU_deserialize_safe) simp
    then obtain r where "PDU_deserialize (span_of frame) = Some r"
      by (cases "PDU_deserialize (span_of frame)") auto
    then show ?thesis
      using rcv Ok by (cases r) (auto simp: pipeline_poll_def split: prod.split)
  qed (use rcv in \<open>auto simp: pipeline_poll_def\<close>)
qed

lemma pipeline_poll_matching:
  assumes "PDU_wf resp" "extended_header resp = Some h"
    and "t_receive T 0 s = (Ok (PDU_serialize resp), s1)"
  shows "pipeline_poll T clock p s =
    (case find (\<lambda>r. pr_id r = correlation_id h) (rq_pending (pl_queue p)) of
       None \<Rightarrow> Some ([], p, s1)
     | Some r \<Rightarrow> Some
         (run_callback (pr_callback r) (Ok resp)
            @ concat (map (\<lambda>e. run_callback (pr_callback e) (err TimeoutExpired))
                (filter (\<lambda>e. pr_id e \<noteq> pr_id r \<and> request_expired (clock s1) e) (rq_pending (pl_queue p)))),
          p\<lparr>pl_queue := pl_queue p\<lparr>rq_pending :=
                filter (\<lambda>e. pr_id e \<noteq> pr_id r \<and> \<not> request_expired (clock s1) e) (rq_pending (pl_queue p))\<rparr>,
            pl_total_completed := pl_total_completed p + 1,
            pl_total_latency_us := pl_total_latency_us p
              + word_of_int (epoch_microseconds (clock s1) - epoch_microseconds (pr_sent_at r))\<rparr>, s1))"
proof (cases "find (\<lambda>r. pr_id r = correlation_id h) (rq_pending (pl_queue p))")
  case None
  then show ?thesis
    using assms(2,3) PDU_roundtrip [OF assms(1)]
    by (simp add: pipeline_poll_def pipeline_dispatch_def rq_remove_def)
next
  case (Some r)
  then have "pr_id r = correlation_id h" by (auto simp: find_Some_iff)
  then show ?thesis
    using assms(2,3) PDU_roundtrip [OF assms(1)] Some
    by (simp add: pipeline_poll_def pipeline_dispatch_def rq_remove_def rq_remove_expired_def
        remove_expired_loop_eq Let_def conj_commute)
qed

section \<open>Synchronous submission\<close>

text \<open>The callback of \<open>submit_sync\<close> captures its caller's locals: it may be pending only under \<open>cid\<close>.\<close>

definition only_under :: "'cb \<Rightarrow> CorrelationID \<Rightarrow> 'cb pipeline \<Rightarrow> bool" where
  "only_under tok cid p \<longleftrightarrow>
     (\<forall>r \<in> set (rq_pending (pl_queue p)). pr_callback r = Some tok \<longrightarrow> pr_id r = cid)"

lemma some_cbs_member: "x \<in># some_cbs cbs \<longleftrightarrow> Some x \<in> set cbs"
  by (force simp: some_cbs_def split: option.splits)

lemma pending_cbs_member:
  "tok \<in># pending_cbs p \<longleftrightarrow> (\<exists>r \<in> set (rq_pending (pl_queue p)). pr_callback r = Some tok)"
  by (force simp: pending_cbs_def some_cbs_member)

lemma count_some_cbs: "Multiset.count (some_cbs cbs) x = length (filter (\<lambda>c. c = Some x) cbs)"
  by (induction cbs) (auto simp: some_cbs_def split: option.split)

lemma only_under_count:
  assumes "pl_inv p" "only_under tok cid p"
  shows "Multiset.count (pending_cbs p) tok \<le> 1"
proof -
  define xs where "xs = filter (\<lambda>r. pr_callback r = Some tok) (rq_pending (pl_queue p))"
  have "distinct (map pr_id xs)"
    using assms(1) by (simp add: pl_inv_def rq_inv_def xs_def distinct_map_filter)
  moreover have "set (map pr_id xs) \<subseteq> {cid}"
    using assms(2) by (auto simp: only_under_def xs_def)
  ultimately have "length (map pr_id xs) \<le> 1"
    by (metis card_mono card.empty card_insert_disjoint distinct_card empty_iff finite.emptyI finite.insertI One_nat_def)
  then show ?thesis
    by (simp add: pending_cbs_def count_some_cbs xs_def filter_map o_def)
qed

lemma pipeline_sync_loop_returns:
  assumes tick: "\<And>s. epoch_microseconds (clock s) < epoch_microseconds (clock (elapse s))
      \<or> deadline \<le> epoch_microseconds (clock (elapse s))"
    and rcv: "\<And>s. epoch_microseconds (clock s) \<le> epoch_microseconds (clock (snd (t_receive T 0 s)))"
    and "pl_inv p" "only_under tok cid p"
  shows "\<exists>r others' p' s'. pipeline_sync_loop T clock elapse deadline cid tok (others, p, s) = Some (r, others', p', s')
    \<and> pl_inv p' \<and> tok \<notin># pending_cbs p'"
  using assms(3,4)
proof (induction "nat (deadline - epoch_microseconds (clock s))" arbitrary: others p s rule: less_induct)
  case less
  obtain calls p1 s1 where poll: "pipeline_poll T clock p s = Some (calls, p1, s1)"
    using pipeline_poll_total by metis
  have s1: "s1 = snd (t_receive T 0 s)"
    using poll by (auto simp: pipeline_poll_def split: prod.splits Result.splits option.splits)
  note acc = pipeline_poll_accounts [OF less.prems(1) poll]
  have only: "only_under tok cid p1" using acc less.prems(2) by (auto simp: only_under_def)
  obtain b p2 where cancel: "pipeline_cancel cid p1 = (b, p2)" by fastforce
  have cacc: "pl_inv p2 \<and> pending_ids p2 = pending_ids p1 - {cid}"
    using pipeline_cancel_accounts [OF _ cancel refl] acc by blast
  have cleared: "tok \<notin># pending_cbs p2"
  proof
    assume "tok \<in># pending_cbs p2"
    then obtain r where "r \<in> set (rq_pending (pl_queue p2))" "pr_callback r = Some tok"
      by (auto simp: pending_cbs_member)
    moreover from this have "r \<in> set (rq_pending (pl_queue p1))"
      using cancel by (auto simp: pipeline_cancel_def rq_cancel_def)
    ultimately show False using only cacc by (force simp: only_under_def pending_ids_def)
  qed
  consider (mine) "filter (\<lambda>c. fst c = tok) calls \<noteq> []"
    | (deadline) "filter (\<lambda>c. fst c = tok) calls = []" "deadline \<le> epoch_microseconds (clock (elapse s1))"
    | (again) "filter (\<lambda>c. fst c = tok) calls = []" "epoch_microseconds (clock (elapse s1)) < deadline"
    by linarith
  then show ?case
  proof cases
    case mine
    then have "tok \<in># mset (map fst calls)" by (force simp: filter_empty_conv)
    then have "0 < Multiset.count (mset (map fst calls)) tok" by (simp only: count_greater_zero_iff)
    moreover have "Multiset.count (mset (map fst calls)) tok + Multiset.count (pending_cbs p1) tok \<le> 1"
      using acc only_under_count [OF less.prems] by (metis plus_multiset.rep_eq)
    ultimately have "Multiset.count (pending_cbs p1) tok = 0" by linarith
    then have "tok \<notin># pending_cbs p1" by (simp only: count_eq_zero_iff not_False_eq_True)
    then show ?thesis
      using mine poll acc by (subst pipeline_sync_loop.simps) (simp add: Let_def)
  next
    case deadline
    then show ?thesis
      using poll cancel cacc cleared by (subst pipeline_sync_loop.simps) (simp add: Let_def)
  next
    case again
    have "nat (deadline - epoch_microseconds (clock (elapse s1))) < nat (deadline - epoch_microseconds (clock s))"
      using again(2) tick [of s1] rcv [of s, folded s1] by linarith
    from less.hyps [OF this _ only] again poll acc show ?thesis
      by (subst pipeline_sync_loop.simps) (simp add: Let_def)
  qed
qed

lemma pipeline_submit_sync_returns:
  assumes tick: "\<And>s. epoch_microseconds (clock s) < epoch_microseconds (clock (elapse s))
      \<or> D \<le> epoch_microseconds (clock (elapse s))"
    and rcv: "\<And>s. epoch_microseconds (clock s) \<le> epoch_microseconds (clock (snd (t_receive T 0 s)))"
    and "pl_inv p" "tok \<notin># pending_cbs p"
    and deadline: "epoch_microseconds (clock (snd (snd
        (pipeline_submit T clock request (Some tok) timeout p s)))) + timeout * 1000 \<le> D"
  shows "\<exists>r others p' s'. pipeline_submit_sync T clock elapse request timeout tok p s = Some (r, others, p', s')
    \<and> pl_inv p' \<and> tok \<notin># pending_cbs p'"
proof -
  obtain r p1 s1 where sub: "pipeline_submit T clock request (Some tok) timeout p s = (r, p1, s1)"
    by (metis surj_pair)
  obtain sr s2 where send: "t_send T (PDU_serialize (pipeline_wrap (pl_counter p) request)) s = (sr, s2)"
    by (metis surj_pair)
  obtain ok q where ins: "rq_insert (new_pending clock request (Some tok) timeout p s) (pl_queue p) = (ok, q)"
    by (metis surj_pair)
  note c = pipeline_submit_cases [OF sub send ins]
  note acc = pipeline_submit_accounts [OF assms(3) sub]
  show ?thesis
  proof (cases r)
    case (Err ec)
    then have "tok \<notin># pending_cbs p1" using acc assms(4) by (auto dest: mset_subset_eqD)
    then show ?thesis using sub Err acc by (simp add: pipeline_submit_sync_def)
  next
    case (Ok cid)
    then have cid: "cid = pl_counter p" using c by (auto simp: err_def split: if_splits)
    have "set (rq_pending (pl_queue p1)) \<subseteq>
        insert (new_pending clock request (Some tok) timeout p s) (set (rq_pending (pl_queue p)))"
    proof -
      have "rq_pending q \<in> {rq_pending (pl_queue p),
          rq_pending (pl_queue p) @ [new_pending clock request (Some tok) timeout p s]}"
        using ins by (auto simp: rq_insert_def split: if_splits)
      then show ?thesis using c by (auto split: if_splits)
    qed
    then have "only_under tok cid p1"
      using assms(4) cid by (auto simp: only_under_def pending_cbs_member new_pending_def)
    have "epoch_microseconds (clock s') < epoch_microseconds (clock (elapse s'))
        \<or> epoch_microseconds (clock s1) + timeout * 1000 \<le> epoch_microseconds (clock (elapse s'))" for s'
      using tick [of s'] deadline sub by auto
    from pipeline_sync_loop_returns [OF this rcv _ \<open>only_under tok cid p1\<close>] acc sub Ok show ?thesis
      by (simp add: pipeline_submit_sync_def)
  qed
qed

section \<open>Properties\<close>

text \<open>
  Property C33. Pipelined requests are matched by correlation ID, in whatever order the
  responses come: \<open>poll\<close> on a well-formed extended response runs the callback of the request
  pending under its ID on exactly that PDU, updates the statistics by one, removes that
  request and times out those of the others whose deadline has passed; a response under an
  unknown ID changes nothing (and then no request is timed out either).
\<close>

theorem pipeline_poll_dispatches:
  assumes "PDU_wf resp" "extended_header resp = Some h"
    and "t_receive T 0 s = (Ok (PDU_serialize resp), s1)"
  shows "pipeline_poll T clock p s =
    (case find (\<lambda>r. pr_id r = correlation_id h) (rq_pending (pl_queue p)) of
       None \<Rightarrow> Some ([], p, s1)
     | Some r \<Rightarrow> Some
         (run_callback (pr_callback r) (Ok resp)
            @ concat (map (\<lambda>e. run_callback (pr_callback e) (err TimeoutExpired))
                (filter (\<lambda>e. pr_id e \<noteq> pr_id r \<and> request_expired (clock s1) e) (rq_pending (pl_queue p)))),
          p\<lparr>pl_queue := pl_queue p\<lparr>rq_pending :=
                filter (\<lambda>e. pr_id e \<noteq> pr_id r \<and> \<not> request_expired (clock s1) e) (rq_pending (pl_queue p))\<rparr>,
            pl_total_completed := pl_total_completed p + 1,
            pl_total_latency_us := pl_total_latency_us p
              + word_of_int (epoch_microseconds (clock s1) - epoch_microseconds (pr_sent_at r))\<rparr>, s1))"
  using assms by (rule pipeline_poll_matching)

definition inbox_transport :: "byte list list transport" where
  "inbox_transport = \<lparr>t_send = (\<lambda>f s. (void_ok, s)),
     t_receive = (\<lambda>timeout s. case s of [] \<Rightarrow> (err TimeoutExpired, []) | f # fs \<Rightarrow> (Ok f, fs)),
     t_connect = (\<lambda>s. (void_ok, s)), t_disconnect = (\<lambda>s. s), t_is_connected = (\<lambda>s. True),
     t_transport_name = ''inbox''\<rparr>"

definition example_response :: "u16 \<Rightarrow> PDU" where
  "example_response cid = make_extended (FrameHeader_default\<lparr>correlation_id := cid\<rparr>) [7] None"

lemma example_response_wf [simp]:
  "PDU_wf (example_response cid)"
  "extended_header (example_response cid) = Some (FrameHeader_default\<lparr>correlation_id := cid, payload_length := 1\<rparr>)"
  by (simp_all add: example_response_def make_extended_wf FrameHeader_default_def make_extended_header)

definition example_pipeline :: "nat pipeline" where
  "example_pipeline = (Pipeline PipelineConfig_default)\<lparr>pl_queue := \<lparr>rq_pending =
     [\<lparr>pr_id = 1, pr_request = make_standard 3 [], pr_sent_at = from_epoch_us 0, pr_timeout = 10, pr_callback = Some 100\<rparr>,
      \<lparr>pr_id = 2, pr_request = make_standard 3 [], pr_sent_at = from_epoch_us 0, pr_timeout = 10, pr_callback = Some 200\<rparr>],
     rq_max_size = 16\<rparr>\<rparr>"

theorem pipeline_poll_dispatches_witness:
  "map_option fst (pipeline_poll inbox_transport (\<lambda>_. from_epoch_us 0) example_pipeline [PDU_serialize (example_response 2)])
     = Some [(200, Ok (example_response 2))]"
  by (subst pipeline_poll_dispatches [where resp = "example_response 2" and ?s1.0 = "[]"
        and h = "FrameHeader_default\<lparr>correlation_id := 2, payload_length := 1\<rparr>"])
    (simp_all add: inbox_transport_def example_pipeline_def Pipeline_def PipelineConfig_default_def
      run_callback_def request_expired_def)

text \<open>
  Property C32. Bound on the requests in flight: whatever is submitted, received, cancelled or
  timed out, a pipeline never has more than \<open>max_in_flight\<close> requests pending (when that is not
  zero, which means no limit), and no two of them share a correlation ID.
\<close>

theorem pipeline_in_flight_bounded:
  assumes "pl_trace T clock (Pipeline config, s) es (p, s')"
  shows "distinct (map pr_id (rq_pending (pl_queue p)))
    \<and> (0 < pc_max_in_flight config \<longrightarrow> in_flight_count p \<le> unat (pc_max_in_flight config))"
proof -
  have "pl_inv p \<and> pl_config p = config"
    using pl_trace_inv [OF assms] by (simp add: pl_inv_new)
  moreover have "0 < unat (pc_max_in_flight config)" if "0 < pc_max_in_flight config"
    using that by (simp add: unat_gt_0 word_neq_0_conv)
  ultimately show ?thesis
    by (auto simp: pl_inv_def rq_inv_def in_flight_count_def rq_size_def)
qed

definition example_submit :: "nat \<Rightarrow> nat pipeline \<times> byte list list
    \<Rightarrow> CorrelationID Result \<times> nat pipeline \<times> byte list list" where
  "example_submit cb st = pipeline_submit inbox_transport (\<lambda>_. from_epoch_us 0) (make_standard 3 [0, 0]) (Some cb) 5
     (fst st) (snd st)"

definition two_submitted :: "nat pipeline \<times> byte list list" where
  "two_submitted = snd (example_submit 200 (snd (example_submit 100 (Pipeline PipelineConfig_default, []))))"

lemma example_submit_step:
  "pl_step inbox_transport (\<lambda>_. from_epoch_us 0) st (EvSubmit (Some cb) (fst (example_submit cb st))) (snd (example_submit cb st))"
  by (cases st; cases "example_submit cb st") (auto intro: pl_step.submit simp: example_submit_def)

lemma two_submitted_trace:
  "pl_trace inbox_transport (\<lambda>_. from_epoch_us 0) (Pipeline PipelineConfig_default, [])
     [EvSubmit (Some 100) (Ok 1), EvSubmit (Some 200) (Ok 2)] (fst two_submitted, snd two_submitted)"
proof -
  let ?st0 = "(Pipeline PipelineConfig_default, [])"
  have "fst (example_submit 100 ?st0) = Ok 1" "fst (example_submit 200 (snd (example_submit 100 ?st0))) = Ok 2"
    by (simp_all add: example_submit_def pipeline_submit_def inbox_transport_def Let_def CorrelationID_next_def
        Pipeline_def PipelineConfig_default_def rq_insert_def set_max_size_def RequestQueue_default_def
        void_ok_def void_has_value_def error_code_default_def ec_bool_def)
  moreover have "pl_trace inbox_transport (\<lambda>_. from_epoch_us 0) ?st0
      (([] @ [EvSubmit (Some 100) (fst (example_submit 100 ?st0))])
        @ [EvSubmit (Some 200) (fst (example_submit 200 (snd (example_submit 100 ?st0))))]) two_submitted"
    unfolding two_submitted_def
    by (rule pl_trace.snoc [OF pl_trace.snoc [OF pl_trace.nil example_submit_step] example_submit_step])
  ultimately show ?thesis by simp
qed

theorem pipeline_in_flight_bounded_witness:
  "in_flight_count (fst two_submitted) \<le> 16"
  using pipeline_in_flight_bounded [of inbox_transport "\<lambda>_. from_epoch_us 0" PipelineConfig_default "[]"
      "[EvSubmit (Some 100) (Ok 1), EvSubmit (Some 200) (Ok 2)]" "fst two_submitted" "snd two_submitted"]
    two_submitted_trace
  by (auto simp: PipelineConfig_default_def)

text \<open>
  Property C20. Every callback is accounted for. Over any execution from a new pipeline, the
  callbacks run, those of cancelled requests and those still pending are together among the
  callbacks of accepted requests, so no request is answered twice or both answered and
  cancelled; up to 65536 submissions, when no correlation ID can have been reused, they are
  exactly those of the accepted requests: none is lost.
\<close>

theorem pipeline_callbacks_accounted:
  assumes "pl_trace T clock (Pipeline config, s) es (p, s')"
  shows "total_cbs called_cbs es + total_cbs cancelled_cbs es + pending_cbs p \<subseteq># total_cbs accepted_cbs es
    \<and> (submissions es \<le> 65536 \<longrightarrow>
        total_cbs called_cbs es + total_cbs cancelled_cbs es + pending_cbs p = total_cbs accepted_cbs es)"
  using pl_trace_at_most_once [OF assms] pl_trace_exact [OF assms] by (simp add: pl_inv_new)

theorem pipeline_callbacks_accounted_witness:
  "pending_cbs (fst two_submitted) = {#100, 200#}"
  using pipeline_callbacks_accounted [of inbox_transport "\<lambda>_. from_epoch_us 0" PipelineConfig_default "[]"
      "[EvSubmit (Some 100) (Ok 1), EvSubmit (Some 200) (Ok 2)]" "fst two_submitted" "snd two_submitted"]
    two_submitted_trace
  by (fastforce simp: submissions_def total_cbs_def some_cbs_def)

text \<open>
  Property C28. \<open>submit_sync\<close> returns, provided that waiting advances the clock until some \<open>D\<close>
  no earlier than its deadline and receiving does not turn it back; and when it does, its callback, which captured
  references to the locals of the call, is no longer held by the queue, whether it was
  answered, timed out or refused.
\<close>

theorem pipeline_submit_sync_terminates:
  assumes "\<And>s. epoch_microseconds (clock s) < epoch_microseconds (clock (elapse s))
      \<or> D \<le> epoch_microseconds (clock (elapse s))"
    and "\<And>s. epoch_microseconds (clock s) \<le> epoch_microseconds (clock (snd (t_receive T 0 s)))"
    and "pl_inv p" "tok \<notin># pending_cbs p"
    and "epoch_microseconds (clock (snd (snd
        (pipeline_submit T clock request (Some tok) timeout p s)))) + timeout * 1000 \<le> D"
  shows "\<exists>r others p' s'. pipeline_submit_sync T clock elapse request timeout tok p s = Some (r, others, p', s')
    \<and> pl_inv p' \<and> tok \<notin># pending_cbs p'"
  using assms by (rule pipeline_submit_sync_returns)

definition silent_transport :: "nat transport" where
  "silent_transport = \<lparr>t_send = (\<lambda>f s. (void_ok, s)),
     t_receive = (\<lambda>timeout s. (err TimeoutExpired, s)),
     t_connect = (\<lambda>s. (void_ok, s)), t_disconnect = (\<lambda>s. s), t_is_connected = (\<lambda>s. True),
     t_transport_name = ''silent''\<rparr>"

lemma silent_transport_submit:
  "snd (snd (pipeline_submit silent_transport clock request cb timeout p s)) = s"
  by (simp add: pipeline_submit_def silent_transport_def Let_def CorrelationID_next_def split: prod.split bool.split)

lemma epoch_from_epoch_us: "0 \<le> x \<Longrightarrow> x < 2 ^ 63 \<Longrightarrow> epoch_microseconds (from_epoch_us x) = x"
  by (simp add: epoch_microseconds_def from_epoch_us_def signed_take_bit_int_eq_self signed_of_int)

theorem pipeline_submit_sync_terminates_witness:
  "\<exists>r others p' s'. pipeline_submit_sync silent_transport (\<lambda>n. from_epoch_us (int (min n 5000))) Suc
      (make_standard 3 [0, 0]) 5 (7 :: nat) (Pipeline PipelineConfig_default) 0 = Some (r, others, p', s')
    \<and> pl_inv p' \<and> 7 \<notin># pending_cbs p'"
  by (rule pipeline_submit_sync_terminates [where D = 5000])
    (auto simp: epoch_from_epoch_us silent_transport_submit pl_inv_new, simp add: silent_transport_def)

text \<open>
  Two ways a request is lost without its caller being told why. The queue's limit
  is checked only after the frame has been sent: \<open>submit\<close> on a full queue sends the request,
  whose response will be ignored, and reports \<open>PipelineOverflow\<close>. And when the counter comes round to an ID
  that is still pending, \<open>submit\<close> sends the request and reports success, but does not store its
  callback, and the response will be given to the older request.
\<close>

theorem pipeline_submit_loses_request:
  assumes "t_send T (PDU_serialize (pipeline_wrap (pl_counter p) request)) s = (void_ok, s1)"
  shows "let full = 0 < rq_max_size (pl_queue p) \<and> rq_max_size (pl_queue p) \<le> in_flight_count p;
             p' = p\<lparr>pl_counter := pl_counter p + 1\<rparr> in
    (full \<longrightarrow> pipeline_submit T clock request cb timeout p s = (err PipelineOverflow, p', s1))
    \<and> (\<not> full \<and> pl_counter p \<in> set (map pr_id (rq_pending (pl_queue p)))
        \<longrightarrow> pipeline_submit T clock request cb timeout p s = (Ok (pl_counter p), p', s1))"
  using assms
  by (auto simp: pipeline_submit_def CorrelationID_next_def rq_insert_def in_flight_count_def rq_size_def
      Let_def void_ok_def void_has_value_def error_code_default_def ec_bool_def)

theorem pipeline_submit_loses_request_witness:
  "let p = example_pipeline\<lparr>pl_counter := 1\<rparr> in
     pipeline_submit inbox_transport (\<lambda>_. from_epoch_us 0) (make_standard 3 []) (Some 300) 5 p []
       = (Ok 1, p\<lparr>pl_counter := 2\<rparr>, [])"
  using pipeline_submit_loses_request [of inbox_transport "example_pipeline\<lparr>pl_counter := 1\<rparr>"
      "make_standard 3 []" "[]" "[]" "\<lambda>_. from_epoch_us 0" "Some 300" 5]
  by (simp add: inbox_transport_def example_pipeline_def in_flight_count_def rq_size_def Let_def)

end
