(* ===== verification/Loopback.thy ===== *)
theory Loopback
  imports Transport
begin

text \<open>
  Component \<open>transport/loopback_transport.cpp\<close>: two endpoints joined by two shared queues.

  The state holds both endpoints and both queues. A blocking \<open>receive\<close> is two steps, its call
  and its return, so that the other endpoint and other threads can act in between; the
  relation \<open>lb_step\<close> is one such step. The critical sections are atomic, as the mutexes make
  them. Latency only sleeps. The random numbers \<open>dist(rng)\<close> of an endpoint are a sequence of
  its state that nothing is assumed of.
\<close>

section \<open>State\<close>

record endpoint =
  ep_connected :: bool
  ep_simulated_latency :: int
  ep_error_rate :: double
  ep_next_error :: "error_code option"
  ep_draws :: "nat \<Rightarrow> double"
  ep_waiting :: bool

datatype side = ClientSide | ServerSide

record loopback =
  lb_client :: endpoint
  lb_server :: endpoint
  lb_q1 :: "frame list"
  lb_q2 :: "frame list"

definition new_endpoint :: "(nat \<Rightarrow> double) \<Rightarrow> endpoint" where
  "new_endpoint draws = \<lparr>ep_connected = False, ep_simulated_latency = 0, ep_error_rate = Fin 0,
     ep_next_error = None, ep_draws = draws, ep_waiting = False\<rparr>"

definition create_pair :: "(nat \<Rightarrow> double) \<Rightarrow> (nat \<Rightarrow> double) \<Rightarrow> loopback" where
  "create_pair d1 d2 = \<lparr>lb_client = new_endpoint d1, lb_server = new_endpoint d2, lb_q1 = [], lb_q2 = []\<rparr>"

fun endpoint_of :: "side \<Rightarrow> loopback \<Rightarrow> endpoint" where
  "endpoint_of ClientSide s = lb_client s"
| "endpoint_of ServerSide s = lb_server s"

fun set_endpoint :: "side \<Rightarrow> endpoint \<Rightarrow> loopback \<Rightarrow> loopback" where
  "set_endpoint ClientSide e s = s\<lparr>lb_client := e\<rparr>"
| "set_endpoint ServerSide e s = s\<lparr>lb_server := e\<rparr>"

fun tx_queue :: "side \<Rightarrow> loopback \<Rightarrow> frame list" where
  "tx_queue ClientSide s = lb_q1 s"
| "tx_queue ServerSide s = lb_q2 s"

fun set_tx_queue :: "side \<Rightarrow> frame list \<Rightarrow> loopback \<Rightarrow> loopback" where
  "set_tx_queue ClientSide q s = s\<lparr>lb_q1 := q\<rparr>"
| "set_tx_queue ServerSide q s = s\<lparr>lb_q2 := q\<rparr>"

fun other_side :: "side \<Rightarrow> side" where
  "other_side ClientSide = ServerSide"
| "other_side ServerSide = ClientSide"

text \<open>The queue an endpoint receives from is the one its peer sends to.\<close>

definition rx_queue :: "side \<Rightarrow> loopback \<Rightarrow> frame list" where
  "rx_queue sd s = tx_queue (other_side sd) s"

definition set_rx_queue :: "side \<Rightarrow> frame list \<Rightarrow> loopback \<Rightarrow> loopback" where
  "set_rx_queue sd q s = set_tx_queue (other_side sd) q s"

section \<open>Operations\<close>

text \<open>The checks before the frame is queued: \<open>Some r\<close> when \<open>send\<close> returns \<open>r\<close> early.\<close>

definition send_checks :: "endpoint \<Rightarrow> VoidResult option \<times> endpoint" where
  "send_checks e =
     (if \<not> ep_connected e then (Some (void_err TransportDisconnected), e)
      else (case ep_next_error e of
        Some ec \<Rightarrow> (Some (VoidResult ec), e\<lparr>ep_next_error := None\<rparr>)
      | None \<Rightarrow>
          if d_less (Fin 0) (ep_error_rate e) then
            (let draw = ep_draws e 0; e' = e\<lparr>ep_draws := (\<lambda>n. ep_draws e (Suc n))\<rparr> in
             if d_less draw (ep_error_rate e) then (Some (void_err TransportDisconnected), e')
             else (None, e'))
          else (None, e)))"

definition loopback_send :: "side \<Rightarrow> frame \<Rightarrow> loopback \<Rightarrow> VoidResult \<times> loopback" where
  "loopback_send sd frame s = (case send_checks (endpoint_of sd s) of
     (Some r, e) \<Rightarrow> (r, set_endpoint sd e s)
   | (None, e) \<Rightarrow>
       let s' = set_endpoint sd e s in
       (void_ok, set_tx_queue sd (tx_queue sd s' @ [frame]) s'))"

text \<open>\<open>receive\<close> when no other thread acts while it waits.\<close>

definition loopback_receive :: "side \<Rightarrow> milliseconds \<Rightarrow> loopback \<Rightarrow> frame Result \<times> loopback" where
  "loopback_receive sd timeout s =
     (if \<not> ep_connected (endpoint_of sd s) then (err TransportDisconnected, s)
      else (case rx_queue sd s of
        [] \<Rightarrow> (err TimeoutExpired, s)
      | msg # msgs \<Rightarrow> (Ok msg, set_rx_queue sd msgs s)))"

definition loopback_connect :: "side \<Rightarrow> loopback \<Rightarrow> VoidResult \<times> loopback" where
  "loopback_connect sd s = (void_ok, set_endpoint sd ((endpoint_of sd s)\<lparr>ep_connected := True\<rparr>) s)"

definition loopback_disconnect :: "side \<Rightarrow> loopback \<Rightarrow> loopback" where
  "loopback_disconnect sd s = set_endpoint sd ((endpoint_of sd s)\<lparr>ep_connected := False\<rparr>) s"

definition loopback_is_connected :: "side \<Rightarrow> loopback \<Rightarrow> bool" where
  "loopback_is_connected sd s = ep_connected (endpoint_of sd s)"

definition set_simulated_latency :: "side \<Rightarrow> int \<Rightarrow> loopback \<Rightarrow> loopback" where
  "set_simulated_latency sd latency s =
     set_endpoint sd ((endpoint_of sd s)\<lparr>ep_simulated_latency := latency\<rparr>) s"

definition set_error_rate :: "side \<Rightarrow> double \<Rightarrow> loopback \<Rightarrow> loopback" where
  "set_error_rate sd rate s = set_endpoint sd ((endpoint_of sd s)\<lparr>ep_error_rate := rate\<rparr>) s"

definition set_next_error :: "side \<Rightarrow> error_code \<Rightarrow> loopback \<Rightarrow> loopback" where
  "set_next_error sd ec s = set_endpoint sd ((endpoint_of sd s)\<lparr>ep_next_error := Some ec\<rparr>) s"

definition LoopbackTransport :: "side \<Rightarrow> loopback transport" where
  "LoopbackTransport sd = \<lparr>t_send = loopback_send sd, t_receive = loopback_receive sd,
     t_connect = loopback_connect sd, t_disconnect = loopback_disconnect sd,
     t_is_connected = loopback_is_connected sd, t_transport_name = ''loopback''\<rparr>"

section \<open>Interleaved executions\<close>

datatype lb_event =
    EvSend side frame VoidResult
  | EvReceiveCall side
  | EvReceive side "frame Result"
  | EvConnect side
  | EvDisconnect side
  | EvLatency side int
  | EvErrorRate side double
  | EvNextError side error_code

definition set_waiting :: "side \<Rightarrow> bool \<Rightarrow> loopback \<Rightarrow> loopback" where
  "set_waiting sd b s = set_endpoint sd ((endpoint_of sd s)\<lparr>ep_waiting := b\<rparr>) s"

text \<open>
  \<open>receive_call\<close> is the test of \<open>connected_\<close> at the start of \<open>receive\<close>, \<open>receive_message\<close> and
  \<open>receive_timeout\<close> are the two returns of \<open>cv.wait_for\<close>: it looks at the queue again, and at
  nothing else, whenever it is notified and when the time is over.
\<close>

inductive lb_step :: "loopback \<Rightarrow> lb_event \<Rightarrow> loopback \<Rightarrow> bool" where
  send: "loopback_send sd frame s = (r, s') \<Longrightarrow> lb_step s (EvSend sd frame r) s'"
| receive_rejected: "\<not> ep_connected (endpoint_of sd s) \<Longrightarrow> \<not> ep_waiting (endpoint_of sd s) \<Longrightarrow>
    lb_step s (EvReceive sd (err TransportDisconnected)) s"
| receive_call: "ep_connected (endpoint_of sd s) \<Longrightarrow> \<not> ep_waiting (endpoint_of sd s) \<Longrightarrow>
    lb_step s (EvReceiveCall sd) (set_waiting sd True s)"
| receive_message: "ep_waiting (endpoint_of sd s) \<Longrightarrow> rx_queue sd s = msg # msgs \<Longrightarrow>
    lb_step s (EvReceive sd (Ok msg)) (set_waiting sd False (set_rx_queue sd msgs s))"
| receive_timeout: "ep_waiting (endpoint_of sd s) \<Longrightarrow> rx_queue sd s = [] \<Longrightarrow>
    lb_step s (EvReceive sd (err TimeoutExpired)) (set_waiting sd False s)"
| connect: "loopback_connect sd s = (r, s') \<Longrightarrow> lb_step s (EvConnect sd) s'"
| disconnect: "lb_step s (EvDisconnect sd) (loopback_disconnect sd s)"
| latency: "lb_step s (EvLatency sd us) (set_simulated_latency sd us s)"
| error_rate: "lb_step s (EvErrorRate sd rate) (set_error_rate sd rate s)"
| next_error: "lb_step s (EvNextError sd ec) (set_next_error sd ec s)"

inductive lb_trace :: "loopback \<Rightarrow> lb_event list \<Rightarrow> loopback \<Rightarrow> bool" where
  nil: "lb_trace s [] s"
| snoc: "lb_trace s es s1 \<Longrightarrow> lb_step s1 e s2 \<Longrightarrow> lb_trace s (es @ [e]) s2"

inductive_cases lb_step_sendE: "lb_step s (EvSend sd frame r) s'"
inductive_cases lb_step_receiveE: "lb_step s (EvReceive sd r) s'"
inductive_simps lb_step_simps:
  "lb_step s (EvReceiveCall sd) s'"
  "lb_step s (EvConnect sd) s'"
  "lb_step s (EvDisconnect sd) s'"
  "lb_step s (EvLatency sd us) s'"
  "lb_step s (EvErrorRate sd rate) s'"
  "lb_step s (EvNextError sd ec) s'"

text \<open>What a trace says was sent and received on one side.\<close>

fun sent_by :: "side \<Rightarrow> lb_event \<Rightarrow> frame list" where
  "sent_by sd (EvSend sd' frame r) = (if sd' = sd \<and> void_has_value r then [frame] else [])"
| "sent_by sd _ = []"

fun received_by :: "side \<Rightarrow> lb_event \<Rightarrow> frame list" where
  "received_by sd (EvReceive sd' (Ok msg)) = (if sd' = sd then [msg] else [])"
| "received_by sd _ = []"

definition all_sent :: "side \<Rightarrow> lb_event list \<Rightarrow> frame list" where
  "all_sent sd es = concat (map (sent_by sd) es)"

definition all_received :: "side \<Rightarrow> lb_event list \<Rightarrow> frame list" where
  "all_received sd es = concat (map (received_by sd) es)"

text \<open>
  An injected \<open>error_code\<close> of value zero would make \<open>send\<close> report success without queueing; the
  traces that matter inject real errors.
\<close>

fun real_error :: "lb_event \<Rightarrow> bool" where
  "real_error (EvNextError sd ec) = ec_bool ec"
| "real_error _ = True"

definition errors_real :: "loopback \<Rightarrow> bool" where
  "errors_real s \<longleftrightarrow> (\<forall>sd. \<forall>ec. ep_next_error (endpoint_of sd s) = Some ec \<longrightarrow> ec_bool ec)"

section \<open>State updates\<close>

lemma endpoint_of_set [simp]:
  "endpoint_of sd (set_endpoint sd' e s) = (if sd = sd' then e else endpoint_of sd s)"
  by (cases sd; cases sd') auto

lemma endpoint_of_set_tx [simp]: "endpoint_of sd (set_tx_queue sd' q s) = endpoint_of sd s"
  by (cases sd; cases sd') auto

lemma endpoint_of_set_rx [simp]: "endpoint_of sd (set_rx_queue sd' q s) = endpoint_of sd s"
  by (simp add: set_rx_queue_def)

lemma tx_queue_set_endpoint [simp]: "tx_queue sd (set_endpoint sd' e s) = tx_queue sd s"
  by (cases sd; cases sd') auto

lemma tx_queue_set_tx [simp]:
  "tx_queue sd (set_tx_queue sd' q s) = (if sd = sd' then q else tx_queue sd s)"
  by (cases sd; cases sd') auto

lemma other_side_eq [simp]: "other_side (other_side sd) = sd" "other_side sd \<noteq> sd" "sd \<noteq> other_side sd"
  by (cases sd; simp)+

lemma other_side_inject [simp]: "other_side sd = other_side sd' \<longleftrightarrow> sd = sd'"
  by (cases sd; cases sd') auto

lemma tx_queue_set_rx [simp]:
  "tx_queue sd (set_rx_queue sd' q s) = (if sd = other_side sd' then q else tx_queue sd s)"
  by (simp add: set_rx_queue_def)

lemma send_checks_real:
  assumes "\<forall>ec. ep_next_error e = Some ec \<longrightarrow> ec_bool ec"
  shows "(case send_checks e of (Some r, e') \<Rightarrow> \<not> void_has_value r | (None, e') \<Rightarrow> True)
    \<and> (\<forall>ec. ep_next_error (snd (send_checks e)) = Some ec \<longrightarrow> ec_bool ec)
    \<and> ep_waiting (snd (send_checks e)) = ep_waiting e"
  using assms by (auto simp: send_checks_def void_has_value_def Let_def void_err_def split: option.splits)

lemma loopback_send_queue:
  assumes "errors_real s" "loopback_send sd frame s = (r, s')"
  shows "tx_queue sd' s' = tx_queue sd' s @ (if sd' = sd \<and> void_has_value r then [frame] else [])
    \<and> errors_real s'"
proof -
  have e: "\<forall>ec. ep_next_error (endpoint_of sd s) = Some ec \<longrightarrow> ec_bool ec"
    using assms(1) by (simp add: errors_real_def)
  obtain ro e' where c: "send_checks (endpoint_of sd s) = (ro, e')" by fastforce
  show ?thesis
    using assms send_checks_real [OF e] c
    by (cases ro) (auto simp: loopback_send_def errors_real_def Let_def split: if_splits)
qed

lemma lb_step_queue:
  assumes "lb_step s e s'" "errors_real s" "real_error e"
  shows "errors_real s' \<and>
    tx_queue sd s @ sent_by sd e = received_by (other_side sd) e @ tx_queue sd s'"
  using assms
proof (cases rule: lb_step.cases)
  case (send sd' frame r)
  then show ?thesis using loopback_send_queue [OF assms(2), of sd' frame r s' sd] by auto
next
  case (receive_message sd' msg msgs)
  then show ?thesis
    using assms(2) by (auto simp: rx_queue_def set_waiting_def errors_real_def)
qed (use assms(2,3) in \<open>auto simp: errors_real_def set_waiting_def loopback_connect_def
      loopback_disconnect_def set_simulated_latency_def set_error_rate_def set_next_error_def err_def
      split: if_splits\<close>)

lemma lb_trace_queue:
  assumes "lb_trace s es s'" "errors_real s" "\<forall>e\<in>set es. real_error e"
  shows "errors_real s' \<and>
    tx_queue sd s @ all_sent sd es = all_received (other_side sd) es @ tx_queue sd s'"
  using assms
proof (induction rule: lb_trace.induct)
  case (nil s)
  then show ?case by (simp add: all_sent_def all_received_def)
next
  case (snoc s es s1 e s2)
  then show ?case
    using lb_step_queue [OF snoc.hyps(2), of sd]
    by (simp add: all_sent_def all_received_def) (metis append.assoc)
qed

lemma create_pair_next_error: "ep_next_error (endpoint_of sd (create_pair d1 d2)) = None"
  by (cases sd) (simp_all add: create_pair_def new_endpoint_def)

lemma create_pair_start:
  "errors_real (create_pair d1 d2)" "tx_queue sd (create_pair d1 d2) = []"
proof -
  show "errors_real (create_pair d1 d2)"
    by (simp add: errors_real_def create_pair_next_error)
  show "tx_queue sd (create_pair d1 d2) = []"
    by (cases sd) (simp_all add: create_pair_def)
qed

section \<open>A healthy link\<close>

text \<open>
  Both endpoints connected, no error armed and no random errors: every send succeeds and
  appends to the queue, every receive takes from it.
\<close>

definition lb_healthy :: "loopback \<Rightarrow> bool" where
  "lb_healthy s \<longleftrightarrow> (\<forall>sd. ep_connected (endpoint_of sd s) \<and> ep_next_error (endpoint_of sd s) = None
     \<and> \<not> d_less (Fin 0) (ep_error_rate (endpoint_of sd s)))"

lemma set_endpoint_id [simp]: "set_endpoint sd (endpoint_of sd s) s = s"
  by (cases sd) auto

lemma set_tx_queue_id [simp]: "set_tx_queue sd (tx_queue sd s) s = s"
  by (cases sd) auto

lemma set_tx_queue_twice [simp]: "set_tx_queue sd q (set_tx_queue sd q' s) = set_tx_queue sd q s"
  by (cases sd) auto

lemma lb_healthy_set_tx [simp]: "lb_healthy (set_tx_queue sd q s) \<longleftrightarrow> lb_healthy s"
  by (simp add: lb_healthy_def)

lemma lb_healthy_send:
  "lb_healthy s \<Longrightarrow> loopback_send sd f s = (void_ok, set_tx_queue sd (tx_queue sd s @ [f]) s)"
  by (simp add: loopback_send_def send_checks_def lb_healthy_def)

lemma lb_healthy_receive:
  "lb_healthy s \<Longrightarrow> loopback_receive sd timeout s =
     (case rx_queue sd s of [] \<Rightarrow> (err TimeoutExpired, s) | f # fs \<Rightarrow> (Ok f, set_rx_queue sd fs s))"
  by (simp add: loopback_receive_def lb_healthy_def)

lemma LoopbackTransport_sel [simp]:
  "t_send (LoopbackTransport sd) = loopback_send sd"
  "t_receive (LoopbackTransport sd) = loopback_receive sd"
  "t_is_connected (LoopbackTransport sd) = loopback_is_connected sd"
  by (simp_all add: LoopbackTransport_def)

lemma lb_healthy_connected [simp]: "lb_healthy s \<Longrightarrow> loopback_is_connected sd s"
  by (simp add: loopback_is_connected_def lb_healthy_def)

text \<open>Two fresh endpoints that have been connected.\<close>

definition connected_pair :: "(nat \<Rightarrow> double) \<Rightarrow> (nat \<Rightarrow> double) \<Rightarrow> loopback" where
  "connected_pair d1 d2 =
     snd (loopback_connect ServerSide (snd (loopback_connect ClientSide (create_pair d1 d2))))"

lemma connected_pair_healthy [simp]: "lb_healthy (connected_pair d1 d2)"
proof -
  have "endpoint_of sd (connected_pair d1 d2)
      \<in> {(new_endpoint d1)\<lparr>ep_connected := True\<rparr>, (new_endpoint d2)\<lparr>ep_connected := True\<rparr>}" for sd
    by (cases sd) (simp_all add: connected_pair_def loopback_connect_def create_pair_def)
  then show ?thesis
    by (simp add: lb_healthy_def new_endpoint_def) (metis (no_types, lifting) d_less_irrefl endpoint.select_convs(1,3,4))
qed

lemma connected_pair_empty [simp]: "tx_queue sd (connected_pair d1 d2) = []"
  by (cases sd) (simp_all add: connected_pair_def loopback_connect_def create_pair_def)

section \<open>Properties\<close>

text \<open>
  Property C23. The pair is two reliable FIFO channels. In every interleaving of sends,
  receives, connects, disconnects, timeouts and injected errors on the two endpoints, the
  frames whose \<open>send\<close> reported success are, in order, the frames the peer has received
  followed by those still queued: nothing is lost, duplicated, reordered or made up, and
  nothing that failed is delivered.
\<close>

theorem loopback_fifo:
  assumes "lb_trace (create_pair d1 d2) es s" and "\<forall>e\<in>set es. real_error e"
  shows "all_sent sd es = all_received (other_side sd) es @ tx_queue sd s"
  using lb_trace_queue [OF assms(1) create_pair_start(1) assms(2), of sd]
  by (simp add: create_pair_start)

text \<open>
  \<open>disconnect\<close> does not release a receiver that is already waiting: the wait
  looks only at the queue. While the queue is empty the only way out of \<open>receive\<close> is the
  timeout, before and after a disconnect of either side, and a frame that arrives later is
  still delivered to the disconnected endpoint.
\<close>

theorem disconnect_does_not_release_receiver:
  assumes "ep_waiting (endpoint_of sd s)"
  shows "ep_waiting (endpoint_of sd (loopback_disconnect sd' s))
    \<and> (rx_queue sd s = [] \<and> lb_step (loopback_disconnect sd' s) (EvReceive sd r) s' \<longrightarrow>
         r = err TimeoutExpired)
    \<and> (rx_queue sd s = msg # msgs \<longrightarrow>
         lb_step (loopback_disconnect sd' s) (EvReceive sd (Ok msg))
           (set_waiting sd False (set_rx_queue sd msgs (loopback_disconnect sd' s))))"
proof -
  have w: "ep_waiting (endpoint_of sd (loopback_disconnect sd' s))"
    and q: "rx_queue sd (loopback_disconnect sd' s) = rx_queue sd s"
    using assms by (auto simp: loopback_disconnect_def rx_queue_def)
  then show ?thesis
    by (auto elim!: lb_step_receiveE intro: lb_step.receive_message)
qed

definition waiting_client :: loopback where
  "waiting_client = set_waiting ClientSide True
     (snd (loopback_connect ClientSide (create_pair (\<lambda>_. Fin 0) (\<lambda>_. Fin 0))))"

theorem disconnect_does_not_release_receiver_witness:
  "ep_waiting (endpoint_of ClientSide (loopback_disconnect ClientSide waiting_client))
   \<and> \<not> loopback_is_connected ClientSide (loopback_disconnect ClientSide waiting_client)
   \<and> rx_queue ClientSide waiting_client = []"
proof -
  have "ep_waiting (endpoint_of ClientSide waiting_client)"
    by (simp add: waiting_client_def set_waiting_def)
  from disconnect_does_not_release_receiver [OF this, of ClientSide] show ?thesis
    by (simp add: loopback_is_connected_def loopback_disconnect_def waiting_client_def rx_queue_def
        set_waiting_def loopback_connect_def create_pair_def)
qed

definition sample_events :: "lb_event list" where
  "sample_events = [EvConnect ClientSide, EvConnect ServerSide, EvSend ClientSide [1, 2] void_ok,
     EvReceiveCall ServerSide, EvReceive ServerSide (Ok [1, 2])]"

lemma sample_trace: "\<exists>s. lb_trace (create_pair d1 d2) sample_events s"
proof -
  define s0 where "s0 = create_pair d1 d2"
  define s1 where "s1 = snd (loopback_connect ClientSide s0)"
  define s2 where "s2 = snd (loopback_connect ServerSide s1)"
  define s3 where "s3 = snd (loopback_send ClientSide [1, 2] s2)"
  define s4 where "s4 = set_waiting ServerSide True s3"
  note defs = s4_def s3_def s2_def s1_def s0_def create_pair_def new_endpoint_def loopback_connect_def
    loopback_send_def send_checks_def set_waiting_def rx_queue_def
  have 1: "lb_step s0 (EvConnect ClientSide) s1" and 2: "lb_step s1 (EvConnect ServerSide) s2"
    unfolding s1_def s2_def
    by (rule lb_step.connect [where r = void_ok], simp add: loopback_connect_def)+
  have 3: "lb_step s2 (EvSend ClientSide [1, 2] void_ok) s3"
    by (rule lb_step.send) (simp add: defs)
  have 4: "lb_step s3 (EvReceiveCall ServerSide) s4"
    unfolding s4_def by (rule lb_step.receive_call) (simp_all add: defs)
  have 5: "lb_step s4 (EvReceive ServerSide (Ok [1, 2]))
      (set_waiting ServerSide False (set_rx_queue ServerSide [] s4))"
    by (rule lb_step.receive_message) (simp_all add: defs)
  have "lb_trace s0 ((((([] @ [EvConnect ClientSide]) @ [EvConnect ServerSide]) @
      [EvSend ClientSide [1, 2] void_ok]) @ [EvReceiveCall ServerSide]) @ [EvReceive ServerSide (Ok [1, 2])])
      (set_waiting ServerSide False (set_rx_queue ServerSide [] s4))"
    by (rule lb_trace.snoc [OF lb_trace.snoc [OF lb_trace.snoc [OF lb_trace.snoc
        [OF lb_trace.snoc [OF lb_trace.nil 1] 2] 3] 4] 5])
  then show ?thesis by (auto simp: s0_def sample_events_def)
qed

theorem loopback_fifo_witness:
  "\<exists>s. lb_trace (create_pair (\<lambda>_. Fin 0) (\<lambda>_. Fin 0)) sample_events s \<and> tx_queue ClientSide s = []"
proof -
  obtain s where s: "lb_trace (create_pair (\<lambda>_. Fin 0) (\<lambda>_. Fin 0)) sample_events s"
    using sample_trace by blast
  moreover have "\<forall>e\<in>set sample_events. real_error e" by (simp add: sample_events_def)
  ultimately show ?thesis
    using loopback_fifo [of "\<lambda>_. Fin 0" "\<lambda>_. Fin 0" sample_events s ClientSide]
    by (auto simp: sample_events_def all_sent_def all_received_def)
qed

end
