(* ===== verification/Pubsub.thy ===== *)
theory Pubsub
  imports Pdu Transport Register_Map Loopback "HOL-Library.AList"
begin

text \<open>
  Components \<open>pubsub/subscription.hpp\<close>, \<open>pubsub/publisher.cpp\<close> and \<open>pubsub/subscriber.cpp\<close>:
  subscriptions, change detection on the server and dispatch of notifications on the client.

  The world \<open>'s\<close> is the state of the transport and of whatever the readers of the data sources
  read; \<open>clock\<close> reads the time off it. A reader is a state transformer that returns registers.
  Slicing a vector outside its elements is undefined and \<open>None\<close>. A handler is an identifier,
  and \<open>poll\<close> returns the calls it makes. The mutexes make every operation atomic.
\<close>

section \<open>Subscriptions\<close>

type_synonym SubscriptionID = u32

datatype Trigger = OnChange | OnThreshold | Periodic

record SubscriptionRequest =
  sr_start_address :: address
  sr_count :: quantity
  sr_type :: RegisterType
  sr_byte_order :: ByteOrder
  sr_trigger :: Trigger
  sr_threshold_high :: "double option"
  sr_threshold_low :: "double option"
  sr_interval :: "milliseconds option"
  sr_dead_band :: double

definition SubscriptionRequest_default :: SubscriptionRequest where
  "SubscriptionRequest_default = \<lparr>sr_start_address = 0, sr_count = 1, sr_type = RT_UInt16, sr_byte_order = ABCD,
     sr_trigger = OnChange, sr_threshold_high = None, sr_threshold_low = None, sr_interval = None,
     sr_dead_band = Fin 0\<rparr>"

record EventNotification =
  en_subscription_id :: SubscriptionID
  en_start_address :: address
  en_timestamp :: Timestamp
  en_current_values :: "register list"
  en_previous_values :: "register list"

section \<open>The publisher\<close>

record 's DataSource =
  ds_start :: address
  ds_count :: quantity
  ds_reader :: "'s \<Rightarrow> register list \<times> 's"
  ds_last_values :: "register list"
  ds_has_baseline :: bool

record ActiveSubscription =
  as_id :: SubscriptionID
  as_client :: unit_id
  as_request :: SubscriptionRequest
  as_last_notified :: Timestamp

record 's publisher =
  pb_transport :: "'s transport option"
  pb_sources :: "'s DataSource list"
  pb_subscriptions :: "ActiveSubscription list"
  pb_next_sub_id :: SubscriptionID

definition Publisher :: "'s transport option \<Rightarrow> 's publisher" where
  "Publisher T = \<lparr>pb_transport = T, pb_sources = [], pb_subscriptions = [], pb_next_sub_id = 1\<rparr>"

definition register_data_source :: "address \<Rightarrow> quantity \<Rightarrow> ('s \<Rightarrow> register list \<times> 's) \<Rightarrow> 's publisher \<Rightarrow> 's publisher" where
  "register_data_source start cnt reader p = p\<lparr>pb_sources := pb_sources p @
     [\<lparr>ds_start = start, ds_count = cnt, ds_reader = reader, ds_last_values = [], ds_has_baseline = False\<rparr>]\<rparr>"

definition accept_subscription :: "Timestamp \<Rightarrow> unit_id \<Rightarrow> SubscriptionRequest \<Rightarrow> 's publisher
    \<Rightarrow> SubscriptionID Result \<times> 's publisher" where
  "accept_subscription now client request p =
     (let sid = pb_next_sub_id p in
      (Ok sid, p\<lparr>pb_next_sub_id := sid + 1, pb_subscriptions := pb_subscriptions p @
         [\<lparr>as_id = sid, as_client = client, as_request = request, as_last_notified = now\<rparr>]\<rparr>))"

definition remove_subscription :: "SubscriptionID \<Rightarrow> 's publisher \<Rightarrow> VoidResult \<times> 's publisher" where
  "remove_subscription sid p =
     (let kept = filter (\<lambda>s. as_id s \<noteq> sid) (pb_subscriptions p) in
      if length kept = length (pb_subscriptions p) then (void_err IllegalDataAddress, p)
      else (void_ok, p\<lparr>pb_subscriptions := kept\<rparr>))"

definition subscription_count :: "'s publisher \<Rightarrow> nat" where
  "subscription_count p = length (pb_subscriptions p)"

text \<open>The values of registers are exact as doubles, and so is their difference.\<close>

fun any_change :: "double \<Rightarrow> register list \<Rightarrow> register list \<Rightarrow> bool" where
  "any_change dead_band (c # cs) (p # ps) =
     (if d_less dead_band (Fin (rat_of_int \<bar>uint c - uint p\<bar>)) then True else any_change dead_band cs ps)"
| "any_change dead_band _ _ = False"

definition should_notify :: "Timestamp \<Rightarrow> ActiveSubscription \<Rightarrow> register list \<Rightarrow> register list \<Rightarrow> bool" where
  "should_notify now sub current previous =
     (let req = as_request sub in
      case sr_trigger req of
        Periodic \<Rightarrow> (case sr_interval req of
            None \<Rightarrow> False
          | Some interval \<Rightarrow>
              epoch_microseconds now - epoch_microseconds (as_last_notified sub) \<ge> interval * 1000)
      | OnChange \<Rightarrow> if previous = [] then True else any_change (sr_dead_band req) current previous
      | OnThreshold \<Rightarrow>
          if current = [] then False
          else let val = Fin (rat_of_int (uint (current ! 0))) in
            if (case sr_threshold_high req of None \<Rightarrow> False | Some high \<Rightarrow> d_less high val) then True
            else if (case sr_threshold_low req of None \<Rightarrow> False | Some low \<Rightarrow> d_less val low) then True
            else False)"

definition vector_slice :: "nat \<Rightarrow> nat \<Rightarrow> register list \<Rightarrow> register list option" where
  "vector_slice offset cnt xs =
     (let last = min (offset + cnt) (length xs) in
      if offset \<le> last then Some (drop offset (take last xs)) else None)"

definition notification_payload :: "EventNotification \<Rightarrow> byte list" where
  "notification_payload notif = bytes32 (en_subscription_id notif)
     @ [hi8 (en_start_address notif), lo8 (en_start_address notif),
        hi8 (of_nat (length (en_current_values notif))), lo8 (of_nat (length (en_current_values notif)))]
     @ regs_to_bytes (en_current_values notif)"

definition notification_pdu :: "EventNotification \<Rightarrow> PDU" where
  "notification_pdu notif = make_extended
     (FrameHeader_default\<lparr>ext_function_code := ExtendedFunctionCode_value ExtendedFunctionCode.EventNotification,
        timestamp := Some (en_timestamp notif)\<rparr>) (notification_payload notif) None"

definition send_notification :: "'s transport option \<Rightarrow> EventNotification \<Rightarrow> 's \<Rightarrow> 's" where
  "send_notification T notif s = (case T of
     None \<Rightarrow> s
   | Some T \<Rightarrow> if t_is_connected T s then snd (t_send T (PDU_serialize (notification_pdu notif)) s) else s)"

text \<open>The body of the inner loop: one subscription against one data source.\<close>

definition notify_one :: "'s transport option \<Rightarrow> ('s \<Rightarrow> Timestamp) \<Rightarrow> 's DataSource \<Rightarrow> register list
    \<Rightarrow> ActiveSubscription \<Rightarrow> 's \<Rightarrow> (nat \<times> ActiveSubscription \<times> 's) option" where
  "notify_one T clock source current sub s =
     (let req = as_request sub in
      if sr_start_address req < ds_start source
         \<or> unat (sr_start_address req) \<ge> unat (ds_start source) + unat (ds_count source)
      then Some (0, sub, s)
      else
        (let offset = unat (sr_start_address req) - unat (ds_start source) in
         case vector_slice offset (unat (sr_count req)) current of
           None \<Rightarrow> None
         | Some cur_slice \<Rightarrow>
             (case (if ds_has_baseline source
                    then vector_slice offset (unat (sr_count req)) (ds_last_values source) else Some []) of
                None \<Rightarrow> None
              | Some prev_slice \<Rightarrow>
                  if should_notify (clock s) sub cur_slice prev_slice then
                    (let notif = \<lparr>en_subscription_id = as_id sub, en_start_address = sr_start_address req,
                                  en_timestamp = clock s, en_current_values = cur_slice,
                                  en_previous_values = prev_slice\<rparr>;
                         s = send_notification T notif s in
                     Some (1, sub\<lparr>as_last_notified := clock s\<rparr>, s))
                  else Some (0, sub, s))))"

fun notify_subscriptions :: "'s transport option \<Rightarrow> ('s \<Rightarrow> Timestamp) \<Rightarrow> 's DataSource \<Rightarrow> register list
    \<Rightarrow> ActiveSubscription list \<Rightarrow> 's \<Rightarrow> (nat \<times> ActiveSubscription list \<times> 's) option" where
  "notify_subscriptions T clock source current [] s = Some (0, [], s)"
| "notify_subscriptions T clock source current (sub # subs) s =
     (case notify_one T clock source current sub s of
        None \<Rightarrow> None
      | Some (n, sub, s) \<Rightarrow>
          (case notify_subscriptions T clock source current subs s of
             None \<Rightarrow> None
           | Some (m, subs, s) \<Rightarrow> Some (n + m, sub # subs, s)))"

fun scan_sources :: "'s transport option \<Rightarrow> ('s \<Rightarrow> Timestamp) \<Rightarrow> 's DataSource list \<Rightarrow> ActiveSubscription list \<Rightarrow> 's
    \<Rightarrow> (nat \<times> 's DataSource list \<times> ActiveSubscription list \<times> 's) option" where
  "scan_sources T clock [] subs s = Some (0, [], subs, s)"
| "scan_sources T clock (source # sources) subs s =
     (case ds_reader source s of (current, s) \<Rightarrow>
      (case notify_subscriptions T clock source current subs s of
         None \<Rightarrow> None
       | Some (n, subs, s) \<Rightarrow>
           (case scan_sources T clock sources subs s of
              None \<Rightarrow> None
            | Some (m, sources, subs, s) \<Rightarrow>
                Some (n + m, source\<lparr>ds_last_values := current, ds_has_baseline := True\<rparr> # sources, subs, s))))"

definition scan_and_notify :: "('s \<Rightarrow> Timestamp) \<Rightarrow> 's publisher \<Rightarrow> 's \<Rightarrow> (nat \<times> 's publisher \<times> 's) option" where
  "scan_and_notify clock p s =
     (case scan_sources (pb_transport p) clock (pb_sources p) (pb_subscriptions p) s of
        None \<Rightarrow> None
      | Some (n, sources, subs, s) \<Rightarrow> Some (n, p\<lparr>pb_sources := sources, pb_subscriptions := subs\<rparr>, s))"

section \<open>The subscriber\<close>

record ('h, 's) subscriber =
  sb_transport :: "'s transport option"
  sb_handlers :: "(SubscriptionID \<times> 'h) list"

definition Subscriber :: "'s transport option \<Rightarrow> ('h, 's) subscriber" where
  "Subscriber T = \<lparr>sb_transport = T, sb_handlers = []\<rparr>"

definition on_event :: "SubscriptionID \<Rightarrow> 'h \<Rightarrow> ('h, 's) subscriber \<Rightarrow> ('h, 's) subscriber" where
  "on_event sid h b = b\<lparr>sb_handlers := AList.update sid h (sb_handlers b)\<rparr>"

definition remove_handler :: "SubscriptionID \<Rightarrow> ('h, 's) subscriber \<Rightarrow> ('h, 's) subscriber" where
  "remove_handler sid b = b\<lparr>sb_handlers := AList.delete sid (sb_handlers b)\<rparr>"

definition handler_count :: "('h, 's) subscriber \<Rightarrow> nat" where
  "handler_count b = length (sb_handlers b)"

fun read_notification_registers :: "byte list \<Rightarrow> nat \<Rightarrow> nat \<Rightarrow> register list" where
  "read_notification_registers pl 0 offset = []"
| "read_notification_registers pl (Suc n) offset =
     (if offset + 1 < length pl
      then be16 (pl ! offset) (pl ! (offset + 1)) # read_notification_registers pl n (offset + 2) else [])"

text \<open>The body of the receiving loop up to the dispatch; \<open>None\<close> is a \<open>continue\<close>.\<close>

definition parse_notification :: "Timestamp \<Rightarrow> PDU \<Rightarrow> EventNotification option" where
  "parse_notification now pdu = (case extended_header pdu of
     None \<Rightarrow> None
   | Some h \<Rightarrow>
       if ext_function_code h \<noteq> ExtendedFunctionCode_value ExtendedFunctionCode.EventNotification then None
       else let pl = payload pdu in
         if length pl < 8 then None
         else Some \<lparr>en_subscription_id = be32 (pl ! 0) (pl ! 1) (pl ! 2) (pl ! 3),
           en_start_address = be16 (pl ! 4) (pl ! 5),
           en_timestamp = (case timestamp h of Some t \<Rightarrow> t | None \<Rightarrow> now),
           en_current_values = read_notification_registers pl (unat (be16 (pl ! 6) (pl ! 7))) 8,
           en_previous_values = []\<rparr>)"

definition dispatch_notification :: "(SubscriptionID \<times> 'h) list \<Rightarrow> EventNotification \<Rightarrow> ('h \<times> EventNotification) list" where
  "dispatch_notification handlers notif = (case map_of handlers (en_subscription_id notif) of
     None \<Rightarrow> []
   | Some h \<Rightarrow> [(h, notif)])"

partial_function (option) subscriber_poll_loop :: "'s transport \<Rightarrow> ('s \<Rightarrow> Timestamp) \<Rightarrow> (SubscriptionID \<times> 'h) list
    \<Rightarrow> nat \<times> ('h \<times> EventNotification) list \<times> 's \<Rightarrow> (nat \<times> ('h \<times> EventNotification) list \<times> 's) option" where
  "subscriber_poll_loop T clock handlers st = (case st of (processed, calls, s) \<Rightarrow>
     (case t_receive T 0 s of
        (Err ec, s) \<Rightarrow> Some (processed, calls, s)
      | (Ok frame, s) \<Rightarrow>
          (case PDU_deserialize (span_of frame) of
             None \<Rightarrow> None
           | Some (Err ec) \<Rightarrow> subscriber_poll_loop T clock handlers (processed, calls, s)
           | Some (Ok pdu) \<Rightarrow>
               (case parse_notification (clock s) pdu of
                  None \<Rightarrow> subscriber_poll_loop T clock handlers (processed, calls, s)
                | Some notif \<Rightarrow> subscriber_poll_loop T clock handlers
                    (processed + 1, calls @ dispatch_notification handlers notif, s)))))"

definition subscriber_poll :: "('s \<Rightarrow> Timestamp) \<Rightarrow> ('h, 's) subscriber \<Rightarrow> 's
    \<Rightarrow> (nat \<times> ('h \<times> EventNotification) list \<times> 's) option" where
  "subscriber_poll clock b s = (case sb_transport b of
     None \<Rightarrow> Some (0, [], s)
   | Some T \<Rightarrow> if \<not> t_is_connected T s then Some (0, [], s)
       else subscriber_poll_loop T clock (sb_handlers b) (0, [], s))"

section \<open>Scanning is defined on full readers\<close>

lemma vector_slice_eq: "offset \<le> length xs \<Longrightarrow> vector_slice offset cnt xs = Some (take cnt (drop offset xs))"
  by (simp add: vector_slice_def Let_def min_def take_drop add.commute)

lemma vector_slice_short: "length xs < offset \<Longrightarrow> vector_slice offset cnt xs = None"
  by (simp add: vector_slice_def Let_def)

text \<open>A source whose reader always returns the registers it was registered for.\<close>

definition source_full :: "'s DataSource \<Rightarrow> bool" where
  "source_full source \<longleftrightarrow> (\<forall>s. unat (ds_count source) \<le> length (fst (ds_reader source s)))
     \<and> (ds_has_baseline source \<longrightarrow> unat (ds_count source) \<le> length (ds_last_values source))"

definition same_source :: "'s DataSource \<Rightarrow> 's DataSource \<Rightarrow> bool" where
  "same_source a b \<longleftrightarrow> ds_start a = ds_start b \<and> ds_count a = ds_count b \<and> ds_reader a = ds_reader b"

definition same_subscription :: "ActiveSubscription \<Rightarrow> ActiveSubscription \<Rightarrow> bool" where
  "same_subscription a b \<longleftrightarrow> as_id a = as_id b \<and> as_client a = as_client b \<and> as_request a = as_request b"

lemma same_subscription_simps [simp]:
  "same_subscription sub sub" "same_subscription sub (sub\<lparr>as_last_notified := t\<rparr>)"
  by (simp_all add: same_subscription_def)

lemma same_source_update [simp]:
  "same_source source (source\<lparr>ds_last_values := vs, ds_has_baseline := b\<rparr>)"
  by (simp add: same_source_def)

lemma same_subscription_trans:
  "same_subscription a b \<Longrightarrow> same_subscription b c \<Longrightarrow> same_subscription a c"
  by (simp add: same_subscription_def)

lemma notify_one_full:
  assumes "source_full source" "unat (ds_count source) \<le> length current"
  shows "\<exists>n sub' s'. notify_one T clock source current sub s = Some (n, sub', s') \<and> n \<le> 1 \<and> same_subscription sub sub'"
proof (cases "sr_start_address (as_request sub) < ds_start source
    \<or> unat (sr_start_address (as_request sub)) \<ge> unat (ds_start source) + unat (ds_count source)")
  case True
  then show ?thesis by (auto simp: notify_one_def Let_def)
next
  case False
  define offset where "offset = unat (sr_start_address (as_request sub)) - unat (ds_start source)"
  have "offset \<le> unat (ds_count source)"
    using False by (auto simp: offset_def word_less_nat_alt)
  then have "offset \<le> length current" "ds_has_baseline source \<Longrightarrow> offset \<le> length (ds_last_values source)"
    using assms by (auto simp: source_full_def)
  then show ?thesis
    using False
    by (auto simp: notify_one_def Let_def vector_slice_eq simp flip: offset_def)
qed

lemma notify_subscriptions_full:
  assumes "source_full source" "unat (ds_count source) \<le> length current"
  shows "\<exists>n subs' s'. notify_subscriptions T clock source current subs s = Some (n, subs', s')
    \<and> n \<le> length subs \<and> list_all2 same_subscription subs subs'"
proof (induction subs arbitrary: s)
  case (Cons sub subs)
  obtain n sub' s1 where one: "notify_one T clock source current sub s = Some (n, sub', s1)"
    "n \<le> 1" "same_subscription sub sub'"
    using notify_one_full [OF assms, of T clock sub s] by blast
  obtain m subs' s2 where rest: "notify_subscriptions T clock source current subs s1 = Some (m, subs', s2)"
    "m \<le> length subs" "list_all2 same_subscription subs subs'"
    using Cons.IH [of s1] by blast
  show ?case using one rest by simp
qed simp

lemma scan_sources_full:
  assumes "\<forall>source \<in> set sources. source_full source"
  shows "\<exists>n sources' subs' s'. scan_sources T clock sources subs s = Some (n, sources', subs', s')
    \<and> n \<le> length sources * length subs \<and> list_all2 same_subscription subs subs'
    \<and> list_all2 same_source sources sources' \<and> (\<forall>source \<in> set sources'. source_full source)"
  using assms
proof (induction sources arbitrary: subs s)
  case Nil
  then show ?case by (simp add: list.rel_refl)
next
  case (Cons source sources)
  obtain current s1 where read: "ds_reader source s = (current, s1)" by fastforce
  have full: "source_full source" "unat (ds_count source) \<le> length current"
    using Cons.prems read by (auto simp: source_full_def dest: spec [of _ s])
  obtain n subs1 s2 where one: "notify_subscriptions T clock source current subs s1 = Some (n, subs1, s2)"
    "n \<le> length subs" "list_all2 same_subscription subs subs1"
    using notify_subscriptions_full [OF full, of T clock subs s1] by blast
  obtain m sources' subs2 s3 where rest: "scan_sources T clock sources subs1 s2 = Some (m, sources', subs2, s3)"
    "m \<le> length sources * length subs1" "list_all2 same_subscription subs1 subs2"
    "list_all2 same_source sources sources'" "\<forall>source \<in> set sources'. source_full source"
    using Cons.IH [of subs1 s2] Cons.prems by auto
  have len: "length subs1 = length subs" using one(3) by (simp add: list_all2_lengthD)
  have "list_all2 same_subscription subs subs2"
    using list_all2_trans [OF _ one(3) rest(3)] same_subscription_trans by blast
  moreover have "source_full (source\<lparr>ds_last_values := current, ds_has_baseline := True\<rparr>)"
    using full by (simp add: source_full_def)
  ultimately show ?case
    using read one(1,2) rest(1,2,4,5) len by simp
qed

section \<open>Change detection\<close>

lemma any_change_iff:
  "any_change dead_band cs ps \<longleftrightarrow>
     (\<exists>i < min (length cs) (length ps). d_less dead_band (Fin (rat_of_int \<bar>uint (cs ! i) - uint (ps ! i)\<bar>)))"
proof (induction dead_band cs ps rule: any_change.induct)
  case (1 dead_band c cs p ps)
  then show ?case by (auto simp: less_Suc_eq_0_disj)
qed auto

section \<open>Notifications on the wire\<close>

lemma read_notification_registers_eq:
  "read_notification_registers pl n offset = take n (bytes_to_regs (drop offset pl))"
proof (induction n arbitrary: offset)
  case (Suc n)
  show ?case
  proof (cases "offset + 1 < length pl")
    case True
    then have "drop offset pl = pl ! offset # pl ! (offset + 1) # drop (offset + 2) pl"
      by (simp add: Cons_nth_drop_Suc)
    then show ?thesis using True Suc by simp
  next
    case False
    then have "drop offset pl = [] \<or> (\<exists>x. drop offset pl = [x])"
      by (cases "offset < length pl") (auto simp flip: Cons_nth_drop_Suc)
    then show ?thesis using False by auto
  qed
qed simp

definition notification_fits :: "EventNotification \<Rightarrow> bool" where
  "notification_fits notif \<longleftrightarrow> length (en_current_values notif) < 32764"

lemma length_notification_payload:
  "length (notification_payload notif) = 8 + 2 * length (en_current_values notif)"
  by (simp add: notification_payload_def length_regs_to_bytes)

lemma notification_pdu_wf: "notification_fits notif \<Longrightarrow> PDU_wf (notification_pdu notif)"
  by (simp add: notification_pdu_def make_extended_wf notification_fits_def FrameHeader_default_def
      length_notification_payload)

lemma parse_notification_pdu:
  assumes "notification_fits notif"
  shows "parse_notification now (notification_pdu notif) = Some (notif\<lparr>en_previous_values := []\<rparr>)"
proof -
  have "unat (of_nat (length (en_current_values notif)) :: u16) = length (en_current_values notif)"
    using assms by (intro of_nat_unat_length) (simp add: notification_fits_def)
  then show ?thesis
    by (simp add: parse_notification_def notification_pdu_def make_extended_header length_notification_payload
        read_notification_registers_eq)
      (simp add: notification_payload_def bytes32_def be_simps)
qed

inductive inbox :: "'s transport \<Rightarrow> 's \<Rightarrow> frame list \<Rightarrow> 's \<Rightarrow> bool" for T where
  drained: "t_receive T 0 s = (Err ec, s') \<Longrightarrow> inbox T s [] s'"
| frame: "t_receive T 0 s = (Ok f, s1) \<Longrightarrow> inbox T s1 fs s' \<Longrightarrow> inbox T s (f # fs) s'"

lemma poll_loop_inbox:
  assumes "inbox T s frames s'" "frames = map (PDU_serialize \<circ> notification_pdu) notifs"
    and "\<forall>notif \<in> set notifs. notification_fits notif"
  shows "subscriber_poll_loop T clock handlers (n, calls, s) = Some (n + length notifs,
    calls @ concat (map (\<lambda>notif. dispatch_notification handlers (notif\<lparr>en_previous_values := []\<rparr>)) notifs), s')"
  using assms
proof (induction arbitrary: n calls notifs rule: inbox.induct)
  case (drained s ec s')
  then show ?case by (simp add: subscriber_poll_loop.simps)
next
  case (frame s f s1 fs s')
  then obtain notif rest where notifs: "notifs = notif # rest"
    and f: "f = PDU_serialize (notification_pdu notif)" and fs: "fs = map (PDU_serialize \<circ> notification_pdu) rest"
    by (cases notifs) auto
  have fits: "notification_fits notif" "\<forall>notif \<in> set rest. notification_fits notif"
    using frame.prems notifs by auto
  show ?case
    using frame.hyps(1) frame.IH [OF fs fits(2)] PDU_roundtrip [OF notification_pdu_wf [OF fits(1)]]
      parse_notification_pdu [OF fits(1)]
    by (subst subscriber_poll_loop.simps) (simp add: notifs f)
qed

lemma loopback_inbox:
  assumes "lb_healthy s" "rx_queue sd s = frames"
  shows "inbox (LoopbackTransport sd) s frames (set_rx_queue sd [] s)"
  using assms
proof (induction frames arbitrary: s)
  case Nil
  then have "set_rx_queue sd [] s = s" by (metis rx_queue_def set_rx_queue_def set_tx_queue_id)
  then show ?case
    using Nil by (auto intro: inbox.drained simp: lb_healthy_receive err_def)
next
  case (Cons f fs)
  have "inbox (LoopbackTransport sd) (set_rx_queue sd fs s) fs (set_rx_queue sd [] (set_rx_queue sd fs s))"
    using Cons by (intro Cons.IH) (simp_all add: set_rx_queue_def rx_queue_def)
  then show ?case
    using Cons.prems
    by (intro inbox.frame [of _ s f "set_rx_queue sd fs s"])
      (simp_all add: lb_healthy_receive set_rx_queue_def)
qed

lemma loopback_notifications:
  assumes "lb_healthy s"
  shows "foldl (\<lambda>s notif. send_notification (Some (LoopbackTransport sd)) notif s) s notifs
    = set_tx_queue sd (tx_queue sd s @ map (PDU_serialize \<circ> notification_pdu) notifs) s"
  using assms
proof (induction notifs arbitrary: s)
  case (Cons notif notifs)
  have "send_notification (Some (LoopbackTransport sd)) notif s
      = set_tx_queue sd (tx_queue sd s @ [PDU_serialize (notification_pdu notif)]) s"
    using Cons.prems by (simp add: send_notification_def lb_healthy_send)
  then show ?case using Cons by simp
qed simp

section \<open>Properties\<close>

text \<open>
  Property C27. From publisher to subscriber: notifications of less than 32764 registers sent
  over a healthy loopback link are all delivered by one \<open>poll\<close> of the other side, in order, each to the
  handler of its subscription, with subscription, address, time and current values intact; the previous values are
  not sent, and always arrive empty.
\<close>

theorem pubsub_delivers:
  assumes "lb_healthy s" and "tx_queue sd s = []" and "\<forall>notif \<in> set notifs. notification_fits notif"
  shows "subscriber_poll clock \<lparr>sb_transport = Some (LoopbackTransport (other_side sd)), sb_handlers = handlers\<rparr>
      (foldl (\<lambda>s notif. send_notification (Some (LoopbackTransport sd)) notif s) s notifs)
    = Some (length notifs,
        concat (map (\<lambda>notif. dispatch_notification handlers (notif\<lparr>en_previous_values := []\<rparr>)) notifs), s)"
proof -
  define frames where "frames = map (PDU_serialize \<circ> notification_pdu) notifs"
  define s1 where "s1 = set_tx_queue sd frames s"
  have sent: "foldl (\<lambda>s notif. send_notification (Some (LoopbackTransport sd)) notif s) s notifs = s1"
    using loopback_notifications [OF assms(1)] assms(2) by (simp add: s1_def frames_def)
  have "inbox (LoopbackTransport (other_side sd)) s1 frames (set_rx_queue (other_side sd) [] s1)"
    using assms(1) by (intro loopback_inbox) (simp_all add: s1_def rx_queue_def)
  moreover have "set_rx_queue (other_side sd) [] s1 = s"
    using assms(2) by (simp add: s1_def set_rx_queue_def) (metis set_tx_queue_id)
  ultimately have "inbox (LoopbackTransport (other_side sd)) s1 frames s" by simp
  from poll_loop_inbox [OF this frames_def assms(3), of clock handlers 0 "[]"] show ?thesis
    using assms(1) by (simp add: sent subscriber_poll_def) (simp add: s1_def)
qed

definition sample_notification :: "SubscriptionID \<Rightarrow> EventNotification" where
  "sample_notification sid = \<lparr>en_subscription_id = sid, en_start_address = 40, en_timestamp = Timestamp 5,
     en_current_values = [0xABCD, 7], en_previous_values = [1, 2]\<rparr>"

theorem pubsub_delivers_witness:
  "subscriber_poll (\<lambda>_. Timestamp 6) \<lparr>sb_transport = Some (LoopbackTransport ClientSide), sb_handlers = [(2, ''h'')]\<rparr>
     (foldl (\<lambda>s notif. send_notification (Some (LoopbackTransport ServerSide)) notif s)
        (connected_pair (\<lambda>_. NaN) (\<lambda>_. NaN)) [sample_notification 1, sample_notification 2])
   = Some (2, [(''h'', (sample_notification 2)\<lparr>en_previous_values := []\<rparr>)], connected_pair (\<lambda>_. NaN) (\<lambda>_. NaN))"
  using pubsub_delivers [of "connected_pair (\<lambda>_. NaN) (\<lambda>_. NaN)" ServerSide
      "[sample_notification 1, sample_notification 2]" "\<lambda>_. Timestamp 6" "[(2, ''h'')]"]
  by (simp add: sample_notification_def notification_fits_def dispatch_notification_def)

text \<open>
  Property C36. A scan is defined when the readers return the registers they were registered
  for: it keeps that so, changes no subscription but its last notification time, and counts at
  most one notification per source and subscription. With a reader that returns fewer
  registers than the offset of a subscription in its source it is undefined: the slice starts
  beyond the end of the vector.
\<close>

theorem publisher_scan_safe:
  "((\<forall>source \<in> set (pb_sources p). source_full source) \<longrightarrow>
      (\<exists>n p' s'. scan_and_notify clock p s = Some (n, p', s')
        \<and> n \<le> length (pb_sources p) * subscription_count p
        \<and> list_all2 same_subscription (pb_subscriptions p) (pb_subscriptions p')
        \<and> list_all2 same_source (pb_sources p) (pb_sources p')
        \<and> (\<forall>source \<in> set (pb_sources p'). source_full source)))
   \<and> (pb_sources p = source # sources \<and> pb_subscriptions p = sub # subs
        \<and> ds_start source \<le> sr_start_address (as_request sub)
        \<and> unat (sr_start_address (as_request sub)) < unat (ds_start source) + unat (ds_count source)
        \<and> length (fst (ds_reader source s)) < unat (sr_start_address (as_request sub)) - unat (ds_start source)
      \<longrightarrow> scan_and_notify clock p s = None)"
proof (intro conjI impI)
  assume "\<forall>source \<in> set (pb_sources p). source_full source"
  from scan_sources_full [OF this, of "pb_transport p" clock "pb_subscriptions p" s]
  show "\<exists>n p' s'. scan_and_notify clock p s = Some (n, p', s')
        \<and> n \<le> length (pb_sources p) * subscription_count p
        \<and> list_all2 same_subscription (pb_subscriptions p) (pb_subscriptions p')
        \<and> list_all2 same_source (pb_sources p) (pb_sources p')
        \<and> (\<forall>source \<in> set (pb_sources p'). source_full source)"
    by (auto simp: scan_and_notify_def subscription_count_def)
qed (auto simp: scan_and_notify_def notify_one_def Let_def vector_slice_short split: prod.split)

text \<open>A data source of two registers from address 10 on: the number of scans so far, and its square.\<close>

definition counting_source :: "nat DataSource" where
  "counting_source = \<lparr>ds_start = 10, ds_count = 2, ds_reader = (\<lambda>s. ([of_nat s, of_nat (s * s)], Suc s)),
     ds_last_values = [], ds_has_baseline = False\<rparr>"

definition counting_publisher :: "double \<Rightarrow> nat publisher" where
  "counting_publisher dead_band = \<lparr>pb_transport = None, pb_sources = [counting_source],
     pb_subscriptions = [\<lparr>as_id = 1, as_client = 3,
       as_request = SubscriptionRequest_default\<lparr>sr_start_address := 11, sr_dead_band := dead_band\<rparr>,
       as_last_notified = Timestamp 0\<rparr>], pb_next_sub_id = 2\<rparr>"

definition broken_publisher :: "nat publisher" where
  "broken_publisher = (counting_publisher (Fin 1))\<lparr>pb_sources := [counting_source\<lparr>ds_reader := Pair []\<rparr>]\<rparr>"

theorem publisher_scan_safe_witness:
  "(\<exists>n p' s'. scan_and_notify (\<lambda>_. Timestamp 0) (counting_publisher (Fin 1)) 0 = Some (n, p', s') \<and> n \<le> 1)
   \<and> scan_and_notify (\<lambda>_. Timestamp 0) broken_publisher 0 = None"
proof
  have "\<forall>source \<in> set (pb_sources (counting_publisher (Fin 1))). source_full source"
    by (simp add: counting_publisher_def counting_source_def source_full_def)
  from conjunct1 [OF publisher_scan_safe, THEN mp, OF this, of "\<lambda>_. Timestamp 0" 0]
  show "\<exists>n p' s'. scan_and_notify (\<lambda>_. Timestamp 0) (counting_publisher (Fin 1)) 0 = Some (n, p', s') \<and> n \<le> 1"
    by (auto simp: counting_publisher_def subscription_count_def)
  show "scan_and_notify (\<lambda>_. Timestamp 0) broken_publisher 0 = None"
    by (rule conjunct2 [OF publisher_scan_safe, THEN mp])
      (auto simp: broken_publisher_def counting_publisher_def counting_source_def SubscriptionRequest_default_def)
qed

text \<open>
  What triggers: an on-change subscription with a baseline triggers exactly when
  some register differs from the previous scan by more than the dead band; a threshold
  subscription triggers on every scan whose first register, as an unsigned integer whatever
  the register type, is above the high or below the low threshold, also when it was on the
  previous scan, so it tests a level and not a crossing; a periodic one triggers when the interval has
  passed since its last notification.
\<close>

theorem triggers_exact:
  "(sr_trigger (as_request sub) = OnChange \<and> previous \<noteq> [] \<longrightarrow>
      (should_notify now sub current previous \<longleftrightarrow>
        (\<exists>i < min (length current) (length previous).
           d_less (sr_dead_band (as_request sub)) (Fin (rat_of_int \<bar>uint (current ! i) - uint (previous ! i)\<bar>)))))
   \<and> (sr_trigger (as_request sub) = OnThreshold \<longrightarrow>
      (should_notify now sub current previous \<longleftrightarrow> current \<noteq> [] \<and>
        (\<exists>t. sr_threshold_high (as_request sub) = Some t \<and> d_less t (Fin (rat_of_int (uint (hd current))))
           \<or> sr_threshold_low (as_request sub) = Some t \<and> d_less (Fin (rat_of_int (uint (hd current)))) t)))
   \<and> (sr_trigger (as_request sub) = Periodic \<longrightarrow>
      (should_notify now sub current previous \<longleftrightarrow>
        (\<exists>i. sr_interval (as_request sub) = Some i
           \<and> epoch_microseconds (as_last_notified sub) + i * 1000 \<le> epoch_microseconds now)))"
  by (auto simp: should_notify_def Let_def any_change_iff hd_conv_nth split: option.split)

theorem triggers_exact_witness:
  "should_notify (Timestamp 0) \<lparr>as_id = 1, as_client = 3, as_request = SubscriptionRequest_default\<lparr>sr_dead_band := Fin 4\<rparr>,
     as_last_notified = Timestamp 0\<rparr> [7, 15] [3, 10]"
  using triggers_exact [of "\<lparr>as_id = 1, as_client = 3, as_request = SubscriptionRequest_default\<lparr>sr_dead_band := Fin 4\<rparr>,
     as_last_notified = Timestamp 0\<rparr>" "[3, 10]" "Timestamp 0" "[7, 15]"]
  by (auto simp: SubscriptionRequest_default_def intro: exI [of _ 1])

text \<open>One scan: no register moves by more than the dead band, so no one is notified and the new values are the baseline.\<close>

lemma drift_scan:
  assumes "pb_sources p = [source]" and "ds_has_baseline source"
    and "ds_reader source s = (current, s1)" and "unat (ds_count source) \<le> length current"
    and "length (ds_last_values source) = length current"
    and "\<forall>sub \<in> set (pb_subscriptions p). sr_trigger (as_request sub) = OnChange
      \<and> 0 < sr_count (as_request sub)
      \<and> (\<forall>i < length current. \<not> d_less (sr_dead_band (as_request sub))
            (Fin (rat_of_int \<bar>uint (current ! i) - uint (ds_last_values source ! i)\<bar>)))"
  shows "scan_and_notify clock p s = Some (0, p\<lparr>pb_sources := [source\<lparr>ds_last_values := current\<rparr>]\<rparr>, s1)"
proof -
  have one: "notify_one T clock source current sub s1 = Some (0, sub, s1)"
    if sub: "sub \<in> set (pb_subscriptions p)" for T sub
  proof (cases "sr_start_address (as_request sub) < ds_start source
      \<or> unat (sr_start_address (as_request sub)) \<ge> unat (ds_start source) + unat (ds_count source)")
    case True
    then show ?thesis by (auto simp: notify_one_def Let_def)
  next
    case False
    define offset where "offset = unat (sr_start_address (as_request sub)) - unat (ds_start source)"
    have offset: "offset < length current"
      using False assms(4) by (auto simp: offset_def word_less_nat_alt)
    let ?slice = "\<lambda>xs. take (unat (sr_count (as_request sub))) (drop offset xs)"
    have "\<not> any_change (sr_dead_band (as_request sub)) (?slice current) (?slice (ds_last_values source))"
      using assms(5,6) sub offset by (auto simp: any_change_iff)
    moreover have "?slice (ds_last_values source) \<noteq> []"
    proof -
      have "0 < unat (sr_count (as_request sub))" using assms(6) sub by (simp add: unat_gt_0 word_neq_0_conv)
      then show ?thesis using offset assms(5) by simp
    qed
    ultimately have "\<not> should_notify (clock s1) sub (?slice current) (?slice (ds_last_values source))"
      using assms(6) sub by (simp add: should_notify_def Let_def)
    then show ?thesis
      using False offset assms(2,5) by (auto simp: notify_one_def Let_def vector_slice_eq simp flip: offset_def)
  qed
  have "notify_subscriptions T clock source current subs s1 = Some (0, subs, s1)"
    if "set subs \<subseteq> set (pb_subscriptions p)" for T subs
    using that one by (induction subs) auto
  then have "notify_subscriptions (pb_transport p) clock source current (pb_subscriptions p) s1
      = Some (0, pb_subscriptions p, s1)" by simp
  then show ?thesis using assms(1,2,3) by (simp add: scan_and_notify_def)
qed

text \<open>Any number of scans, and the notifications that they count.\<close>

fun scans :: "('s \<Rightarrow> Timestamp) \<Rightarrow> nat \<Rightarrow> 's publisher \<Rightarrow> 's \<Rightarrow> (nat \<times> 's publisher \<times> 's) option" where
  "scans clock 0 p s = Some (0, p, s)"
| "scans clock (Suc n) p s = (case scan_and_notify clock p s of
     None \<Rightarrow> None
   | Some (k, p, s) \<Rightarrow> map_option (\<lambda>(k', p, s). (k + k', p, s)) (scans clock n p s))"

text \<open>
  Property C39. The dead band compares with the previous scan, not with the last value the
  subscriber was told: if a source moves from scan to scan by at most the dead band, also by exactly the dead band,
  then any number of scans notifies no one, however far the registers are from where they began; the
  last values read are the new baseline.
\<close>

theorem slow_drift_unnoticed:
  assumes "pb_sources p = [source]" and "ds_has_baseline source" and "ds_last_values source = readings 0"
    and "\<forall>i < n. ds_reader source (w i) = (readings (Suc i), w (Suc i))"
    and "\<forall>i \<le> n. length (readings i) = m" and "unat (ds_count source) \<le> m"
    and "\<forall>sub \<in> set (pb_subscriptions p). sr_trigger (as_request sub) = OnChange
      \<and> 0 < sr_count (as_request sub)
      \<and> (\<forall>i < n. \<forall>j < m. \<not> d_less (sr_dead_band (as_request sub))
            (Fin (rat_of_int \<bar>uint (readings (Suc i) ! j) - uint (readings i ! j)\<bar>)))"
  shows "scans clock n p (w 0) = Some (0, p\<lparr>pb_sources := [source\<lparr>ds_last_values := readings n\<rparr>]\<rparr>, w n)"
  using assms
proof (induction n arbitrary: p source readings w)
  case 0
  then show ?case by simp
next
  case (Suc n)
  define source1 where "source1 = source\<lparr>ds_last_values := readings 1\<rparr>"
  define p1 where "p1 = p\<lparr>pb_sources := [source1]\<rparr>"
  have one: "scan_and_notify clock p (w 0) = Some (0, p1, w 1)"
    unfolding p1_def source1_def
    by (rule drift_scan [OF Suc.prems(1,2)]) (use Suc.prems(3-7) in \<open>auto dest: spec [of _ 0]\<close>)
  have "scans clock n p1 (w (Suc 0)) = Some (0, p1\<lparr>pb_sources := [source1\<lparr>ds_last_values := readings (Suc n)\<rparr>]\<rparr>, w (Suc n))"
    by (rule Suc.IH [where readings = "\<lambda>i. readings (Suc i)" and w = "\<lambda>i. w (Suc i)"])
      (use Suc.prems in \<open>simp_all add: p1_def source1_def\<close>)
  then show ?case using one by (simp add: p1_def source1_def)
qed

definition drifting_publisher :: "nat publisher" where
  "drifting_publisher = (counting_publisher (Fin 1))\<lparr>pb_sources :=
     [counting_source\<lparr>ds_reader := (\<lambda>s. ([0, of_nat s], Suc s)), ds_last_values := [0, 100], ds_has_baseline := True\<rparr>]\<rparr>"

theorem slow_drift_unnoticed_witness:
  "scans (\<lambda>_. Timestamp 0) 5000 drifting_publisher 101 = Some (0, drifting_publisher\<lparr>pb_sources :=
     [counting_source\<lparr>ds_reader := (\<lambda>s. ([0, of_nat s], Suc s)), ds_last_values := [0, 5100], ds_has_baseline := True\<rparr>]\<rparr>, 5101)"
proof -
  have u: "uint (of_nat n :: register) = int n" if "n < 65536" for n
    using that by (simp only: uint_nat unat_of_nat) simp
  have step: "\<bar>uint (of_nat (100 + Suc i) :: register) - uint (of_nat (100 + i) :: register)\<bar> \<le> 1" if "i < 5000" for i
    using that u [of "100 + Suc i"] u [of "100 + i"] by linarith
  have drift: "\<not> d_less (Fin 1)
      (Fin (rat_of_int \<bar>uint ([0, of_nat (100 + Suc i)] ! j :: register) - uint ([0, of_nat (100 + i)] ! j :: register)\<bar>))"
    if "i < 5000" "j < 2" for i j
  proof (cases j)
    case 0
    then show ?thesis by simp
  next
    case (Suc k)
    then have "j = 1" using that(2) by simp
    then show ?thesis using step [OF that(1)] by (simp only: nth_Cons_0 nth_Cons_Suc One_nat_def d_less.simps not_less of_int_le_1_iff)
  qed
  have "scans (\<lambda>_. Timestamp 0) 5000 drifting_publisher ((\<lambda>i. 101 + i) 0) = Some (0, drifting_publisher\<lparr>pb_sources :=
     [(hd (pb_sources drifting_publisher))\<lparr>ds_last_values := (\<lambda>i. [0, of_nat (100 + i)]) 5000\<rparr>]\<rparr>, (\<lambda>i. 101 + i) 5000)"
  proof (rule slow_drift_unnoticed [where m = 2])
    show "\<forall>sub \<in> set (pb_subscriptions drifting_publisher). sr_trigger (as_request sub) = OnChange
      \<and> 0 < sr_count (as_request sub) \<and> (\<forall>i < 5000. \<forall>j < 2. \<not> d_less (sr_dead_band (as_request sub))
            (Fin (rat_of_int \<bar>uint ([0, of_nat (100 + Suc i)] ! j :: register) - uint ([0, of_nat (100 + i)] ! j :: register)\<bar>)))"
      using drift by (simp add: drifting_publisher_def counting_publisher_def SubscriptionRequest_default_def del: of_nat_add of_nat_Suc)
  qed (simp_all add: drifting_publisher_def counting_publisher_def counting_source_def)
  then show ?thesis by (simp add: drifting_publisher_def)
qed

end
