(* ===== verification/Client.thy ===== *)
theory Client
  imports Frame_Codec Batch Security Scanner Pipeline Pubsub
begin

text \<open>
  Component \<open>client/client.cpp\<close>: the client over any transport.

  The transport is a record of state transformers on the world \<open>'s\<close>, the credential store a
  function, \<open>clock\<close> reads the time off the world, and the nonce that \<open>authenticate\<close> draws is
  an argument. An operation returns its result with the client and the world after it, and is
  \<open>None\<close> where the code reads outside a frame (\<open>unwrap_tcp\<close> on a zero length field).
\<close>

section \<open>State\<close>

record 's ClientConfig =
  cc_transport :: "'s transport"
  cc_credentials :: "(unit_id \<Rightarrow> byte list Result) option"
  cc_pipeline_config :: PipelineConfig
  cc_enable_timestamps :: bool
  cc_default_timeout :: milliseconds

record ('cb, 'h, 's) client =
  cl_config :: "'s ClientConfig"
  cl_pipeline :: "'cb pipeline"
  cl_subscriber :: "('h, 's) subscriber"
  cl_session :: "Session option"
  cl_next_transaction_id :: u16

definition ClientConfig_default :: "'s transport \<Rightarrow> 's ClientConfig" where
  "ClientConfig_default T = \<lparr>cc_transport = T, cc_credentials = None,
     cc_pipeline_config = PipelineConfig_default, cc_enable_timestamps = True, cc_default_timeout = 1000\<rparr>"

definition Client :: "'s ClientConfig \<Rightarrow> ('cb, 'h, 's) client" where
  "Client config = \<lparr>cl_config = config, cl_pipeline = Pipeline (cc_pipeline_config config),
     cl_subscriber = Subscriber (Some (cc_transport config)), cl_session = None, cl_next_transaction_id = 1\<rparr>"

section \<open>Transactions\<close>

text \<open>What \<open>transact\<close> makes of a decoded response.\<close>

definition check_exception :: "PDU \<Rightarrow> PDU Result" where
  "check_exception resp_pdu =
     (if function_code resp_pdu AND 0x80 \<noteq> 0 then
        (if length (payload resp_pdu) \<ge> 1 then Err (make_error_code (uint (payload resp_pdu ! 0)))
         else err InvalidFrame)
      else Ok resp_pdu)"

definition transact :: "unit_id \<Rightarrow> PDU \<Rightarrow> ('cb, 'h, 's) client \<Rightarrow> 's
    \<Rightarrow> (PDU Result \<times> ('cb, 'h, 's) client \<times> 's) option" where
  "transact u request cl s =
     (let txn_id = cl_next_transaction_id cl;
          cl = cl\<lparr>cl_next_transaction_id := txn_id + 1\<rparr>;
          frame = wrap_tcp u request txn_id;
          T = cc_transport (cl_config cl) in
      case t_send T frame s of (send_result, s) \<Rightarrow>
        if \<not> void_has_value send_result then Some (Err (vr_ec send_result), cl, s)
        else (case t_receive T (cc_default_timeout (cl_config cl)) s of
            (Err ec, s) \<Rightarrow> Some (Err ec, cl, s)
          | (Ok reply, s) \<Rightarrow>
              (case unwrap_tcp (span_of reply) of
                 None \<Rightarrow> None
               | Some (Err ec) \<Rightarrow> Some (Err ec, cl, s)
               | Some (Ok (resp_unit, resp_pdu, resp_txn)) \<Rightarrow> Some (check_exception resp_pdu, cl, s))))"

section \<open>Standard operations\<close>

definition read_request :: "address \<Rightarrow> quantity \<Rightarrow> PDU" where
  "read_request addr cnt = make_standard (FunctionCode_value ReadHoldingRegisters)
     [hi8 addr, lo8 addr, hi8 cnt, lo8 cnt]"

definition parse_read_response :: "PDU \<Rightarrow> register list Result" where
  "parse_read_response pdu =
     (let pl = payload pdu in
      if length pl < 1 then err InvalidFrame
      else let byte_count = pl ! 0 in
        if length pl < 1 + unat byte_count then err InvalidFrame
        else Ok (bytes_to_regs (drop 1 pl)))"

definition read_holding_registers :: "unit_id \<Rightarrow> address \<Rightarrow> quantity \<Rightarrow> ('cb, 'h, 's) client \<Rightarrow> 's
    \<Rightarrow> (register list Result \<times> ('cb, 'h, 's) client \<times> 's) option" where
  "read_holding_registers u addr cnt cl s =
     (case transact u (read_request addr cnt) cl s of
        None \<Rightarrow> None
      | Some (Err ec, cl, s) \<Rightarrow> Some (Err ec, cl, s)
      | Some (Ok pdu, cl, s) \<Rightarrow> Some (parse_read_response pdu, cl, s))"

text \<open>A failed transaction becomes a \<open>Result<void>\<close> built from its error code.\<close>

definition write_result :: "PDU Result \<Rightarrow> VoidResult" where
  "write_result r = (case r of Err ec \<Rightarrow> VoidResult ec | Ok pdu \<Rightarrow> void_ok)"

definition write_single_request :: "address \<Rightarrow> register \<Rightarrow> PDU" where
  "write_single_request addr val = make_standard (FunctionCode_value WriteSingleRegister)
     [hi8 addr, lo8 addr, hi8 val, lo8 val]"

definition write_single_register :: "unit_id \<Rightarrow> address \<Rightarrow> register \<Rightarrow> ('cb, 'h, 's) client \<Rightarrow> 's
    \<Rightarrow> (VoidResult \<times> ('cb, 'h, 's) client \<times> 's) option" where
  "write_single_register u addr val cl s =
     map_option (\<lambda>(r, cl, s). (write_result r, cl, s)) (transact u (write_single_request addr val) cl s)"

definition write_multiple_request :: "address \<Rightarrow> register list \<Rightarrow> PDU" where
  "write_multiple_request addr vals =
     (let cnt = of_nat (length vals) :: quantity;
          byte_count = ucast (cnt * 2) :: byte in
      make_standard (FunctionCode_value WriteMultipleRegisters)
        ([hi8 addr, lo8 addr, hi8 cnt, lo8 cnt, byte_count] @ regs_to_bytes vals))"

definition write_multiple_registers :: "unit_id \<Rightarrow> address \<Rightarrow> register list \<Rightarrow> ('cb, 'h, 's) client \<Rightarrow> 's
    \<Rightarrow> (VoidResult \<times> ('cb, 'h, 's) client \<times> 's) option" where
  "write_multiple_registers u addr vals cl s =
     map_option (\<lambda>(r, cl, s). (write_result r, cl, s)) (transact u (write_multiple_request addr vals) cl s)"

section \<open>Extended operations\<close>

definition batch_request_pdu :: "('s \<Rightarrow> Timestamp) \<Rightarrow> BatchRequest \<Rightarrow> ('cb, 'h, 's) client \<Rightarrow> 's \<Rightarrow> PDU" where
  "batch_request_pdu clock request cl s =
     (let hdr = FrameHeader_default\<lparr>ext_function_code := ExtendedFunctionCode_value BatchRead\<rparr>;
          hdr = (if cc_enable_timestamps (cl_config cl) then hdr\<lparr>timestamp := Some (clock s)\<rparr> else hdr) in
      make_extended hdr (BatchRequest_serialize request) None)"

definition batch_read :: "('s \<Rightarrow> Timestamp) \<Rightarrow> unit_id \<Rightarrow> BatchRequest \<Rightarrow> ('cb, 'h, 's) client \<Rightarrow> 's
    \<Rightarrow> (BatchResponse Result \<times> ('cb, 'h, 's) client \<times> 's) option" where
  "batch_read clock u request cl s =
     (case transact u (batch_request_pdu clock request cl s) cl s of
        None \<Rightarrow> None
      | Some (Err ec, cl, s) \<Rightarrow> Some (Err ec, cl, s)
      | Some (Ok pdu, cl, s) \<Rightarrow>
          map_option (\<lambda>r. (r, cl, s)) (BatchResponse_deserialize (span_of (payload pdu))))"

definition auth_pdu :: "ExtendedFunctionCode \<Rightarrow> byte list \<Rightarrow> PDU" where
  "auth_pdu fc pl = make_extended (FrameHeader_default\<lparr>ext_function_code := ExtendedFunctionCode_value fc\<rparr>) pl None"

text \<open>Steps 3 and 4 of the handshake, once the server's answer to the challenge has been verified.\<close>

definition auth_finish :: "hmac_function \<Rightarrow> Nonce \<Rightarrow> Nonce \<Rightarrow> byte list \<Rightarrow> unit_id \<Rightarrow> ('cb, 'h, 's) client \<Rightarrow> 's
    \<Rightarrow> (Session Result \<times> ('cb, 'h, 's) client \<times> 's) option" where
  "auth_finish mac client_nonce server_nonce shared_secret u cl s =
     (let client_response = compute_auth_response mac client_nonce server_nonce shared_secret in
      case transact u (auth_pdu AuthResponse client_response) cl s of
        None \<Rightarrow> None
      | Some (Err ec, cl, s) \<Rightarrow> Some (Err ec, cl, s)
      | Some (Ok step4, cl, s) \<Rightarrow>
          (let session_payload = payload step4 in
           if length session_payload < 24 then Some (err AuthenticationFailed, cl, s)
           else (case Timestamp_deserialize (drop 16 session_payload) of
               None \<Rightarrow> None
             | Some expiry \<Rightarrow>
                 (let session_key = derive_session_key mac client_nonce server_nonce shared_secret;
                      session = Session_create (take 16 session_payload) session_key expiry in
                  Some (Ok session, cl\<lparr>cl_session := Some session\<rparr>, s)))))"

definition authenticate :: "hmac_function \<Rightarrow> Nonce \<Rightarrow> unit_id \<Rightarrow> ('cb, 'h, 's) client \<Rightarrow> 's
    \<Rightarrow> (Session Result \<times> ('cb, 'h, 's) client \<times> 's) option" where
  "authenticate mac client_nonce u cl s =
     (case cc_credentials (cl_config cl) of
        None \<Rightarrow> Some (err AuthenticationFailed, cl, s)
      | Some lookup \<Rightarrow>
          (case lookup u of
             Err ec \<Rightarrow> Some (Err ec, cl, s)
           | Ok shared_secret \<Rightarrow>
               (case transact u (auth_pdu AuthChallenge client_nonce) cl s of
                  None \<Rightarrow> None
                | Some (Err ec, cl, s) \<Rightarrow> Some (Err ec, cl, s)
                | Some (Ok step2, cl, s) \<Rightarrow>
                    (let resp_payload = payload step2 in
                     if length resp_payload < 48 then Some (err AuthenticationFailed, cl, s)
                     else
                       (let server_nonce = take 16 resp_payload;
                            server_hmac = take 32 (drop 16 resp_payload);
                            expected = compute_auth_challenge_response mac client_nonce server_nonce shared_secret in
                        if expected \<noteq> server_hmac then Some (err HMACMismatch, cl, s)
                        else auth_finish mac client_nonce server_nonce shared_secret u cl s)))))"

definition discover :: "('s \<Rightarrow> Timestamp) \<Rightarrow> ScannerConfig \<Rightarrow> ('cb, 'h, 's) client \<Rightarrow> 's
    \<Rightarrow> (DeviceInfo list \<times> 's) option" where
  "discover clock config cl s = scan (cc_transport (cl_config cl)) clock config s"

text \<open>The client after \<open>n\<close> transactions.\<close>

definition advance_txn :: "nat \<Rightarrow> ('cb, 'h, 's) client \<Rightarrow> ('cb, 'h, 's) client" where
  "advance_txn n cl = cl\<lparr>cl_next_transaction_id := cl_next_transaction_id cl + of_nat n\<rparr>"

section \<open>The contract of a link that answers\<close>

text \<open>
  What an operation of the client needs of its transport and of whoever is at the other end:
  in a world that is \<open>ready\<close>, a frame \<open>f\<close> that the peer answers by the PDU \<open>resp\<close> is accepted, the next
  receive returns an ADU with that PDU, and the world is ready again.
\<close>

locale answering_link =
  fixes T :: "'s transport" and ready :: "'s \<Rightarrow> bool"
    and answer :: "frame \<Rightarrow> 's \<Rightarrow> (PDU \<times> 's) option"
  assumes exchange: "ready s \<Longrightarrow> answer f s = Some (resp, s') \<Longrightarrow>
      \<exists>s1 u txn. t_send T f s = (void_ok, s1) \<and> (\<forall>timeout. t_receive T timeout s1 = (Ok (wrap_tcp u resp txn), s'))"
    and answer_carried: "answer f s = Some (resp, s') \<Longrightarrow> PDU_wf resp \<and> 1 + length (PDU_serialize resp) < 2 ^ 16"
    and answer_ready: "ready s \<Longrightarrow> answer f s = Some (resp, s') \<Longrightarrow> ready s'"
begin

lemma transact_answered:
  assumes "cc_transport (cl_config cl) = T" "ready s"
    and "answer (wrap_tcp u request (cl_next_transaction_id cl)) s = Some (resp, s')"
  shows "transact u request cl s =
    Some (check_exception resp, cl\<lparr>cl_next_transaction_id := cl_next_transaction_id cl + 1\<rparr>, s')"
proof -
  obtain s1 u' txn where ex: "t_send T (wrap_tcp u request (cl_next_transaction_id cl)) s = (void_ok, s1)"
    "\<And>timeout. t_receive T timeout s1 = (Ok (wrap_tcp u' resp txn), s')"
    using exchange [OF assms(2,3)] by blast
  have wf: "PDU_wf resp" "1 + length (PDU_serialize resp) < 2 ^ 16"
    using answer_carried [OF assms(3)] by blast+
  show ?thesis
    using assms(1) ex tcp_roundtrip [OF wf, of u' txn "[]"] by (simp add: transact_def Let_def)
qed

lemma read_answered:
  assumes "cc_transport (cl_config cl) = T" "ready s"
    and "answer (wrap_tcp u (read_request addr cnt) (cl_next_transaction_id cl)) s = Some (resp, s')"
  shows "read_holding_registers u addr cnt cl s =
    Some (and_then (check_exception resp) parse_read_response,
          cl\<lparr>cl_next_transaction_id := cl_next_transaction_id cl + 1\<rparr>, s')"
  using transact_answered [OF assms]
  by (cases "check_exception resp") (simp_all add: read_holding_registers_def)

lemma write_single_answered:
  assumes "cc_transport (cl_config cl) = T" "ready s"
    and "answer (wrap_tcp u (write_single_request addr val) (cl_next_transaction_id cl)) s = Some (resp, s')"
  shows "write_single_register u addr val cl s =
    Some (write_result (check_exception resp),
          cl\<lparr>cl_next_transaction_id := cl_next_transaction_id cl + 1\<rparr>, s')"
  using transact_answered [OF assms] by (simp add: write_single_register_def)

lemma write_multiple_answered:
  assumes "cc_transport (cl_config cl) = T" "ready s"
    and "answer (wrap_tcp u (write_multiple_request addr vals) (cl_next_transaction_id cl)) s = Some (resp, s')"
  shows "write_multiple_registers u addr vals cl s =
    Some (write_result (check_exception resp),
          cl\<lparr>cl_next_transaction_id := cl_next_transaction_id cl + 1\<rparr>, s')"
  using transact_answered [OF assms] by (simp add: write_multiple_registers_def)

end

text \<open>
  The script of the discovery tests is such a link: ready while only answers that a client can decode are left.
\<close>

definition script_answer :: "frame \<Rightarrow> frame list \<Rightarrow> (PDU \<times> frame list) option" where
  "script_answer f script = (case script of
     [] \<Rightarrow> None
   | reply # rest \<Rightarrow>
       (case unwrap_tcp (span_of reply) of
          Some (Ok (u, resp, txn)) \<Rightarrow>
            if reply = wrap_tcp u resp txn \<and> PDU_wf resp \<and> 1 + length (PDU_serialize resp) < 2 ^ 16
            then Some (resp, rest) else None
        | _ \<Rightarrow> None))"

interpretation scripted: answering_link scripted_transport "\<lambda>_. True" script_answer
proof
  fix s f resp s' assume "script_answer f s = Some (resp, s')"
  then obtain reply u txn where "s = reply # s'" "reply = wrap_tcp u resp txn" "PDU_wf resp"
    "1 + length (PDU_serialize resp) < 2 ^ 16"
    by (auto simp: script_answer_def split: list.splits option.splits Result.splits if_splits)
  then show "\<exists>s1 u txn. t_send scripted_transport f s = (void_ok, s1)
      \<and> (\<forall>timeout. t_receive scripted_transport timeout s1 = (Ok (wrap_tcp u resp txn), s'))"
    and "PDU_wf resp \<and> 1 + length (PDU_serialize resp) < 2 ^ 16"
    by (auto simp: scripted_transport_def)
qed simp

lemma script_answer_wrap:
  assumes "PDU_wf resp" "1 + length (PDU_serialize resp) < 2 ^ 16"
  shows "script_answer f (wrap_tcp u resp txn # rest) = Some (resp, rest)"
  using assms tcp_roundtrip [OF assms, of u txn "[]"] by (simp add: script_answer_def)

section \<open>Authentication\<close>

lemma authenticate_Ok:
  assumes "authenticate mac client_nonce u cl s = Some (Ok session, cl', s')" and "length client_nonce = 16"
  shows "\<exists>lookup secret step2 cl1 s1.
     cc_credentials (cl_config cl) = Some lookup \<and> lookup u = Ok secret
     \<and> transact u (auth_pdu AuthChallenge client_nonce) cl s = Some (Ok step2, cl1, s1)
     \<and> take 32 (drop 16 (payload step2)) = mac secret (client_nonce @ take 16 (payload step2))
     \<and> ss_session_key session = take 32 (drop 16 (payload step2))
     \<and> ss_authenticated session \<and> cl_session cl' = Some session"
proof -
  obtain lookup secret where cred: "cc_credentials (cl_config cl) = Some lookup" "lookup u = Ok secret"
    using assms(1) by (auto simp: authenticate_def err_def split: option.splits Result.splits)
  obtain step2 cl1 s1 where t: "transact u (auth_pdu AuthChallenge client_nonce) cl s = Some (Ok step2, cl1, s1)"
    using assms(1) cred by (auto simp: authenticate_def split: option.splits Result.splits)
  define server_nonce where "server_nonce = take 16 (payload step2)"
  have len: "48 \<le> length (payload step2)"
    and mac: "compute_auth_challenge_response mac client_nonce server_nonce secret = take 32 (drop 16 (payload step2))"
    and fin: "auth_finish mac client_nonce server_nonce secret u cl1 s1 = Some (Ok session, cl', s')"
    using assms(1) cred t
    by (auto simp: authenticate_def Let_def server_nonce_def err_def split: if_splits)
  have "compute_auth_challenge_response mac client_nonce server_nonce secret = mac secret (client_nonce @ server_nonce)"
    using len assms(2)
    by (simp add: compute_auth_challenge_response_def HMACAuth_compute_def concat_nonces_eq server_nonce_def)
  moreover have "ss_session_key session = derive_session_key mac client_nonce server_nonce secret
      \<and> ss_authenticated session \<and> cl_session cl' = Some session"
    using fin by (auto simp: auth_finish_def Let_def err_def Session_create_def
        split: option.splits Result.splits if_splits)
  ultimately show ?thesis
    using cred t mac by (simp add: session_key_is_challenge_response server_nonce_def)
qed

lemma auth_pdu_sel [simp]:
  "payload (auth_pdu fc pl) = pl" "check_exception (auth_pdu fc pl) = Ok (auth_pdu fc pl)"
  by (simp_all add: auth_pdu_def check_exception_def)

lemma auth_pdu_carried:
  assumes "length pl < 65000"
  shows "PDU_wf (auth_pdu fc pl)" "1 + length (PDU_serialize (auth_pdu fc pl)) < 2 ^ 16"
  using make_extended_carried [of "FrameHeader_default\<lparr>ext_function_code := ExtendedFunctionCode_value fc\<rparr>" pl None] assms
  by (simp_all add: auth_pdu_def FrameHeader_default_def)

section \<open>Properties\<close>

text \<open>
  Property C26. What a successful handshake shows and what it gives away: when \<open>authenticate\<close>
  returns a session, the peer's answer to the challenge was the HMAC under the shared secret
  of the fresh client nonce and the server's nonce, so the peer knew the secret; and the key
  of the session is those very 32 bytes of that answer, which anyone on the line has read.
\<close>

theorem authenticate_key_in_clear:
  assumes "authenticate mac client_nonce u cl s = Some (Ok session, cl', s')" and "length client_nonce = 16"
  shows "\<exists>lookup secret step2 cl1 s1.
     cc_credentials (cl_config cl) = Some lookup \<and> lookup u = Ok secret
     \<and> transact u (auth_pdu AuthChallenge client_nonce) cl s = Some (Ok step2, cl1, s1)
     \<and> take 32 (drop 16 (payload step2)) = mac secret (client_nonce @ take 16 (payload step2))
     \<and> ss_session_key session = take 32 (drop 16 (payload step2))
     \<and> ss_authenticated session \<and> cl_session cl' = Some session"
  using assms by (rule authenticate_Ok)

definition example_client :: "(nat, string, frame list) client" where
  "example_client = Client ((ClientConfig_default scripted_transport)\<lparr>cc_credentials :=
     Some (get_key (add_credential 1 [9, 9] (\<lambda>_. None)))\<rparr>)"

definition example_handshake :: "frame list" where
  "example_handshake =
     [wrap_tcp 1 (auth_pdu AuthChallenge (replicate 16 5 @ toy_hmac [9, 9] (replicate 16 3 @ replicate 16 5))) 1,
      wrap_tcp 1 (auth_pdu AuthResponse (replicate 24 0)) 2]"

lemma length_toy_hmac [simp]: "length (toy_hmac key data) = 32"
  by (simp add: toy_hmac_def Let_def)

lemma example_authenticate:
  "\<exists>session cl'. authenticate toy_hmac (replicate 16 3) 1 example_client example_handshake = Some (Ok session, cl', [])"
proof -
  let ?step2 = "replicate 16 5 @ toy_hmac [9, 9] (replicate 16 3 @ replicate 16 5)"
  define cl1 where "cl1 = example_client\<lparr>cl_next_transaction_id := 2\<rparr>"
  define rest where "rest = [wrap_tcp 1 (auth_pdu AuthResponse (replicate 24 0)) 2]"
  have T: "cc_transport (cl_config example_client) = scripted_transport" "cc_transport (cl_config cl1) = scripted_transport"
    "cl_next_transaction_id example_client = 1"
    by (simp_all add: example_client_def Client_def ClientConfig_default_def cl1_def)
  have len: "length ?step2 < 65000" by simp
  have "script_answer f example_handshake = Some (auth_pdu AuthChallenge ?step2, rest)" for f
    unfolding example_handshake_def rest_def by (rule script_answer_wrap [OF auth_pdu_carried [OF len]])
  from scripted.transact_answered [OF T(1) TrueI this]
  have one: "transact 1 (auth_pdu AuthChallenge (replicate 16 3)) example_client example_handshake
      = Some (Ok (auth_pdu AuthChallenge ?step2), cl1, rest)"
    by (simp add: cl1_def T)
  have len2: "length (replicate 24 (0 :: byte)) < 65000" by simp
  have "script_answer f rest = Some (auth_pdu AuthResponse (replicate 24 0), [])" for f
    unfolding rest_def by (rule script_answer_wrap [OF auth_pdu_carried [OF len2]])
  from scripted.transact_answered [OF T(2) TrueI this]
  have two: "transact 1 (auth_pdu AuthResponse pl) cl1 rest
      = Some (Ok (auth_pdu AuthResponse (replicate 24 0)), cl1\<lparr>cl_next_transaction_id := 3\<rparr>, [])" for pl
    by (simp add: cl1_def)
  have "cc_credentials (cl_config example_client) = Some (get_key (add_credential 1 [9, 9] (\<lambda>_. None)))"
    by (simp add: example_client_def Client_def)
  moreover obtain expiry where "Timestamp_deserialize (replicate 8 0) = Some expiry"
    using Timestamp_deserialize_exists [of "replicate 8 0"] by auto
  ultimately show ?thesis
    using one two
    by (simp add: authenticate_def get_key_add Let_def compute_auth_challenge_response_def HMACAuth_compute_def
        concat_nonces_eq auth_finish_def)
qed

theorem authenticate_key_in_clear_witness:
  "\<exists>session cl'. authenticate toy_hmac (replicate 16 3) 1 example_client example_handshake = Some (Ok session, cl', [])
     \<and> (\<exists>secret snonce. ss_session_key session = toy_hmac secret (replicate 16 3 @ snonce))"
proof -
  obtain session cl' where a: "authenticate toy_hmac (replicate 16 3) 1 example_client example_handshake
      = Some (Ok session, cl', [])"
    using example_authenticate by blast
  show ?thesis using authenticate_key_in_clear [OF a] a by (metis length_replicate)
qed

text \<open>
  Property C40. A rejected write and an exception response with code 0, whatever unit and transaction it
  carries: \<open>transact\<close> builds a \<open>Result\<close> from the error code 0, which its constructor asserts not to be. In a
  build with assertions the peer so ends the program; in a build without them the write is reported as
  done, since a \<open>Result<void>\<close> takes the error code 0 for success.
\<close>

theorem write_exception_zero_succeeds:
  assumes "t_send (cc_transport (cl_config cl))
      (wrap_tcp u (write_single_request addr val) (cl_next_transaction_id cl)) s = (void_ok, s1)"
    and "t_receive (cc_transport (cl_config cl)) (cc_default_timeout (cl_config cl)) s1
      = (Ok (wrap_tcp u' (make_standard fc (0 # rest)) txn), s2)"
    and "fc AND 0x80 \<noteq> 0" and "length rest < 65000"
  shows "\<exists>ec r. transact u (write_single_request addr val) cl s =
      Some (Err ec, cl\<lparr>cl_next_transaction_id := cl_next_transaction_id cl + 1\<rparr>, s2) \<and> \<not> Result_assertion ec
    \<and> write_single_register u addr val cl s =
      Some (r, cl\<lparr>cl_next_transaction_id := cl_next_transaction_id cl + 1\<rparr>, s2) \<and> void_has_value r"
proof -
  have "PDU_wf (make_standard fc (0 # rest))" using assms(3) by auto
  moreover have "1 + length (PDU_serialize (make_standard fc (0 # rest))) < 2 ^ 16"
    using assms(4) by simp
  ultimately show ?thesis
    using assms(1-3) tcp_roundtrip [of "make_standard fc (0 # rest)" u' txn "[]"]
    by (simp add: write_single_register_def transact_def Let_def check_exception_def write_result_def Result_assertion_def
        void_has_value_def make_error_code_def ec_bool_def void_ok_def error_code_default_def)
qed

theorem write_exception_zero_succeeds_witness:
  "\<exists>r. write_single_register 1 40 7 example_client [wrap_tcp 99 (make_standard 0x86 [0]) 4242] =
      Some (r, example_client\<lparr>cl_next_transaction_id := 2\<rparr>, []) \<and> void_has_value r"
proof -
  let ?w = "[wrap_tcp 99 (make_standard 0x86 [0]) 4242]"
  have "\<exists>ec r. transact 1 (write_single_request 40 7) example_client ?w =
      Some (Err ec, example_client\<lparr>cl_next_transaction_id := cl_next_transaction_id example_client + 1\<rparr>, []) \<and> \<not> Result_assertion ec
    \<and> write_single_register 1 40 7 example_client ?w =
      Some (r, example_client\<lparr>cl_next_transaction_id := cl_next_transaction_id example_client + 1\<rparr>, []) \<and> void_has_value r"
    by (rule write_exception_zero_succeeds [where fc = "0x86" and rest = "[]" and u' = 99 and txn = 4242])
      (simp_all add: example_client_def Client_def ClientConfig_default_def scripted_transport_def, simp)
  then show ?thesis by (auto simp: example_client_def Client_def)
qed

end
