(* ===== verification/Tcp_Client.thy ===== *)
theory Tcp_Client
  imports Tcp_Transport Rtu_Transport Client
begin

text \<open>
  The TCP and the serial transport as implementations of the abstract class \<open>Transport\<close>, and the client over a TCP
  connection.

  A world is the object, or \<open>None\<close> once a call has been undefined (a \<open>read\<close> beyond its buffer) or has not returned
  (the receiving loop of the serial line): what a call returns from there on has no meaning, and no
  theorem below concludes anything of it.
\<close>

section \<open>The virtual functions\<close>

definition tcp_is_connected :: "'o tcp \<Rightarrow> bool" where
  "tcp_is_connected t = tcp_connected t"

definition tcp_transport_name :: string where
  "tcp_transport_name = ''tcp''"

definition tcp_destroy :: "'o posix \<Rightarrow> 'o tcp \<Rightarrow> 'o tcp" where
  "tcp_destroy px t = tcp_disconnect px t"

definition rtu_is_connected :: "'o rtu \<Rightarrow> bool" where
  "rtu_is_connected t = rtu_connected t"

definition rtu_transport_name :: string where
  "rtu_transport_name = ''rtu''"

definition rtu_destroy :: "'o serial \<Rightarrow> 'o rtu \<Rightarrow> 'o rtu" where
  "rtu_destroy px t = rtu_disconnect px t"

definition on_object :: "'r \<Rightarrow> ('w \<Rightarrow> ('r \<times> 'w) option) \<Rightarrow> 'w option \<Rightarrow> 'r \<times> 'w option" where
  "on_object junk f s = (case s of
     None \<Rightarrow> (junk, None)
   | Some t \<Rightarrow> (case f t of None \<Rightarrow> (junk, None) | Some (r, t) \<Rightarrow> (r, Some t)))"

definition TCP :: "'o posix \<Rightarrow> 'o tcp option transport" where
  "TCP px = \<lparr>
     t_send = (\<lambda>frame. on_object void_ok (\<lambda>t. Some (tcp_send px frame t))),
     t_receive = (\<lambda>timeout. on_object (Ok []) (\<lambda>t. case tcp_receive px timeout t of
         (None, t) \<Rightarrow> None | (Some r, t) \<Rightarrow> Some (r, t))),
     t_connect = on_object void_ok (\<lambda>t. Some (tcp_connect px t)),
     t_disconnect = map_option (tcp_disconnect px),
     t_is_connected = (\<lambda>s. case s of None \<Rightarrow> False | Some t \<Rightarrow> tcp_is_connected t),
     t_transport_name = tcp_transport_name\<rparr>"

definition RTU :: "'o serial \<Rightarrow> 'o rtu option transport" where
  "RTU px = \<lparr>
     t_send = (\<lambda>frame. on_object void_ok (\<lambda>t. Some (rtu_send px frame t))),
     t_receive = (\<lambda>timeout. on_object (Ok []) (rtu_receive px timeout)),
     t_connect = on_object void_ok (\<lambda>t. Some (rtu_connect px t)),
     t_disconnect = map_option (rtu_disconnect px),
     t_is_connected = (\<lambda>s. case s of None \<Rightarrow> False | Some t \<Rightarrow> rtu_is_connected t),
     t_transport_name = rtu_transport_name\<rparr>"

lemma TCP_sel [simp]:
  "t_send (TCP px) frame (Some t) = (case tcp_send px frame t of (r, t) \<Rightarrow> (r, Some t))"
  "t_receive (TCP px) timeout (Some t) = (case tcp_receive px timeout t of
     (None, t) \<Rightarrow> (Ok [], None) | (Some r, t) \<Rightarrow> (r, Some t))"
  by (auto simp: TCP_def on_object_def split: prod.split option.split)

section \<open>A peer\<close>

text \<open>The states that writing to a descriptor leads to.\<close>

inductive written :: "'o posix \<Rightarrow> int \<Rightarrow> 'o \<Rightarrow> 'o \<Rightarrow> bool" for px fd os where
  start: "written px fd os os"
| more_bytes: "written px fd os os1 \<Longrightarrow> px_write px fd bs os1 = (k, os2) \<Longrightarrow> written px fd os os2"

text \<open>
  What the connection relies on: the peer sees the bytes of a request in order, in whatever pieces, and
  once it has seen all of \<open>request\<close> it answers \<open>reply\<close>; nothing else is on its way to us.
\<close>

definition peer_answers :: "'o posix \<Rightarrow> int \<Rightarrow> ('o \<Rightarrow> byte list) \<Rightarrow> ('o \<Rightarrow> byte list) \<Rightarrow> 'o \<Rightarrow> byte list \<Rightarrow> byte list \<Rightarrow> bool" where
  "peer_answers px fd sent incoming os request reply \<longleftrightarrow>
     (\<forall>os'. written px fd os os' \<and> sent os' = sent os @ request \<longrightarrow> incoming os' = reply)"

lemma written_trans: "written px fd os1 os2 \<Longrightarrow> written px fd os os1 \<Longrightarrow> written px fd os os2"
  by (induction rule: written.induct) (auto intro: written.intros)

lemma tcp_send_loop_written:
  "written px (tcp_socket_fd t) (tcp_os t) (tcp_os (snd (tcp_send_loop px frame n t)))"
proof (induction px frame n t rule: tcp_send_loop.induct)
  case (1 px frame total_sent t)
  obtain k os where w: "px_write px (tcp_socket_fd t) (drop total_sent frame) (tcp_os t) = (k, os)" by (metis surj_pair)
  have one: "written px (tcp_socket_fd t) (tcp_os t) os" by (rule written.more_bytes [OF written.start w])
  show ?case
  proof (cases "total_sent < length frame \<and> 0 < k")
    case True
    then have "written px (tcp_socket_fd t) os (tcp_os (snd (tcp_send_loop px frame (total_sent + nat k) (t\<lparr>tcp_os := os\<rparr>))))"
      using 1 w by simp
    from written_trans [OF this one] True w show ?thesis
      by (subst tcp_send_loop.simps) (simp add: Let_def)
  next
    case False
    then show ?thesis using one w
      by (subst tcp_send_loop.simps) (auto simp: Let_def intro: written.start)
  qed
qed

lemma tcp_exchange:
  assumes "tcp_connected t" "stream_sink px (tcp_socket_fd t) sent"
    and "stream_source px (tcp_socket_fd t) incoming" "stream_ready px (tcp_socket_fd t) incoming"
    and "peer_answers px (tcp_socket_fd t) sent incoming (tcp_os t) request (reply @ rest)" "mbap_frame reply"
  shows "\<exists>t1 os. t_send (TCP px) request (Some t) = (void_ok, Some t1)
    \<and> t_receive (TCP px) timeout (Some t1) = (Ok reply, Some (t\<lparr>tcp_os := os\<rparr>)) \<and> incoming os = rest"
proof -
  obtain os1 where send: "tcp_send_loop px request 0 t = (void_ok, t\<lparr>tcp_os := os1\<rparr>)" "sent os1 = sent (tcp_os t) @ request"
    using tcp_send_loop_delivers [OF assms(2), of 0 request] by auto
  have "written px (tcp_socket_fd t) (tcp_os t) os1"
    using tcp_send_loop_written [of px t request 0] send(1) by simp
  then have "incoming os1 = reply @ rest"
    using assms(5) send(2) by (simp add: peer_answers_def)
  then obtain os2 where "tcp_receive px timeout (t\<lparr>tcp_os := os1\<rparr>) = (Some (Ok reply), t\<lparr>tcp_os := os2\<rparr>)" "incoming os2 = rest"
    using tcp_receive_frame [of "t\<lparr>tcp_os := os1\<rparr>" px incoming reply rest timeout] assms(1,3,4,6) by auto
  then show ?thesis using send(1) assms(1)
    by (intro exI [of _ "t\<lparr>tcp_os := os1\<rparr>"] exI [of _ os2]) (simp add: tcp_send_def)
qed

lemma tcp_transact:
  assumes "cc_transport (cl_config cl) = TCP px" "tcp_connected t" "stream_sink px (tcp_socket_fd t) sent"
    and "stream_source px (tcp_socket_fd t) incoming" "stream_ready px (tcp_socket_fd t) incoming"
    and "peer_answers px (tcp_socket_fd t) sent incoming (tcp_os t)
      (wrap_tcp u request (cl_next_transaction_id cl)) (wrap_tcp u' resp txn @ rest)"
    and "PDU_wf resp" "1 + length (PDU_serialize resp) < 2 ^ 16"
  shows "\<exists>os. transact u request cl (Some t) = Some (check_exception resp,
      cl\<lparr>cl_next_transaction_id := cl_next_transaction_id cl + 1\<rparr>, Some (t\<lparr>tcp_os := os\<rparr>)) \<and> incoming os = rest"
proof -
  obtain t1 os where "t_send (TCP px) (wrap_tcp u request (cl_next_transaction_id cl)) (Some t) = (void_ok, Some t1)"
    "t_receive (TCP px) (cc_default_timeout (cl_config cl)) (Some t1) = (Ok (wrap_tcp u' resp txn), Some (t\<lparr>tcp_os := os\<rparr>))"
    "incoming os = rest"
    using tcp_exchange [OF assms(2-6) mbap_frame_wrap [OF assms(8)]] by blast
  moreover from tcp_roundtrip [OF assms(7,8), of u' txn "[]"]
  have "unwrap_tcp (span_of (wrap_tcp u' resp txn)) = Some (Ok (u', resp, txn))" by simp
  ultimately show ?thesis using assms(1)
    by (intro exI [of _ os]) (simp add: transact_def Let_def del: TCP_sel)
qed

end
