(* ===== verification/Server.thy ===== *)
theory Server
  imports Frame_Codec Pubsub
begin

text \<open>
  Component \<open>client/server.cpp\<close>: the server over any transport.

  The handlers registered by the application are state transformers on the world \<open>'s\<close>, which
  holds the transport and the device; \<open>clock\<close> reads the time off it. Results of sends that the code
  ignores are ignored. The flag \<open>running_\<close> of the event loop, which other threads and handlers
  clear while the loop runs, is part of the world: \<open>running\<close> reads and \<open>set_running\<close> writes it. \<open>None\<close> is a read outside a frame or a vector.
\<close>

section \<open>State\<close>

type_synonym 's ReadHandler = "address \<Rightarrow> quantity \<Rightarrow> 's \<Rightarrow> register list Result \<times> 's"
type_synonym 's WriteHandler = "address \<Rightarrow> register list \<Rightarrow> 's \<Rightarrow> VoidResult \<times> 's"

record 's ServerConfig =
  sv_transport :: "'s transport"
  sv_unit_id :: unit_id
  sv_enable_timestamps :: bool

record 's server =
  sv_config :: "'s ServerConfig"
  sv_publisher :: "'s publisher"
  sv_read_handler :: "'s ReadHandler option"
  sv_write_handler :: "'s WriteHandler option"

definition ServerConfig_default :: "'s transport \<Rightarrow> 's ServerConfig" where
  "ServerConfig_default T = \<lparr>sv_transport = T, sv_unit_id = 1, sv_enable_timestamps = True\<rparr>"

definition Server :: "'s ServerConfig \<Rightarrow> 's server" where
  "Server config = \<lparr>sv_config = config, sv_publisher = Publisher (Some (sv_transport config)),
     sv_read_handler = None, sv_write_handler = None\<rparr>"

definition on_read_holding_registers :: "'s ReadHandler \<Rightarrow> 's server \<Rightarrow> 's server" where
  "on_read_holding_registers handler sv = sv\<lparr>sv_read_handler := Some handler\<rparr>"

definition on_write_multiple_registers :: "'s WriteHandler \<Rightarrow> 's server \<Rightarrow> 's server" where
  "on_write_multiple_registers handler sv = sv\<lparr>sv_write_handler := Some handler\<rparr>"

section \<open>Requests\<close>

definition send_response :: "'s server \<Rightarrow> byte \<Rightarrow> byte list \<Rightarrow> u16 \<Rightarrow> 's \<Rightarrow> 's" where
  "send_response sv fc resp_data txn_id s =
     (let resp_pdu = make_standard fc resp_data;
          frame = wrap_tcp (sv_unit_id (sv_config sv)) resp_pdu txn_id in
      snd (t_send (sv_transport (sv_config sv)) frame s))"

definition handle_read :: "'s server \<Rightarrow> 's ReadHandler \<Rightarrow> byte \<Rightarrow> byte list \<Rightarrow> u16 \<Rightarrow> 's \<Rightarrow> 's" where
  "handle_read sv handler fc pl txn_id s =
     (if length pl < 4 then s
      else let addr = be16 (pl ! 0) (pl ! 1); cnt = be16 (pl ! 2) (pl ! 3) in
        (case handler addr cnt s of
           (Ok regs, s) \<Rightarrow>
             send_response sv (FunctionCode_value ReadHoldingRegisters)
               (of_nat (length regs * 2) # regs_to_bytes regs) txn_id s
         | (Err ec, s) \<Rightarrow> send_response sv (fc OR 0x80) [word_of_int (ec_value ec)] txn_id s))"

definition handle_write_single :: "'s server \<Rightarrow> 's WriteHandler \<Rightarrow> byte list \<Rightarrow> u16 \<Rightarrow> 's \<Rightarrow> 's" where
  "handle_write_single sv handler pl txn_id s =
     (if length pl < 4 then s
      else let addr = be16 (pl ! 0) (pl ! 1); val = be16 (pl ! 2) (pl ! 3) in
        (case handler addr [val] s of (result, s) \<Rightarrow>
           send_response sv (FunctionCode_value WriteSingleRegister) (take 4 pl) txn_id s))"

definition handle_write_multiple :: "'s server \<Rightarrow> 's WriteHandler \<Rightarrow> byte list \<Rightarrow> u16 \<Rightarrow> 's \<Rightarrow> 's" where
  "handle_write_multiple sv handler pl txn_id s =
     (if length pl < 5 then s
      else let addr = be16 (pl ! 0) (pl ! 1); regs = bytes_to_regs (drop 5 pl) in
        (case handler addr regs s of (result, s) \<Rightarrow>
           send_response sv (FunctionCode_value WriteMultipleRegisters) (take 4 pl) txn_id s))"

definition handle_request :: "'s server \<Rightarrow> unit_id \<Rightarrow> PDU \<Rightarrow> u16 \<Rightarrow> 's \<Rightarrow> 's" where
  "handle_request sv u request txn_id s =
     (let fc = function_code request; pl = payload request in
      case (fc = FunctionCode_value ReadHoldingRegisters, sv_read_handler sv) of
        (True, Some handler) \<Rightarrow> handle_read sv handler fc pl txn_id s
      | _ \<Rightarrow>
          (case sv_write_handler sv of
             None \<Rightarrow> s
           | Some handler \<Rightarrow>
               if fc = FunctionCode_value WriteSingleRegister then handle_write_single sv handler pl txn_id s
               else if fc = FunctionCode_value WriteMultipleRegisters then handle_write_multiple sv handler pl txn_id s
               else s))"

definition process_one :: "'s server \<Rightarrow> 's \<Rightarrow> (bool \<times> 's) option" where
  "process_one sv s =
     (case t_receive (sv_transport (sv_config sv)) 10 s of
        (Err ec, s) \<Rightarrow> Some (False, s)
      | (Ok frame, s) \<Rightarrow>
          (case unwrap_tcp (span_of frame) of
             None \<Rightarrow> None
           | Some (Err ec) \<Rightarrow> Some (False, s)
           | Some (Ok (u, pdu, txn_id)) \<Rightarrow>
               if u \<noteq> sv_unit_id (sv_config sv) \<and> u \<noteq> 0 then Some (False, s)
               else Some (True, handle_request sv u pdu txn_id s)))"

section \<open>The event loop\<close>

definition server_iteration :: "('s \<Rightarrow> Timestamp) \<Rightarrow> 's server \<Rightarrow> 's \<Rightarrow> ('s server \<times> 's) option" where
  "server_iteration clock sv s = (case process_one sv s of
     None \<Rightarrow> None
   | Some (b, s) \<Rightarrow>
       (case scan_and_notify clock (sv_publisher sv) s of
          None \<Rightarrow> None
        | Some (n, publisher, s) \<Rightarrow> Some (sv\<lparr>sv_publisher := publisher\<rparr>, s)))"

partial_function (option) server_run_loop :: "('s \<Rightarrow> Timestamp) \<Rightarrow> ('s \<Rightarrow> bool) \<Rightarrow> 's server \<times> 's \<Rightarrow> ('s server \<times> 's) option" where
  "server_run_loop clock running st = (case st of (sv, s) \<Rightarrow>
     if \<not> running s then Some (sv, s)
     else (case server_iteration clock sv s of
         None \<Rightarrow> None
       | Some st \<Rightarrow> server_run_loop clock running st))"

definition server_run :: "('s \<Rightarrow> Timestamp) \<Rightarrow> ('s \<Rightarrow> bool) \<Rightarrow> (bool \<Rightarrow> 's \<Rightarrow> 's) \<Rightarrow> 's server \<Rightarrow> 's
    \<Rightarrow> ('s server \<times> 's) option" where
  "server_run clock running set_running sv s = server_run_loop clock running (sv, set_running True s)"

definition server_stop :: "(bool \<Rightarrow> 's \<Rightarrow> 's) \<Rightarrow> 's \<Rightarrow> 's" where
  "server_stop set_running s = set_running False s"

text \<open>The loop ends after the first iteration during which it has been stopped, and not before.\<close>

lemma server_run_loop_stops:
  assumes "running s" "server_iteration clock sv s = Some (sv', s')" "\<not> running s'"
  shows "server_run_loop clock running (sv, s) = Some (sv', s')"
  using assms by (simp add: server_run_loop.simps)

text \<open>A \<open>stop\<close> that comes before \<open>run\<close> is lost.\<close>

lemma server_stop_before_run:
  assumes "\<And>a b s. set_running a (set_running b s) = set_running a s"
  shows "server_run clock running set_running sv (server_stop set_running s) = server_run clock running set_running sv s"
  by (simp add: server_run_def server_stop_def assms)

section \<open>What the server answers\<close>

text \<open>
  The specification of \<open>handle_request\<close>: the PDU of the answer, if there is one, and the world
  after the handler.
\<close>

definition server_reply :: "'s server \<Rightarrow> PDU \<Rightarrow> 's \<Rightarrow> (PDU \<times> 's) option" where
  "server_reply sv request s =
     (let fc = function_code request; pl = payload request in
      if fc = FunctionCode_value ReadHoldingRegisters \<and> 4 \<le> length pl then
        map_option (\<lambda>h. case h (be16 (pl ! 0) (pl ! 1)) (be16 (pl ! 2) (pl ! 3)) s of
            (Ok regs, s) \<Rightarrow> (make_standard fc (of_nat (2 * length regs) # regs_to_bytes regs), s)
          | (Err ec, s) \<Rightarrow> (make_standard (fc OR 0x80) [word_of_int (ec_value ec)], s)) (sv_read_handler sv)
      else if fc = FunctionCode_value WriteSingleRegister \<and> 4 \<le> length pl then
        map_option (\<lambda>h. (make_standard fc (take 4 pl), snd (h (be16 (pl ! 0) (pl ! 1)) [be16 (pl ! 2) (pl ! 3)] s)))
          (sv_write_handler sv)
      else if fc = FunctionCode_value WriteMultipleRegisters \<and> 5 \<le> length pl then
        map_option (\<lambda>h. (make_standard fc (take 4 pl), snd (h (be16 (pl ! 0) (pl ! 1)) (bytes_to_regs (drop 5 pl)) s)))
          (sv_write_handler sv)
      else None)"

lemma handle_request_reply:
  "handle_request sv u request txn_id s = (case server_reply sv request s of
     None \<Rightarrow> s
   | Some (resp, s') \<Rightarrow>
       snd (t_send (sv_transport (sv_config sv)) (wrap_tcp (sv_unit_id (sv_config sv)) resp txn_id) s'))"
  by (auto simp: handle_request_def server_reply_def handle_read_def handle_write_single_def
      handle_write_multiple_def send_response_def Let_def mult.commute not_le
      split: option.split prod.split Result.split bool.split)

lemma process_one_reply:
  assumes "t_receive (sv_transport (sv_config sv)) 10 s = (Ok frame, s1)"
    and "unwrap_tcp (span_of frame) = Some (Ok (u, request, txn_id))"
    and "u = sv_unit_id (sv_config sv) \<or> u = 0"
    and "server_reply sv request s1 = Some (resp, s2)"
  shows "process_one sv s = Some (True,
    snd (t_send (sv_transport (sv_config sv)) (wrap_tcp (sv_unit_id (sv_config sv)) resp txn_id) s2))"
  using assms by (auto simp: process_one_def handle_request_reply)

text \<open>A server reads no frame outside its bytes unless the MBAP length field is zero.\<close>

lemma process_one_defined:
  assumes "\<And>frame s1. t_receive (sv_transport (sv_config sv)) 10 s = (Ok frame, s1)
      \<Longrightarrow> length frame < 8 \<or> 0 < mbap_length frame"
  shows "process_one sv s \<noteq> None"
proof (cases "t_receive (sv_transport (sv_config sv)) 10 s")
  case (Pair r s1)
  show ?thesis
  proof (cases r)
    case (Ok frame)
    then obtain res where "unwrap_tcp (span_of frame) = Some res"
      using unwrap_tcp_safe [OF assms] Pair by (cases "unwrap_tcp (span_of frame)") auto
    then show ?thesis using Pair Ok by (auto simp: process_one_def split: Result.split)
  qed (use Pair in \<open>simp add: process_one_def\<close>)
qed

end
