(* ===== verification/Served_Link.thy ===== *)
theory Served_Link
  imports Loopback Client Server
begin

text \<open>
  A client and a server joined by a loopback link: the server runs in another thread and
  handles one request while the client waits for its answer. The link with the server behind
  it is an \<open>answering_link\<close> for any read and write handler of the application, and each
  operation of the client is one run of the handler.
\<close>

section \<open>Client and server on one link\<close>

text \<open>
  A world of a loopback link and a device: transports act on the first component, the
  handlers of the application on the second.
\<close>

definition lift_transport :: "'l transport \<Rightarrow> ('l \<times> 'd) transport" where
  "lift_transport T = \<lparr>t_send = (\<lambda>f (l, d). case t_send T f l of (r, l) \<Rightarrow> (r, (l, d))),
     t_receive = (\<lambda>timeout (l, d). case t_receive T timeout l of (r, l) \<Rightarrow> (r, (l, d))),
     t_connect = (\<lambda>(l, d). case t_connect T l of (r, l) \<Rightarrow> (r, (l, d))),
     t_disconnect = (\<lambda>(l, d). (t_disconnect T l, d)), t_is_connected = (\<lambda>(l, d). t_is_connected T l),
     t_transport_name = t_transport_name T\<rparr>"

definition lift_read :: "'d ReadHandler \<Rightarrow> ('l \<times> 'd) ReadHandler" where
  "lift_read h addr cnt w = (case h addr cnt (snd w) of (r, d) \<Rightarrow> (r, (fst w, d)))"

definition lift_write :: "'d WriteHandler \<Rightarrow> ('l \<times> 'd) WriteHandler" where
  "lift_write h addr vals w = (case h addr vals (snd w) of (r, d) \<Rightarrow> (r, (fst w, d)))"

text \<open>A server with a read handler, and a write handler if the application registers one.\<close>

definition device_server :: "unit_id \<Rightarrow> 'd ReadHandler \<Rightarrow> 'd WriteHandler option \<Rightarrow> (loopback \<times> 'd) server" where
  "device_server u rh wh =
     (let sv = on_read_holding_registers (lift_read rh)
        (Server ((ServerConfig_default (lift_transport (LoopbackTransport ServerSide)))\<lparr>sv_unit_id := u\<rparr>)) in
      case wh of None \<Rightarrow> sv | Some h \<Rightarrow> on_write_multiple_registers (lift_write h) sv)"

text \<open>
  The client's end of a link whose server runs in another thread: while the client waits in
  \<open>receive\<close>, the server processes one request.
\<close>

definition served_link :: "(loopback \<times> 'd) server \<Rightarrow> (loopback \<times> 'd) transport" where
  "served_link sv = (let T = lift_transport (LoopbackTransport ClientSide) in
     T\<lparr>t_receive := (\<lambda>timeout w. t_receive T timeout
         (case process_one sv w of None \<Rightarrow> w | Some (b, w') \<Rightarrow> w'))\<rparr>)"

definition link_ready :: "loopback \<times> 'd \<Rightarrow> bool" where
  "link_ready w \<longleftrightarrow> lb_healthy (fst w) \<and> tx_queue ClientSide (fst w) = [] \<and> tx_queue ServerSide (fst w) = []"

definition link_answer :: "'s server \<Rightarrow> frame \<Rightarrow> 's \<Rightarrow> (PDU \<times> 's) option" where
  "link_answer sv f w = (case unwrap_tcp (span_of f) of
     Some (Ok (u, request, txn)) \<Rightarrow>
       if u = sv_unit_id (sv_config sv) \<or> u = 0 then
         (case server_reply sv request w of
            Some (resp, w') \<Rightarrow>
              if PDU_wf resp \<and> 1 + length (PDU_serialize resp) < 2 ^ 16 then Some (resp, w') else None
          | None \<Rightarrow> None)
       else None
   | _ \<Rightarrow> None)"

lemma lift_transport_sel [simp]:
  "t_send (lift_transport T) f (l, d) = (case t_send T f l of (r, l) \<Rightarrow> (r, (l, d)))"
  "t_receive (lift_transport T) timeout (l, d) = (case t_receive T timeout l of (r, l) \<Rightarrow> (r, (l, d)))"
  by (simp_all add: lift_transport_def)

lemma device_server_sel [simp]:
  "sv_transport (sv_config (device_server u rh wh)) = lift_transport (LoopbackTransport ServerSide)"
  "sv_unit_id (sv_config (device_server u rh wh)) = u"
  "sv_read_handler (device_server u rh wh) = Some (lift_read rh)"
  "sv_write_handler (device_server u rh wh) = map_option lift_write wh"
  by (simp_all add: device_server_def on_write_multiple_registers_def on_read_holding_registers_def Server_def
      ServerConfig_default_def Let_def split: option.split)

lemma device_reply_link:
  "server_reply (device_server u rh wh) request (l, d) = Some (resp, w') \<Longrightarrow> fst w' = l"
  by (auto simp: server_reply_def Let_def lift_read_def lift_write_def split: if_splits prod.splits Result.splits option.splits)

lemma link_answer_Some:
  assumes "link_answer (device_server u rh wh) f (l, d) = Some (resp, w')"
  shows "\<exists>u' request txn d'. unwrap_tcp (span_of f) = Some (Ok (u', request, txn)) \<and> (u' = u \<or> u' = 0)
    \<and> server_reply (device_server u rh wh) request (l, d) = Some (resp, (l, d')) \<and> w' = (l, d')
    \<and> PDU_wf resp \<and> 1 + length (PDU_serialize resp) < 2 ^ 16"
proof -
  obtain u' request txn where "unwrap_tcp (span_of f) = Some (Ok (u', request, txn))" "u' = u \<or> u' = 0"
    "server_reply (device_server u rh wh) request (l, d) = Some (resp, w')"
    "PDU_wf resp" "1 + length (PDU_serialize resp) < 2 ^ 16"
    using assms by (auto simp: link_answer_def split: option.splits Result.splits if_splits)
  moreover from this(3) have "w' = (l, snd w')" using device_reply_link by (metis prod.collapse)
  ultimately show ?thesis by metis
qed

lemma set_rx_queue_side [simp]:
  "set_rx_queue ServerSide q l = set_tx_queue ClientSide q l" "set_rx_queue ClientSide q l = set_tx_queue ServerSide q l"
  "rx_queue ServerSide l = tx_queue ClientSide l" "rx_queue ClientSide l = tx_queue ServerSide l"
  by (simp_all add: set_rx_queue_def rx_queue_def)

lemma served_exchange:
  assumes "link_ready (l, d)" "link_answer (device_server u rh wh) f (l, d) = Some (resp, w')"
  shows "\<exists>s1 txn. t_send (served_link (device_server u rh wh)) f (l, d) = (void_ok, s1)
    \<and> (\<forall>timeout. t_receive (served_link (device_server u rh wh)) timeout s1 = (Ok (wrap_tcp u resp txn), w'))
    \<and> link_ready w'"
proof -
  let ?sv = "device_server u rh wh"
  obtain u' request txn d' where req: "unwrap_tcp (span_of f) = Some (Ok (u', request, txn))" "u' = u \<or> u' = 0"
    and reply: "server_reply ?sv request (l, d) = Some (resp, (l, d'))" and w': "w' = (l, d')"
    using link_answer_Some [OF assms(2)] by blast
  have l: "lb_healthy l" "tx_queue ClientSide l = []" "tx_queue ServerSide l = []"
    using assms(1) by (simp_all add: link_ready_def)
  have id: "set_tx_queue sd [] l = l" for sd
    using l(2,3) by (cases sd) (metis set_tx_queue_id)+
  define l1 where "l1 = set_tx_queue ClientSide [f] l"
  have send: "t_send (served_link ?sv) f (l, d) = (void_ok, (l1, d))"
    using l by (simp add: served_link_def Let_def lb_healthy_send l1_def)
  define l2 where "l2 = set_tx_queue ServerSide [wrap_tcp u resp txn] l"
  have rcv: "loopback_receive ServerSide timeout l1 = (Ok f, l)"
    "loopback_receive ClientSide timeout l2 = (Ok (wrap_tcp u resp txn), l)" for timeout
    unfolding l1_def l2_def using l id by (subst lb_healthy_receive; simp del: tx_queue.simps set_tx_queue.simps)+
  have answer: "loopback_send ServerSide (wrap_tcp u resp txn) l = (void_ok, l2)"
    using l by (simp add: lb_healthy_send l2_def)
  have "process_one ?sv (l1, d) = Some (True,
      snd (t_send (sv_transport (sv_config ?sv)) (wrap_tcp (sv_unit_id (sv_config ?sv)) resp txn) (l, d')))"
    by (rule process_one_reply [OF _ req(1) _ reply]) (use req(2) rcv in simp_all)
  then have "process_one ?sv (l1, d) = Some (True, (l2, d'))" by (simp add: answer)
  then have "t_receive (served_link ?sv) timeout (l1, d) = (Ok (wrap_tcp u resp txn), w')" for timeout
    by (simp add: served_link_def Let_def rcv w')
  moreover have "link_ready w'" using assms(1) w' by (simp add: link_ready_def)
  ultimately show ?thesis using send by blast
qed

interpretation served: answering_link "served_link (device_server u rh wh)" link_ready "link_answer (device_server u rh wh)"
  for u rh wh
proof
  fix s f resp s' assume "link_answer (device_server u rh wh) f s = Some (resp, s')"
  then show "PDU_wf resp \<and> 1 + length (PDU_serialize resp) < 2 ^ 16"
    using link_answer_Some by (metis prod.collapse)
next
  fix s f resp s' assume "link_ready s" "link_answer (device_server u rh wh) f s = Some (resp, s')"
  then show "\<exists>s1 u' txn. t_send (served_link (device_server u rh wh)) f s = (void_ok, s1)
      \<and> (\<forall>timeout. t_receive (served_link (device_server u rh wh)) timeout s1 = (Ok (wrap_tcp u' resp txn), s'))"
    and "link_ready s'"
    using served_exchange by (metis prod.collapse)+
qed

lemma link_answer_request:
  assumes "PDU_wf request" "1 + length (PDU_serialize request) < 2 ^ 16"
    and "u' = sv_unit_id (sv_config sv) \<or> u' = 0" "server_reply sv request w = Some (resp, w')"
    and "PDU_wf resp" "1 + length (PDU_serialize resp) < 2 ^ 16"
  shows "link_answer sv (wrap_tcp u' request txn) w = Some (resp, w')"
  using assms tcp_roundtrip [OF assms(1,2), of u' txn "[]"] by (auto simp: link_answer_def)

section \<open>The answers to the client's requests\<close>

definition read_response :: "register list Result \<Rightarrow> PDU" where
  "read_response r = (case r of
     Ok regs \<Rightarrow> make_standard 0x03 (of_nat (2 * length regs) # regs_to_bytes regs)
   | Err ec \<Rightarrow> make_standard 0x83 [word_of_int (ec_value ec)])"

lemma reply_read:
  "server_reply (device_server u rh wh) (read_request addr cnt) (l, d) =
     (case rh addr cnt d of (r, d') \<Rightarrow> Some (read_response r, (l, d')))"
  by (auto simp: server_reply_def read_request_def read_response_def lift_read_def Let_def be_simps
      split: prod.split Result.split)

lemma reply_write_single:
  "server_reply (device_server u rh (Some wh)) (write_single_request addr val) (l, d) =
     Some (make_standard 0x06 [hi8 addr, lo8 addr, hi8 val, lo8 val], (l, snd (wh addr [val] d)))"
  by (auto simp: server_reply_def write_single_request_def lift_write_def Let_def be_simps split: prod.split)

lemma reply_write_multiple:
  "server_reply (device_server u rh (Some wh)) (write_multiple_request addr vals) (l, d) =
     Some (make_standard 0x10 [hi8 addr, lo8 addr, hi8 (of_nat (length vals)), lo8 (of_nat (length vals))],
           (l, snd (wh addr vals d)))"
  by (auto simp: server_reply_def write_multiple_request_def lift_write_def Let_def be_simps split: prod.split)

lemma parse_read_response_regs: "parse_read_response (read_response (Ok regs)) = Ok regs"
proof -
  have "unat (of_nat (2 * length regs) :: byte) \<le> 2 * length regs"
    by (simp only: unat_of_nat mod_less_eq_dividend)
  then show ?thesis
    using bytes_to_regs_to_bytes [of regs]
    by (simp add: parse_read_response_def read_response_def Let_def)
qed

lemma read_response_result:
  "and_then (check_exception (read_response r)) parse_read_response =
     (case r of Ok regs \<Rightarrow> Ok regs | Err ec \<Rightarrow> Err (make_error_code (ec_value ec mod 256)))"
proof (cases r)
  case (Ok regs)
  have "check_exception (read_response (Ok regs)) = Ok (read_response (Ok regs))"
    by (simp add: check_exception_def read_response_def)
  then show ?thesis using Ok by (simp add: parse_read_response_regs)
next
  case (Err ec)
  then show ?thesis
    by (simp add: check_exception_def read_response_def uint_word_of_int take_bit_eq_mod)
qed

lemma read_response_carried:
  "(\<forall>regs. r = Ok regs \<longrightarrow> length regs < 32000) \<Longrightarrow>
     PDU_wf (read_response r) \<and> 1 + length (PDU_serialize (read_response r)) < 2 ^ 16"
  by (auto simp: read_response_def length_regs_to_bytes split: Result.split)

section \<open>The operations of a client of a served link\<close>

lemma served_read:
  assumes "cc_transport (cl_config cl) = served_link (device_server u rh wh)" and "link_ready (l, d)"
    and "u' = u \<or> u' = 0" and "rh addr cnt d = (r, d')" and "\<forall>regs. r = Ok regs \<longrightarrow> length regs < 32000"
  shows "read_holding_registers u' addr cnt cl (l, d) =
    Some (case r of Ok regs \<Rightarrow> Ok regs | Err ec \<Rightarrow> Err (make_error_code (ec_value ec mod 256)),
          cl\<lparr>cl_next_transaction_id := cl_next_transaction_id cl + 1\<rparr>, (l, d'))"
proof -
  have "PDU_wf (read_request addr cnt)" "1 + length (PDU_serialize (read_request addr cnt)) < 2 ^ 16"
    by (simp_all add: read_request_def)
  then have "link_answer (device_server u rh wh) (wrap_tcp u' (read_request addr cnt) (cl_next_transaction_id cl)) (l, d)
      = Some (read_response r, (l, d'))"
    by (rule link_answer_request) (use assms(3-5) read_response_carried [OF assms(5)] in \<open>simp_all add: reply_read\<close>)
  from served.read_answered [OF assms(1,2) this] show ?thesis by (simp add: read_response_result)
qed

lemma served_write:
  assumes "cc_transport (cl_config cl) = served_link (device_server u rh (Some wh))" and "link_ready (l, d)"
    and "u' = u \<or> u' = 0" and "length vals < 32000"
  shows "write_multiple_registers u' addr vals cl (l, d) =
      Some (void_ok, cl\<lparr>cl_next_transaction_id := cl_next_transaction_id cl + 1\<rparr>, (l, snd (wh addr vals d)))
    \<and> write_single_register u' addr val cl (l, d) =
      Some (void_ok, cl\<lparr>cl_next_transaction_id := cl_next_transaction_id cl + 1\<rparr>, (l, snd (wh addr [val] d)))"
proof -
  have "PDU_wf (write_multiple_request addr vals)" "1 + length (PDU_serialize (write_multiple_request addr vals)) < 2 ^ 16"
    using assms(4) by (simp_all add: write_multiple_request_def Let_def length_regs_to_bytes)
  then have multiple: "link_answer (device_server u rh (Some wh))
      (wrap_tcp u' (write_multiple_request addr vals) (cl_next_transaction_id cl)) (l, d)
    = Some (make_standard 0x10 [hi8 addr, lo8 addr, hi8 (of_nat (length vals)), lo8 (of_nat (length vals))],
           (l, snd (wh addr vals d)))"
    by (rule link_answer_request) (use assms(3) in \<open>simp_all add: reply_write_multiple\<close>)
  have "PDU_wf (write_single_request addr val)" "1 + length (PDU_serialize (write_single_request addr val)) < 2 ^ 16"
    by (simp_all add: write_single_request_def)
  then have single: "link_answer (device_server u rh (Some wh))
      (wrap_tcp u' (write_single_request addr val) (cl_next_transaction_id cl)) (l, d)
    = Some (make_standard 0x06 [hi8 addr, lo8 addr, hi8 val, lo8 val], (l, snd (wh addr [val] d)))"
    by (rule link_answer_request) (use assms(3) in \<open>simp_all add: reply_write_single\<close>)
  show ?thesis
    using served.write_multiple_answered [OF assms(1,2) multiple] served.write_single_answered [OF assms(1,2) single]
    by (simp add: check_exception_def write_result_def)
qed

section \<open>Requests that the server does not answer\<close>

text \<open>
  A frame is not answered when it is for another unit or when \<open>handle_request\<close> has no reply for it: the
  server takes it off the link and the client's \<open>receive\<close> runs into its timeout.
\<close>

lemma served_no_answer:
  assumes "link_ready (l, d)" and "unwrap_tcp (span_of f) = Some (Ok (u', request, txn))"
    and "(u' \<noteq> u \<and> u' \<noteq> 0) \<or> server_reply (device_server u rh wh) request (l, d) = None"
  shows "\<exists>s1. t_send (served_link (device_server u rh wh)) f (l, d) = (void_ok, s1)
    \<and> (\<forall>timeout. t_receive (served_link (device_server u rh wh)) timeout s1 = (err TimeoutExpired, (l, d)))"
proof -
  let ?sv = "device_server u rh wh"
  have l: "lb_healthy l" "tx_queue ClientSide l = []" "tx_queue ServerSide l = []"
    using assms(1) by (simp_all add: link_ready_def)
  have id: "set_tx_queue sd [] l = l" for sd
    using l(2,3) by (cases sd) (metis set_tx_queue_id)+
  define l1 where "l1 = set_tx_queue ClientSide [f] l"
  have send: "t_send (served_link ?sv) f (l, d) = (void_ok, (l1, d))"
    using l by (simp add: served_link_def Let_def lb_healthy_send l1_def)
  have rcv: "loopback_receive ServerSide timeout l1 = (Ok f, l)"
    "loopback_receive ClientSide timeout l = (err TimeoutExpired, l)" for timeout
    unfolding l1_def using l id by (subst lb_healthy_receive; simp del: tx_queue.simps set_tx_queue.simps)+
  have "\<exists>b. process_one ?sv (l1, d) = Some (b, (l, d))"
    using assms(2,3) by (auto simp: process_one_def rcv handle_request_reply)
  then have "t_receive (served_link ?sv) timeout (l1, d) = (err TimeoutExpired, (l, d))" for timeout
    by (auto simp: served_link_def Let_def rcv)
  then show ?thesis using send by blast
qed

lemma served_transact_timeout:
  assumes "cc_transport (cl_config cl) = served_link (device_server u rh wh)" and "link_ready (l, d)"
    and "PDU_wf request" "1 + length (PDU_serialize request) < 2 ^ 16"
    and "(u' \<noteq> u \<and> u' \<noteq> 0) \<or> server_reply (device_server u rh wh) request (l, d) = None"
  shows "transact u' request cl (l, d) =
    Some (err TimeoutExpired, cl\<lparr>cl_next_transaction_id := cl_next_transaction_id cl + 1\<rparr>, (l, d))"
proof -
  let ?f = "wrap_tcp u' request (cl_next_transaction_id cl)"
  have "unwrap_tcp (span_of ?f) = Some (Ok (u', request, cl_next_transaction_id cl))"
    using tcp_roundtrip [OF assms(3,4), of u' "cl_next_transaction_id cl" "[]"] by simp
  from served_no_answer [OF assms(2) this assms(5)] obtain s1 where
    "t_send (served_link (device_server u rh wh)) ?f (l, d) = (void_ok, s1)"
    "\<And>timeout. t_receive (served_link (device_server u rh wh)) timeout s1 = (err TimeoutExpired, (l, d))"
    by blast
  then show ?thesis using assms(1) by (simp add: transact_def Let_def err_def)
qed

lemma server_reply_extended: "server_reply (device_server u rh wh) (make_extended h pl mac) s = None"
  by (simp add: server_reply_def Let_def)

lemma server_reply_other:
  "function_code request \<notin> {0x03, 0x06, 0x10} \<Longrightarrow> server_reply sv request s = None"
  by (simp add: server_reply_def Let_def)

lemma server_reply_None_iff:
  "server_reply (device_server u rh (Some wh)) request s = None \<longleftrightarrow>
     \<not> (function_code request \<in> {0x03, 0x06} \<and> 4 \<le> length (payload request)
        \<or> function_code request = 0x10 \<and> 5 \<le> length (payload request))"
  by (auto simp: server_reply_def Let_def)


text \<open>The client of a batch, of a handshake and of a discovery has sent an extended request.\<close>

lemma served_extended_timeout:
  assumes "cc_transport (cl_config cl) = served_link (device_server u rh wh)" and "link_ready (l, d)"
    and "version h = 1" "flags h = 0" "length pl < 65400" "\<And>m. mac = Some m \<Longrightarrow> length m = 32"
  shows "transact u' (make_extended h pl mac) cl (l, d) =
    Some (err TimeoutExpired, cl\<lparr>cl_next_transaction_id := cl_next_transaction_id cl + 1\<rparr>, (l, d))"
  by (rule served_transact_timeout [OF assms(1,2) make_extended_carried [OF assms(3-6)] disjI2 [OF server_reply_extended]])

lemma batch_read_unanswered:
  assumes "cc_transport (cl_config cl) = served_link (device_server u rh wh)" and "link_ready (l, d)"
    and "length (BatchRequest_serialize request) < 65000"
  shows "batch_read clock u' request cl (l, d) =
    Some (err TimeoutExpired, cl\<lparr>cl_next_transaction_id := cl_next_transaction_id cl + 1\<rparr>, (l, d))"
proof -
  define hdr where "hdr = FrameHeader_default\<lparr>ext_function_code := ExtendedFunctionCode_value BatchRead\<rparr>"
  define hdr' where "hdr' = (if cc_enable_timestamps (cl_config cl) then hdr\<lparr>timestamp := Some (clock (l, d))\<rparr> else hdr)"
  have "version hdr' = 1" "flags hdr' = 0" by (simp_all add: hdr'_def hdr_def FrameHeader_default_def)
  from served_extended_timeout [OF assms(1,2) this, of "BatchRequest_serialize request" None u'] assms(3)
  have "transact u' (make_extended hdr' (BatchRequest_serialize request) None) cl (l, d) =
      Some (err TimeoutExpired, cl\<lparr>cl_next_transaction_id := cl_next_transaction_id cl + 1\<rparr>, (l, d))"
    by simp
  then show ?thesis
    unfolding batch_read_def batch_request_pdu_def Let_def hdr_def [symmetric] hdr'_def [symmetric] by (simp add: err_def)
qed

lemma authenticate_unanswered:
  assumes "cc_transport (cl_config cl) = served_link (device_server u rh wh)" and "link_ready (l, d)"
    and "cc_credentials (cl_config cl) = Some lookup" "lookup u' = Ok secret" "length nonce = 16"
  shows "authenticate mac nonce u' cl (l, d) =
    Some (err TimeoutExpired, cl\<lparr>cl_next_transaction_id := cl_next_transaction_id cl + 1\<rparr>, (l, d))"
proof -
  have "transact u' (auth_pdu AuthChallenge nonce) cl (l, d) =
    Some (err TimeoutExpired, cl\<lparr>cl_next_transaction_id := cl_next_transaction_id cl + 1\<rparr>, (l, d))"
    unfolding auth_pdu_def
    by (rule served_extended_timeout [OF assms(1,2)]) (simp_all add: FrameHeader_default_def assms(5))
  then show ?thesis by (simp add: authenticate_def assms(3,4) err_def)
qed

section \<open>Discovery of a served device\<close>

lemma served_probe:
  assumes "link_ready (l, d)" and "rh 0 1 d = (r, d)" and "\<forall>regs. r = Ok regs \<longrightarrow> length regs < 32000"
  shows "probe (served_link (device_server u rh wh)) clock cfg i (l, d) =
    Some (if i = u \<or> i = 0 then Ok (DeviceInfo_default\<lparr>di_unit_id := i, di_discovered_at := clock (l, d)\<rparr>)
          else err TimeoutExpired, (l, d))"
proof -
  let ?sv = "device_server u rh wh" and ?T = "served_link (device_server u rh wh)"
  have wf: "PDU_wf (make_standard 3 [0, 0, 0, 1])" "1 + length (PDU_serialize (make_standard 3 [0, 0, 0, 1])) < 2 ^ 16"
    by simp_all
  have un: "unwrap_tcp (span_of (wrap_tcp i (make_standard 3 [0, 0, 0, 1]) (ucast i)))
      = Some (Ok (i, make_standard 3 [0, 0, 0, 1], ucast i))"
    using tcp_roundtrip [OF wf, of i "ucast i" "[]"] by simp
  have reply: "server_reply ?sv (make_standard 3 [0, 0, 0, 1]) (l, d) = Some (read_response r, (l, d))"
    using reply_read [of u rh wh 0 1 l d] assms(2) by (simp add: read_request_def hi8_def lo8_def)
  define hdr where "hdr = FrameHeader_default\<lparr>ext_function_code := ExtendedFunctionCode_value Discover\<rparr>"
  have "version hdr = 1" "flags hdr = 0" by (simp_all add: hdr_def FrameHeader_default_def)
  note ext = make_extended_carried [OF this, of "[]" None, simplified]
  have "unwrap_tcp (span_of (wrap_tcp i (make_extended hdr [] None) (ucast i + 256)))
      = Some (Ok (i, make_extended hdr [] None, ucast i + 256))"
    using tcp_roundtrip [of "make_extended hdr [] None" i "ucast i + 256" "[]"] ext by simp
  from served_no_answer [OF assms(1) this disjI2 [OF server_reply_extended]] obtain s1 where
    "t_send ?T (wrap_tcp i (make_extended hdr [] None) (ucast i + 256)) (l, d) = (void_ok, s1)"
    "\<And>timeout. t_receive ?T timeout s1 = (err TimeoutExpired, (l, d))"
    by blast
  then have extended: "probe_extended ?T cfg i info (l, d) = Some (info, (l, d))" for info
    unfolding probe_extended_def Let_def hdr_def [symmetric] by (simp add: err_def)
  show ?thesis
  proof (cases "i = u \<or> i = 0")
    case True
    then have "link_answer ?sv (wrap_tcp i (make_standard 3 [0, 0, 0, 1]) (ucast i)) (l, d) = Some (read_response r, (l, d))"
      by (intro link_answer_request [OF wf _ reply]) (use read_response_carried [OF assms(3)] in simp_all)
    from served_exchange [OF assms(1) this] obtain s1 txn where
      "t_send ?T (wrap_tcp i (make_standard 3 [0, 0, 0, 1]) (ucast i)) (l, d) = (void_ok, s1)"
      "\<And>timeout. t_receive ?T timeout s1 = (Ok (wrap_tcp u (read_response r) txn), (l, d))"
      by blast
    with True show ?thesis by (simp add: probe_def Let_def extended)
  next
    case False
    then show ?thesis
      using served_no_answer [OF assms(1) un, of u rh wh] by (auto simp: probe_def Let_def err_def)
  qed
qed

lemma served_discover:
  assumes "cc_transport (cl_config cl) = served_link (device_server u rh wh)" and "link_ready (l, d)"
    and "rh 0 1 d = (r, d)" and "\<forall>regs. r = Ok regs \<longrightarrow> length regs < 32000"
  shows "discover clock cfg cl (l, d) =
    Some (map (\<lambda>i. DeviceInfo_default\<lparr>di_unit_id := i, di_discovered_at := clock (l, d)\<rparr>)
            (filter (\<lambda>i. i = u \<or> i = 0) (range_addresses (sc_range_start cfg) (sc_range_end cfg))), (l, d))"
proof -
  have "probe_all (served_link (device_server u rh wh)) clock cfg us (l, d) =
      Some (map (\<lambda>i. DeviceInfo_default\<lparr>di_unit_id := i, di_discovered_at := clock (l, d)\<rparr>)
        (filter (\<lambda>i. i = u \<or> i = 0) us), (l, d))" for us
    by (induction us) (auto simp: served_probe [of l d rh r, OF assms(2-4)] err_def)
  then show ?thesis
    using assms(1) scan_loop_eq [of "served_link (device_server u rh wh)" clock cfg "sc_range_start cfg" "[]" "(l, d)"]
    by (simp add: discover_def scan_def)
qed

end
