(* ===== verification/Register_File.thy ===== *)
theory Register_File
  imports Served_Link Register_Map
begin

text \<open>
  The register file that the example programs serve (\<open>examples/01_basic_client_server.cpp\<close>, and the
  read handler again in examples 03 and 04): a vector of registers behind two handlers, and what a client of
  it sees. A lambda that captures the vector is a handler over the vector as world; its mutex
  makes a call atomic.

  The specification is an array with bounds: \<open>file_op\<close> says what one operation returns and
  leaves. The operations of a client over a served link refine it, in any sequence.
\<close>

section \<open>The handlers\<close>

definition register_file_read :: "register list ReadHandler" where
  "register_file_read addr cnt rf =
     (if unat addr + unat cnt > length rf then (err IllegalDataAddress, rf)
      else (Ok (take (unat cnt) (drop (unat addr) rf)), rf))"

fun register_file_store :: "nat \<Rightarrow> register list \<Rightarrow> register list \<Rightarrow> register list" where
  "register_file_store i [] rf = rf"
| "register_file_store i (v # vals) rf = register_file_store (i + 1) vals (rf[i := v])"

definition register_file_write :: "register list WriteHandler" where
  "register_file_write addr vals rf =
     (if unat addr + length vals > length rf then (void_err IllegalDataAddress, rf)
      else (void_ok, register_file_store (unat addr) vals rf))"

lemma register_file_store_eq:
  "i + length vals \<le> length rf \<Longrightarrow>
     register_file_store i vals rf = take i rf @ vals @ drop (i + length vals) rf"
proof (induction vals arbitrary: rf i)
  case (Cons v vals)
  then have "i < length rf" by simp
  with Cons show ?case by (simp add: upd_conv_take_nth_drop min_def add.commute)
qed simp

lemma length_register_file_store [simp]: "length (register_file_store i vals rf) = length rf"
  by (induction i vals rf rule: register_file_store.induct) simp_all

section \<open>The specification\<close>

datatype client_op = ReadRegs address quantity | WriteReg address register | WriteRegs address "register list"

datatype op_result = RegsRead "register list Result" | WriteDone VoidResult

definition file_put :: "address \<Rightarrow> register list \<Rightarrow> register list \<Rightarrow> register list" where
  "file_put addr vals rf =
     (if unat addr + length vals \<le> length rf
      then take (unat addr) rf @ vals @ drop (unat addr + length vals) rf else rf)"

fun file_op :: "client_op \<Rightarrow> register list \<Rightarrow> op_result \<times> register list" where
  "file_op (ReadRegs addr cnt) rf =
     (RegsRead (if unat addr + unat cnt \<le> length rf then Ok (take (unat cnt) (drop (unat addr) rf))
                else err IllegalDataAddress), rf)"
| "file_op (WriteReg addr v) rf = (WriteDone void_ok, file_put addr [v] rf)"
| "file_op (WriteRegs addr vals) rf = (WriteDone void_ok, file_put addr vals rf)"

fun file_ops :: "client_op list \<Rightarrow> register list \<Rightarrow> op_result list \<times> register list" where
  "file_ops [] rf = ([], rf)"
| "file_ops (op # ops) rf = (case file_op op rf of (r, rf) \<Rightarrow>
     (case file_ops ops rf of (rs, rf) \<Rightarrow> (r # rs, rf)))"

text \<open>Reading what has just been written gives the values written, when they were in range.\<close>

lemma file_put_get:
  "unat addr + length vals \<le> length rf \<Longrightarrow> length vals < 2 ^ 16 \<Longrightarrow>
     fst (file_op (ReadRegs addr (of_nat (length vals))) (file_put addr vals rf)) = RegsRead (Ok vals)"
  by (simp add: file_put_def unat_of_nat take_bit_nat_eq_self)

lemma length_file_op [simp]: "length (snd (file_op op rf)) = length rf"
  by (cases op) (auto simp: file_put_def)

section \<open>The client\<close>

fun client_perform :: "unit_id \<Rightarrow> client_op \<Rightarrow> ('cb, 'h, 's) client \<Rightarrow> 's \<Rightarrow> (op_result \<times> ('cb, 'h, 's) client \<times> 's) option" where
  "client_perform u (ReadRegs addr cnt) cl s =
     map_option (\<lambda>(r, cl, s). (RegsRead r, cl, s)) (read_holding_registers u addr cnt cl s)"
| "client_perform u (WriteReg addr v) cl s =
     map_option (\<lambda>(r, cl, s). (WriteDone r, cl, s)) (write_single_register u addr v cl s)"
| "client_perform u (WriteRegs addr vals) cl s =
     map_option (\<lambda>(r, cl, s). (WriteDone r, cl, s)) (write_multiple_registers u addr vals cl s)"

fun client_performs :: "unit_id \<Rightarrow> client_op list \<Rightarrow> ('cb, 'h, 's) client \<Rightarrow> 's
    \<Rightarrow> (op_result list \<times> ('cb, 'h, 's) client \<times> 's) option" where
  "client_performs u [] cl s = Some ([], cl, s)"
| "client_performs u (op # ops) cl s = (case client_perform u op cl s of
     None \<Rightarrow> None
   | Some (r, cl, s) \<Rightarrow> map_option (\<lambda>(rs, cl, s). (r # rs, cl, s)) (client_performs u ops cl s))"

fun op_size :: "client_op \<Rightarrow> nat" where
  "op_size (ReadRegs addr cnt) = 0"
| "op_size (WriteReg addr v) = 1"
| "op_size (WriteRegs addr vals) = length vals"

definition file_served_to :: "unit_id \<Rightarrow> ('cb, 'h, loopback \<times> register list) client \<Rightarrow> bool" where
  "file_served_to u cl \<longleftrightarrow> cc_transport (cl_config cl) = served_link (device_server u register_file_read (Some register_file_write))"

lemma file_served_advance [simp]: "file_served_to u (advance_txn n cl) \<longleftrightarrow> file_served_to u cl"
  by (simp add: file_served_to_def advance_txn_def)

lemma register_file_write_put: "snd (register_file_write addr vals rf) = file_put addr vals rf"
  by (simp add: register_file_write_def file_put_def register_file_store_eq)

lemma file_served_read:
  assumes "cc_transport (cl_config cl) = served_link (device_server u register_file_read wh)" "link_ready (l, rf)" "u' = u \<or> u' = 0" "length rf < 32000"
  shows "read_holding_registers u' addr cnt cl (l, rf) =
    Some (if unat addr + unat cnt \<le> length rf then Ok (take (unat cnt) (drop (unat addr) rf)) else err IllegalDataAddress,
          advance_txn 1 cl, (l, rf))"
proof -
  have "\<forall>regs. fst (register_file_read addr cnt rf) = Ok regs \<longrightarrow> length regs < 32000"
    using assms(4) by (simp add: register_file_read_def)
  from served_read [OF assms(1) assms(2,3) surjective_pairing this] show ?thesis
    by (simp add: register_file_read_def advance_txn_def err_def mk_error_def make_error_code_def)
qed

lemma file_served_write:
  assumes "file_served_to u cl" "link_ready (l, rf)" "u' = u \<or> u' = 0"
  shows "length vals < 32000 \<Longrightarrow>
      write_multiple_registers u' addr vals cl (l, rf) = Some (void_ok, advance_txn 1 cl, (l, file_put addr vals rf))"
    and "write_single_register u' addr v cl (l, rf) = Some (void_ok, advance_txn 1 cl, (l, file_put addr [v] rf))"
  using served_write [OF assms(1) [unfolded file_served_to_def] assms(2,3), of vals addr v]
    served_write [OF assms(1) [unfolded file_served_to_def] assms(2,3), of "[]" addr v]
  by (simp_all add: register_file_write_put advance_txn_def)

lemma client_perform_refines:
  assumes "file_served_to u cl" "link_ready (l, rf)" "u' = u \<or> u' = 0"
    and "length rf < 32000" "op_size op < 32000"
  shows "client_perform u' op cl (l, rf) =
    Some (fst (file_op op rf), advance_txn 1 cl, (l, snd (file_op op rf)))"
  using file_served_read [OF assms(1) [unfolded file_served_to_def] assms(2-4)] file_served_write [OF assms(1-3)] assms(5)
  by (cases op) simp_all

lemma client_performs_refines:
  assumes "file_served_to u cl" "link_ready (l, rf)" "u' = u \<or> u' = 0"
    and "length rf < 32000" "\<forall>op \<in> set ops. op_size op < 32000"
  shows "client_performs u' ops cl (l, rf) =
    Some (fst (file_ops ops rf), advance_txn (length ops) cl, (l, snd (file_ops ops rf)))"
  using assms(1,2,4,5)
proof (induction ops arbitrary: cl rf)
  case Nil
  then show ?case by (simp add: advance_txn_def)
next
  case (Cons op ops)
  have "client_performs u' ops (advance_txn 1 cl) (l, snd (file_op op rf)) =
    Some (fst (file_ops ops (snd (file_op op rf))), advance_txn (length ops) (advance_txn 1 cl),
          (l, snd (file_ops ops (snd (file_op op rf)))))"
    by (rule Cons.IH) (use Cons.prems in \<open>simp_all add: link_ready_def\<close>)
  moreover have "advance_txn (length ops) (advance_txn 1 cl) = advance_txn (length (op # ops)) cl"
    by (simp add: advance_txn_def ac_simps)
  moreover have "client_perform u' op cl (l, rf) =
    Some (fst (file_op op rf), advance_txn 1 cl, (l, snd (file_op op rf)))"
    by (rule client_perform_refines) (use Cons.prems assms(3) in simp_all)
  ultimately show ?case by (simp add: split_beta)
qed

end
