(* ===== verification/Threads.thy ===== *)
theory Threads
  imports Register_File
begin

text \<open>
  The client's thread and the server's thread on one loopback link, interleaved. \<open>Served_Link\<close> lets the
  server process a request at the moment the client waits for it; here the server's loop
  over \<open>process_one\<close> runs at its own pace: the steps are the critical sections of the queues and the call of the
  handler, in any order the threads allow. A wait for a frame may end with a frame whenever there is one and with a
  timeout whenever there is none.

  The specification is a device that executes one request after the other (\<open>replies\<close>).
\<close>

section \<open>The operations cut at their waits\<close>

text \<open>\<open>transact\<close> up to its wait for the answer, and from its wait on.\<close>

definition transact_send :: "unit_id \<Rightarrow> PDU \<Rightarrow> ('cb, 'h, 's) client \<Rightarrow> 's
    \<Rightarrow> VoidResult \<times> ('cb, 'h, 's) client \<times> 's" where
  "transact_send u request cl s =
     (let txn_id = cl_next_transaction_id cl;
          cl = cl\<lparr>cl_next_transaction_id := txn_id + 1\<rparr>;
          frame = wrap_tcp u request txn_id in
      case t_send (cc_transport (cl_config cl)) frame s of (send_result, s) \<Rightarrow> (send_result, cl, s))"

definition transact_receive :: "('cb, 'h, 's) client \<Rightarrow> 's \<Rightarrow> (PDU Result \<times> 's) option" where
  "transact_receive cl s =
     (case t_receive (cc_transport (cl_config cl)) (cc_default_timeout (cl_config cl)) s of
        (Err ec, s) \<Rightarrow> Some (Err ec, s)
      | (Ok reply, s) \<Rightarrow>
          (case unwrap_tcp (span_of reply) of
             None \<Rightarrow> None
           | Some (Err ec) \<Rightarrow> Some (Err ec, s)
           | Some (Ok (resp_unit, resp_pdu, resp_txn)) \<Rightarrow> Some (check_exception resp_pdu, s)))"

lemma transact_split:
  "transact u request cl s = (case transact_send u request cl s of (send_result, cl, s) \<Rightarrow>
     if \<not> void_has_value send_result then Some (Err (vr_ec send_result), cl, s)
     else map_option (\<lambda>(r, s). (r, cl, s)) (transact_receive cl s))"
  by (auto simp: transact_def transact_send_def transact_receive_def Let_def
      split: prod.splits Result.splits option.splits)

text \<open>\<open>process_one\<close> from the frame that it has received on.\<close>

definition process_frame :: "'s server \<Rightarrow> frame \<Rightarrow> 's \<Rightarrow> (bool \<times> 's) option" where
  "process_frame sv frame s =
     (case unwrap_tcp (span_of frame) of
        None \<Rightarrow> None
      | Some (Err ec) \<Rightarrow> Some (False, s)
      | Some (Ok (u, pdu, txn_id)) \<Rightarrow>
          if u \<noteq> sv_unit_id (sv_config sv) \<and> u \<noteq> 0 then Some (False, s)
          else Some (True, handle_request sv u pdu txn_id s))"

lemma process_one_split:
  "process_one sv s = (case t_receive (sv_transport (sv_config sv)) 10 s of
     (Err ec, s) \<Rightarrow> Some (False, s)
   | (Ok frame, s) \<Rightarrow> process_frame sv frame s)"
  by (auto simp: process_one_def process_frame_def split: prod.split Result.split)

section \<open>The two threads\<close>

record ('cb, 'h, 'd) threads =
  th_client :: "('cb, 'h, loopback) client"
  th_waiting :: bool
  th_link :: loopback
  th_serving :: "frame option"
  th_device :: 'd

datatype th_event =
    Requested unit_id PDU VoidResult
  | Returned "PDU Result"
  | TimedOut "PDU Result"
  | Taken frame
  | Polled error_code
  | Processed bool

inductive th_step :: "(loopback \<times> 'd) server \<Rightarrow> ('cb, 'h, 'd) threads \<Rightarrow> th_event \<Rightarrow> ('cb, 'h, 'd) threads \<Rightarrow> bool" for sv where
  request: "\<not> th_waiting st \<Longrightarrow> transact_send u request (th_client st) (th_link st) = (r, cl, l) \<Longrightarrow>
    th_step sv st (Requested u request r) (st\<lparr>th_client := cl, th_link := l, th_waiting := void_has_value r\<rparr>)"
| answer: "th_waiting st \<Longrightarrow> rx_queue ClientSide (th_link st) \<noteq> [] \<Longrightarrow>
    transact_receive (th_client st) (th_link st) = Some (r, l) \<Longrightarrow>
    th_step sv st (Returned r) (st\<lparr>th_link := l, th_waiting := False\<rparr>)"
| timeout: "th_waiting st \<Longrightarrow> rx_queue ClientSide (th_link st) = [] \<Longrightarrow>
    transact_receive (th_client st) (th_link st) = Some (r, l) \<Longrightarrow>
    th_step sv st (TimedOut r) (st\<lparr>th_link := l, th_waiting := False\<rparr>)"
| take_frame: "th_serving st = None \<Longrightarrow>
    t_receive (sv_transport (sv_config sv)) 10 (th_link st, th_device st) = (Ok frame, (l, d)) \<Longrightarrow>
    th_step sv st (Taken frame) (st\<lparr>th_link := l, th_device := d, th_serving := Some frame\<rparr>)"
| poll: "th_serving st = None \<Longrightarrow>
    t_receive (sv_transport (sv_config sv)) 10 (th_link st, th_device st) = (Err ec, (l, d)) \<Longrightarrow>
    th_step sv st (Polled ec) (st\<lparr>th_link := l, th_device := d\<rparr>)"
| process: "th_serving st = Some frame \<Longrightarrow>
    process_frame sv frame (th_link st, th_device st) = Some (b, (l, d)) \<Longrightarrow>
    th_step sv st (Processed b) (st\<lparr>th_link := l, th_device := d, th_serving := None\<rparr>)"

inductive th_trace :: "(loopback \<times> 'd) server \<Rightarrow> ('cb, 'h, 'd) threads \<Rightarrow> th_event list \<Rightarrow> ('cb, 'h, 'd) threads \<Rightarrow> bool" for sv where
  nil: "th_trace sv st [] st"
| snoc: "th_trace sv st es st1 \<Longrightarrow> th_step sv st1 e st2 \<Longrightarrow> th_trace sv st (es @ [e]) st2"

inductive_cases th_stepE: "th_step sv st e st'"
inductive_simps th_step_simps:
  "th_step sv st (Requested u request r) st'"
  "th_step sv st (Returned r) st'"
  "th_step sv st (TimedOut r) st'"
  "th_step sv st (Taken frame) st'"
  "th_step sv st (Processed b) st'"

text \<open>The relation as a function of a schedule, which says who moves.\<close>

datatype th_choice = Request unit_id PDU | Wake | Serve

fun th_exec :: "(loopback \<times> 'd) server \<Rightarrow> th_choice \<Rightarrow> ('cb, 'h, 'd) threads \<Rightarrow> (th_event \<times> ('cb, 'h, 'd) threads) option" where
  "th_exec sv (Request u request) st =
     (if th_waiting st then None
      else case transact_send u request (th_client st) (th_link st) of (r, cl, l) \<Rightarrow>
        Some (Requested u request r, st\<lparr>th_client := cl, th_link := l, th_waiting := void_has_value r\<rparr>))"
| "th_exec sv Wake st =
     (if \<not> th_waiting st then None
      else map_option (\<lambda>(r, l). (if rx_queue ClientSide (th_link st) = [] then TimedOut r else Returned r,
             st\<lparr>th_link := l, th_waiting := False\<rparr>)) (transact_receive (th_client st) (th_link st)))"
| "th_exec sv Serve st =
     (case th_serving st of
        None \<Rightarrow> (case t_receive (sv_transport (sv_config sv)) 10 (th_link st, th_device st) of
            (Ok frame, (l, d)) \<Rightarrow> Some (Taken frame, st\<lparr>th_link := l, th_device := d, th_serving := Some frame\<rparr>)
          | (Err ec, (l, d)) \<Rightarrow> Some (Polled ec, st\<lparr>th_link := l, th_device := d\<rparr>))
      | Some frame \<Rightarrow> map_option (\<lambda>(b, (l, d)). (Processed b, st\<lparr>th_link := l, th_device := d, th_serving := None\<rparr>))
            (process_frame sv frame (th_link st, th_device st)))"

lemma th_exec_step: "(\<exists>c. th_exec sv c st = Some (e, st')) \<longleftrightarrow> th_step sv st e st'"
proof
  assume "\<exists>c. th_exec sv c st = Some (e, st')"
  then obtain c where "th_exec sv c st = Some (e, st')" by blast
  then show "th_step sv st e st'"
    by (cases c) (auto intro: th_step.intros split: if_splits prod.splits option.splits Result.splits)
next
  assume "th_step sv st e st'"
  then show "\<exists>c. th_exec sv c st = Some (e, st')"
  proof (cases rule: th_step.cases)
    case (request u request r cl l)
    then show ?thesis by (intro exI [of _ "Request u request"]) simp
  next
    case (answer r l)
    then show ?thesis by (intro exI [of _ Wake]) simp
  next
    case (timeout r l)
    then show ?thesis by (intro exI [of _ Wake]) simp
  qed (auto intro!: exI [of _ Serve])
qed

fun th_run :: "(loopback \<times> 'd) server \<Rightarrow> th_choice list \<Rightarrow> ('cb, 'h, 'd) threads \<Rightarrow> (th_event list \<times> ('cb, 'h, 'd) threads) option" where
  "th_run sv [] st = Some ([], st)"
| "th_run sv (c # cs) st = (case th_exec sv c st of
     None \<Rightarrow> None
   | Some (e, st) \<Rightarrow> map_option (\<lambda>(es, st). (e # es, st)) (th_run sv cs st))"

lemma th_trace_Cons: "th_trace sv st1 es st2 \<Longrightarrow> th_step sv st e st1 \<Longrightarrow> th_trace sv st (e # es) st2"
proof (induction rule: th_trace.induct)
  case (nil st1)
  from th_trace.snoc [OF th_trace.nil nil] show ?case by simp
next
  case (snoc st1 es st2 e' st3)
  from th_trace.snoc [OF snoc.IH [OF snoc.prems] snoc.hyps(2)] show ?case by simp
qed

lemma th_run_trace: "th_run sv cs st = Some (es, st') \<Longrightarrow> th_trace sv st es st'"
proof (induction cs arbitrary: st es)
  case (Cons c cs)
  then obtain e st1 es' where "th_exec sv c st = Some (e, st1)" "th_run sv cs st1 = Some (es', st')" "es = e # es'"
    by (auto split: option.splits)
  then show ?case using Cons.IH th_trace_Cons th_exec_step by metis
qed (simp add: th_trace.nil)

definition threads_start :: "('cb, 'h, loopback) client \<Rightarrow> loopback \<Rightarrow> 'd \<Rightarrow> ('cb, 'h, 'd) threads" where
  "threads_start cl l d = \<lparr>th_client = cl, th_waiting = False, th_link = l, th_serving = None, th_device = d\<rparr>"

text \<open>What a run says: the requests that went out, the results that came back, the timeouts.\<close>

fun requested :: "th_event \<Rightarrow> (unit_id \<times> PDU) list" where
  "requested (Requested u request r) = (if void_has_value r then [(u, request)] else [])"
| "requested _ = []"

fun returned :: "th_event \<Rightarrow> PDU Result list" where
  "returned (Returned r) = [r]"
| "returned _ = []"

fun timed_out :: "th_event \<Rightarrow> PDU Result list" where
  "timed_out (TimedOut r) = [r]"
| "timed_out _ = []"

definition all_of :: "(th_event \<Rightarrow> 'a list) \<Rightarrow> th_event list \<Rightarrow> 'a list" where
  "all_of f es = concat (map f es)"

lemma all_of_simps [simp]:
  "all_of f [] = []" "all_of f (e # es) = f e @ all_of f es" "all_of f (es @ es') = all_of f es @ all_of f es'"
  by (simp_all add: all_of_def)

section \<open>The specification\<close>

definition device_reply :: "unit_id \<Rightarrow> 'd ReadHandler \<Rightarrow> 'd WriteHandler option \<Rightarrow> unit_id \<times> PDU \<Rightarrow> 'd \<Rightarrow> (PDU \<times> 'd) option" where
  "device_reply u rh wh req d = (case req of (u', request) \<Rightarrow>
     if u' = u \<or> u' = 0 then
       map_option (\<lambda>(resp, w). (resp, snd w))
         (server_reply (device_server u rh wh) request (create_pair (\<lambda>_. Fin 0) (\<lambda>_. Fin 0), d))
     else None)"

text \<open>One request after the other; those without a reply are passed over.\<close>

fun replies :: "unit_id \<Rightarrow> 'd ReadHandler \<Rightarrow> 'd WriteHandler option \<Rightarrow> (unit_id \<times> PDU) list \<Rightarrow> 'd \<Rightarrow> PDU list \<times> 'd" where
  "replies u rh wh [] d = ([], d)"
| "replies u rh wh (req # reqs) d = (case device_reply u rh wh req d of
     None \<Rightarrow> replies u rh wh reqs d
   | Some (resp, d) \<Rightarrow> (case replies u rh wh reqs d of (resps, d) \<Rightarrow> (resp # resps, d)))"

definition carried :: "unit_id \<Rightarrow> 'd ReadHandler \<Rightarrow> 'd WriteHandler option \<Rightarrow> unit_id \<times> PDU \<Rightarrow> bool" where
  "carried u rh wh req \<longleftrightarrow> PDU_wf (snd req) \<and> 1 + length (PDU_serialize (snd req)) < 2 ^ 16
     \<and> (\<forall>d resp d'. device_reply u rh wh req d = Some (resp, d') \<longrightarrow> PDU_wf resp \<and> 1 + length (PDU_serialize resp) < 2 ^ 16)"

lemma server_reply_link:
  "map_option (\<lambda>(resp, w). (resp, snd w)) (server_reply (device_server u rh wh) request (l, d)) =
   map_option (\<lambda>(resp, w). (resp, snd w)) (server_reply (device_server u rh wh) request (l', d))"
  by (cases wh; cases "rh (be16 (payload request ! 0) (payload request ! 1)) (be16 (payload request ! 2) (payload request ! 3)) d")
    (auto simp: server_reply_def Let_def lift_read_def lift_write_def split: prod.split Result.split)

lemma server_reply_device:
  assumes "u' = u \<or> u' = 0"
  shows "server_reply (device_server u rh wh) request (l, d) =
    map_option (\<lambda>(resp, d'). (resp, (l, d'))) (device_reply u rh wh (u', request) d)"
proof -
  let ?reply = "server_reply (device_server u rh wh) request (l, d)"
  have "?reply = map_option (\<lambda>(resp, d'). (resp, (l, d'))) (map_option (\<lambda>(resp, w). (resp, snd w)) ?reply)"
    using device_reply_link [of u rh wh request l d] by (cases ?reply) fastforce+
  also have "map_option (\<lambda>(resp, w). (resp, snd w)) ?reply = device_reply u rh wh (u', request) d"
    unfolding device_reply_def using assms by (simp add: server_reply_link [of u rh wh request l d "create_pair _ _"])
  finally show ?thesis .
qed

lemma replies_append:
  "replies u rh wh (reqs @ reqs') d =
     (case replies u rh wh reqs d of (resps, d) \<Rightarrow> (case replies u rh wh reqs' d of (resps', d) \<Rightarrow> (resps @ resps', d)))"
  by (induction reqs arbitrary: d) (auto split: option.split prod.split)

lemma length_replies: "length (fst (replies u rh wh reqs d)) \<le> length reqs"
  by (induction reqs arbitrary: d) (auto split: option.split prod.split simp: le_SucI, (metis fst_conv)+)

section \<open>The invariant\<close>

text \<open>
  The requests that went out are those that the device has executed (\<open>executed\<close>), the one that the server holds
  and those in its queue; the replies are those that the client has got and those in its queue.
\<close>

definition carries :: "unit_id \<times> PDU \<Rightarrow> frame \<Rightarrow> bool" where
  "carries req f \<longleftrightarrow> PDU_wf (snd req) \<and> 1 + length (PDU_serialize (snd req)) < 2 ^ 16
     \<and> (\<exists>txn. f = wrap_tcp (fst req) (snd req) txn)"

definition th_state :: "unit_id \<Rightarrow> 'd ReadHandler \<Rightarrow> 'd WriteHandler option \<Rightarrow> 'd \<Rightarrow> ('cb, 'h, 'd) threads
    \<Rightarrow> (unit_id \<times> PDU) list \<Rightarrow> (unit_id \<times> PDU) list \<Rightarrow> (unit_id \<times> PDU) list \<Rightarrow> PDU list \<Rightarrow> PDU list \<Rightarrow> bool" where
  "th_state u rh wh d0 st executed held queued got coming \<longleftrightarrow>
     lb_healthy (th_link st) \<and> cc_transport (cl_config (th_client st)) = LoopbackTransport ClientSide
     \<and> list_all2 carries queued (tx_queue ClientSide (th_link st))
     \<and> list_all2 carries held (case th_serving st of None \<Rightarrow> [] | Some f \<Rightarrow> [f])
     \<and> replies u rh wh executed d0 = (got @ coming, th_device st)
     \<and> list_all2 (\<lambda>resp f. carries (u, resp) f) coming (tx_queue ServerSide (th_link st))"

definition th_inv :: "unit_id \<Rightarrow> 'd ReadHandler \<Rightarrow> 'd WriteHandler option \<Rightarrow> 'd \<Rightarrow> th_event list \<Rightarrow> ('cb, 'h, 'd) threads \<Rightarrow> bool" where
  "th_inv u rh wh d0 es st \<longleftrightarrow> (\<exists>executed held queued got coming.
     th_state u rh wh d0 st executed held queued got coming
     \<and> all_of requested es = executed @ held @ queued \<and> all_of returned es = map check_exception got
     \<and> length (all_of requested es) = length (all_of returned es) + length (all_of timed_out es) + of_bool (th_waiting st))"

lemma carries_wrap [simp]: "carries (u, p) (wrap_tcp u p txn) \<longleftrightarrow> PDU_wf p \<and> 1 + length (PDU_serialize p) < 2 ^ 16"
  by (auto simp: carries_def)

lemma carries_unwrap: "carries req f \<Longrightarrow> \<exists>txn. unwrap_tcp (span_of f) = Some (Ok (fst req, snd req, txn))"
  using tcp_roundtrip [of "snd req" "fst req" _ "[]"] by (auto simp: carries_def)

lemma transact_send_healthy:
  assumes "lb_healthy l" "cc_transport (cl_config cl) = LoopbackTransport ClientSide"
  shows "transact_send u request cl l =
    (void_ok, cl\<lparr>cl_next_transaction_id := cl_next_transaction_id cl + 1\<rparr>,
     set_tx_queue ClientSide (tx_queue ClientSide l @ [wrap_tcp u request (cl_next_transaction_id cl)]) l)"
  using assms by (simp add: transact_send_def Let_def lb_healthy_send del: tx_queue.simps set_tx_queue.simps)

lemma transact_receive_healthy:
  assumes "lb_healthy l" "cc_transport (cl_config cl) = LoopbackTransport ClientSide"
  shows "tx_queue ServerSide l = [] \<Longrightarrow> transact_receive cl l = Some (err TimeoutExpired, l)"
    and "tx_queue ServerSide l = f # fs \<Longrightarrow> carries (u, resp) f \<Longrightarrow>
      transact_receive cl l = Some (check_exception resp, set_tx_queue ServerSide fs l)"
  using assms carries_unwrap [of "(u, resp)" f]
  by (auto simp: transact_receive_def lb_healthy_receive err_def simp del: tx_queue.simps set_tx_queue.simps)

lemma process_frame_reply:
  assumes "lb_healthy l" "carries req f"
  shows "\<exists>txn. process_frame (device_server u rh wh) f (l, d) =
    (case device_reply u rh wh req d of
       None \<Rightarrow> Some (fst req = u \<or> fst req = 0, (l, d))
     | Some (resp, d') \<Rightarrow> Some (True, (set_tx_queue ServerSide (tx_queue ServerSide l @ [wrap_tcp u resp txn]) l, d')))"
proof -
  obtain txn where f: "unwrap_tcp (span_of f) = Some (Ok (fst req, snd req, txn))"
    using carries_unwrap [OF assms(2)] by blast
  show ?thesis
    using assms(1) f server_reply_device [of "fst req" u rh wh "snd req" l d]
    by (intro exI [of _ txn])
      (auto simp: process_frame_def handle_request_reply lb_healthy_send device_reply_def [of u rh wh req] split_beta
        split: option.split simp del: tx_queue.simps set_tx_queue.simps)
qed

lemma th_state_request:
  assumes "th_state u rh wh d0 st executed held queued got coming" "carried u rh wh (u', request)"
    and "transact_send u' request (th_client st) (th_link st) = (r, cl, l)"
  shows "void_has_value r \<and> th_state u rh wh d0 (st\<lparr>th_client := cl, th_link := l, th_waiting := b\<rparr>)
    executed held (queued @ [(u', request)]) got coming"
  using assms
  by (auto simp: th_state_def transact_send_healthy carried_def
      simp del: tx_queue.simps set_tx_queue.simps intro!: list_all2_appendI)

lemma th_state_answer:
  assumes "th_state u rh wh d0 st executed held queued got coming"
    and "tx_queue ServerSide (th_link st) \<noteq> []" "transact_receive (th_client st) (th_link st) = Some (r, l)"
  shows "\<exists>resp coming'. coming = resp # coming' \<and> r = check_exception resp
    \<and> th_state u rh wh d0 (st\<lparr>th_link := l, th_waiting := b\<rparr>) executed held queued (got @ [resp]) coming'"
proof -
  obtain f fs where q: "tx_queue ServerSide (th_link st) = f # fs" using assms(2) by (meson neq_Nil_conv)
  then obtain resp coming' where c: "coming = resp # coming'" "carries (u, resp) f"
    "list_all2 (\<lambda>resp f. carries (u, resp) f) coming' fs"
    using assms(1) by (auto simp: th_state_def list_all2_Cons2 simp del: tx_queue.simps)
  have "transact_receive (th_client st) (th_link st) = Some (check_exception resp, set_tx_queue ServerSide fs (th_link st))"
    by (rule transact_receive_healthy(2) [OF _ _ q c(2)]) (use assms(1) in \<open>simp_all add: th_state_def\<close>)
  then have "r = check_exception resp" "l = set_tx_queue ServerSide fs (th_link st)"
    using assms(3) by (simp_all del: set_tx_queue.simps)
  then show ?thesis
    using assms(1) c by (simp add: th_state_def del: tx_queue.simps set_tx_queue.simps)
qed

lemma th_state_take:
  assumes "th_state u rh wh d0 st executed held queued got coming" "th_serving st = None"
    and "t_receive (sv_transport (sv_config (device_server u rh wh))) 10 (th_link st, th_device st) = (Ok f, (l, d))"
  shows "\<exists>req queued'. held = [] \<and> queued = req # queued'
    \<and> th_state u rh wh d0 (st\<lparr>th_link := l, th_device := d, th_serving := Some f\<rparr>) executed [req] queued' got coming"
proof -
  obtain fs where q: "tx_queue ClientSide (th_link st) = f # fs" "l = set_tx_queue ClientSide fs (th_link st)" "d = th_device st"
    using assms by (auto simp: th_state_def lb_healthy_receive err_def split: list.splits prod.splits
        simp del: tx_queue.simps set_tx_queue.simps)
  with assms(1,2) obtain req queued' where "queued = req # queued'" "carries req f" "list_all2 carries queued' fs" "held = []"
    by (auto simp: th_state_def list_all2_Cons2 simp del: tx_queue.simps)
  then show ?thesis
    using assms(1) q by (simp add: th_state_def del: tx_queue.simps set_tx_queue.simps)
qed

lemma th_state_process:
  assumes "th_state u rh wh d0 st executed held queued got coming" "th_serving st = Some f" "\<forall>req \<in> set held. carried u rh wh req"
    and "process_frame (device_server u rh wh) f (th_link st, th_device st) = Some (b, (l, d))"
  shows "\<exists>req coming'. held = [req]
    \<and> th_state u rh wh d0 (st\<lparr>th_link := l, th_device := d, th_serving := None\<rparr>) (executed @ [req]) [] queued got coming'"
proof -
  obtain req where req: "held = [req]" "carries req f"
    using assms(1,2) by (auto simp: th_state_def list_all2_Cons2)
  have healthy: "lb_healthy (th_link st)" using assms(1) by (simp add: th_state_def)
  obtain txn where p: "process_frame (device_server u rh wh) f (th_link st, th_device st) =
    (case device_reply u rh wh req (th_device st) of
       None \<Rightarrow> Some (fst req = u \<or> fst req = 0, (th_link st, th_device st))
     | Some (resp, d') \<Rightarrow> Some (True, (set_tx_queue ServerSide
         (tx_queue ServerSide (th_link st) @ [wrap_tcp u resp txn]) (th_link st), d')))"
    using process_frame_reply [OF healthy req(2), of u rh wh "th_device st"] by blast
  show ?thesis
  proof (cases "device_reply u rh wh req (th_device st)")
    case None
    then show ?thesis
      using assms(1,4) p req by (auto simp: th_state_def replies_append simp del: tx_queue.simps)
  next
    case (Some rd)
    obtain resp d' where rd: "rd = (resp, d')" by (cases rd)
    have "PDU_wf resp \<and> 1 + length (PDU_serialize resp) < 2 ^ 16"
      using assms(3) req(1) Some rd by (auto simp: carried_def)
    then have "th_state u rh wh d0 (st\<lparr>th_link := l, th_device := d, th_serving := None\<rparr>) (executed @ [req]) [] queued got (coming @ [resp])"
      using assms(1,4) p Some rd req
      by (auto simp: th_state_def replies_append simp del: tx_queue.simps set_tx_queue.simps
          intro!: list_all2_appendI)
    then show ?thesis using req(1) by blast
  qed
qed

lemma th_state_timeout:
  assumes "th_state u rh wh d0 st executed held queued got coming" "rx_queue ClientSide (th_link st) = []"
    and "transact_receive (th_client st) (th_link st) = Some (r, l)"
  shows "th_state u rh wh d0 (st\<lparr>th_link := l, th_waiting := b\<rparr>) executed held queued got coming"
proof -
  have "transact_receive (th_client st) (th_link st) = Some (err TimeoutExpired, th_link st)"
    by (rule transact_receive_healthy(1)) (use assms in \<open>simp_all add: th_state_def\<close>)
  then show ?thesis using assms by (simp add: th_state_def)
qed

lemma th_state_poll:
  assumes "th_state u rh wh d0 st executed held queued got coming"
    and "t_receive (sv_transport (sv_config (device_server u rh wh))) 10 (th_link st, th_device st) = (Err ec, (l, d))"
  shows "th_state u rh wh d0 (st\<lparr>th_link := l, th_device := d\<rparr>) executed held queued got coming"
proof -
  have "l = th_link st" "d = th_device st"
    using assms by (auto simp: th_state_def lb_healthy_receive err_def split: list.splits prod.splits
        simp del: tx_queue.simps set_tx_queue.simps)
  then show ?thesis using assms by (simp add: th_state_def)
qed

lemma th_inv_step:
  assumes "th_inv u rh wh d0 es st" "th_step (device_server u rh wh) st e st'"
    and "\<forall>req \<in> set (all_of requested (es @ [e])). carried u rh wh req"
  shows "th_inv u rh wh d0 (es @ [e]) st'"
proof -
  obtain executed held queued got coming where
    st: "th_state u rh wh d0 st executed held queued got coming" and
    reqs: "all_of requested es = executed @ held @ queued" and rets: "all_of returned es = map check_exception got" and
    num: "length (all_of requested es) = length (all_of returned es) + length (all_of timed_out es) + of_bool (th_waiting st)"
    using assms(1) by (auto simp: th_inv_def)
  have intro: "th_inv u rh wh d0 (es @ [e]) st'"
    if "th_state u rh wh d0 st' executed' held' queued' got' coming'" "all_of requested (es @ [e]) = executed' @ held' @ queued'"
      "all_of returned (es @ [e]) = map check_exception got'"
      "length (all_of requested (es @ [e])) =
        length (all_of returned (es @ [e])) + length (all_of timed_out (es @ [e])) + of_bool (th_waiting st')"
    for executed' held' queued' got' coming'
    unfolding th_inv_def using that by blast
  show ?thesis
    using assms(2)
  proof (cases rule: th_step.cases)
    case (request u' request r cl l)
    have "r = void_ok" using st request by (simp add: th_state_def transact_send_healthy del: tx_queue.simps set_tx_queue.simps)
    then have "carried u rh wh (u', request)" using assms(3) request by simp
    from th_state_request [OF st this request(4)] have "void_has_value r"
      "th_state u rh wh d0 st' executed held (queued @ [(u', request)]) got coming" using request by auto
    from intro [OF this(2)] this(1) show ?thesis using reqs rets num request by simp
  next
    case (answer r l)
    from th_state_answer [OF st, of r l False] answer obtain resp coming' where
      "r = check_exception resp" "th_state u rh wh d0 st' executed held queued (got @ [resp]) coming'" by auto
    from intro [OF this(2)] this(1) show ?thesis using reqs rets num answer by simp
  next
    case (timeout r l)
    from th_state_timeout [OF st timeout(4,5)] timeout(2) have "th_state u rh wh d0 st' executed held queued got coming" by simp
    from intro [OF this] show ?thesis using reqs rets num timeout by simp
  next
    case (take_frame f l d)
    from th_state_take [OF st take_frame(3,4)] obtain req queued' where
      "held = []" "queued = req # queued'" "th_state u rh wh d0 st' executed [req] queued' got coming"
      using take_frame by auto
    from intro [OF this(3)] this(1,2) show ?thesis using reqs rets num take_frame by simp
  next
    case (poll ec l d)
    from th_state_poll [OF st poll(4)] poll(2) have "th_state u rh wh d0 st' executed held queued got coming" by simp
    from intro [OF this] show ?thesis using reqs rets num poll by simp
  next
    case (process f b l d)
    have "\<forall>req \<in> set held. carried u rh wh req" using assms(3) reqs by simp
    from th_state_process [OF st process(3) this process(4)] obtain req coming' where
      "held = [req]" "th_state u rh wh d0 st' (executed @ [req]) [] queued got coming'"
      using process by auto
    from intro [OF this(2)] this(1) show ?thesis using reqs rets num process by simp
  qed
qed

lemma th_inv_trace:
  assumes "th_trace (device_server u rh wh) (threads_start cl l d) es st"
    and "cc_transport (cl_config cl) = LoopbackTransport ClientSide" "link_ready (l, d)"
    and "\<forall>req \<in> set (all_of requested es). carried u rh wh req"
  shows "th_inv u rh wh d es st"
  using assms(1,4)
proof (induction "threads_start cl l d" es st rule: th_trace.induct)
  case nil
  have "th_state u rh wh d (threads_start cl l d) [] [] [] [] []"
    using assms(2,3) by (simp add: th_state_def threads_start_def link_ready_def)
  then show ?case by (fastforce simp: th_inv_def threads_start_def)
next
  case (snoc es st1 e st2)
  then show ?case by (intro th_inv_step [of u rh wh d es st1]) simp_all
qed

section \<open>What the invariant gives\<close>

lemma th_inv_results:
  assumes "th_inv u rh wh d es st"
  shows "all_of returned es =
      map check_exception (take (length (all_of returned es)) (fst (replies u rh wh (all_of requested es) d)))"
    and "length (all_of requested es) = length (all_of returned es) + length (all_of timed_out es) + of_bool (th_waiting st)"
    and "length (all_of returned es) \<le> length (fst (replies u rh wh (all_of requested es) d))"
proof -
  obtain executed held queued got coming where st: "th_state u rh wh d st executed held queued got coming"
    "all_of requested es = executed @ held @ queued" "all_of returned es = map check_exception got"
    and num: "length (all_of requested es) = length (all_of returned es) + length (all_of timed_out es) + of_bool (th_waiting st)"
    using assms by (auto simp: th_inv_def)
  have "\<exists>more. fst (replies u rh wh (all_of requested es) d) = got @ more"
    using st(1) by (auto simp: st(2) replies_append th_state_def split_beta)
  then show "all_of returned es =
      map check_exception (take (length (all_of returned es)) (fst (replies u rh wh (all_of requested es) d)))"
    "length (all_of returned es) \<le> length (fst (replies u rh wh (all_of requested es) d))"
    using st(3) by auto
  show "length (all_of requested es) = length (all_of returned es) + length (all_of timed_out es) + of_bool (th_waiting st)"
    by (rule num)
qed

lemma th_inv_quiet:
  assumes "th_inv u rh wh d es st" "all_of timed_out es = []" "\<not> th_waiting st"
  shows "replies u rh wh (all_of requested es) d = (fst (replies u rh wh (all_of requested es) d), th_device st)
    \<and> length (all_of returned es) = length (fst (replies u rh wh (all_of requested es) d))
    \<and> link_ready (th_link st, th_device st) \<and> th_serving st = None"
proof -
  obtain executed held queued got coming where st: "th_state u rh wh d st executed held queued got coming"
    and reqs: "all_of requested es = executed @ held @ queued" and rets: "all_of returned es = map check_exception got"
    and num: "length (all_of requested es) = length (all_of returned es) + length (all_of timed_out es) + of_bool (th_waiting st)"
    using assms(1) by (auto simp: th_inv_def)
  have "length got + length coming \<le> length executed"
    using length_replies [of u rh wh executed d] st by (simp add: th_state_def)
  moreover have "length executed + length held + length queued = length got" using reqs rets num assms(2,3) by simp
  ultimately have "length held = 0 \<and> length queued = 0 \<and> length coming = 0" by linarith
  then have "held = []" "queued = []" "coming = []" by simp_all
  then show ?thesis
    using st reqs rets by (auto simp: th_state_def link_ready_def split: option.splits simp del: tx_queue.simps)
qed

lemma replies_nth_full:
  assumes "length (fst (replies u rh wh reqs d)) = length reqs" "i < length reqs"
  shows "\<exists>resp d'. device_reply u rh wh (reqs ! i) (snd (replies u rh wh (take i reqs) d)) = Some (resp, d')
    \<and> fst (replies u rh wh reqs d) ! i = resp"
  using assms
proof (induction reqs arbitrary: d i)
  case (Cons req reqs)
  obtain resp d1 where reply: "device_reply u rh wh req d = Some (resp, d1)"
    using Cons.prems(1) length_replies [of u rh wh reqs d] by (cases "device_reply u rh wh req d") auto
  then have "length (fst (replies u rh wh reqs d1)) = length reqs" using Cons.prems(1) by (simp add: split_beta)
  with Cons.IH [OF this] Cons.prems(2) reply show ?case by (cases i) (auto simp: split_beta)
qed simp

section \<open>Progress\<close>

lemma th_state_process_defined:
  assumes "th_state u rh wh d0 st executed held queued got coming" "th_serving st = Some f"
  shows "\<exists>b st'. th_step (device_server u rh wh) st (Processed b) st'"
proof -
  obtain req where req: "carries req f" using assms by (auto simp: th_state_def list_all2_Cons2)
  have "lb_healthy (th_link st)" using assms(1) by (simp add: th_state_def)
  from process_frame_reply [OF this req, of u rh wh "th_device st"] obtain b l d where
    "process_frame (device_server u rh wh) f (th_link st, th_device st) = Some (b, (l, d))"
    by (auto split: option.splits)
  then show ?thesis using assms(2) th_step.process by metis
qed

lemma th_state_returns:
  assumes "th_state u rh wh d st executed held queued got coming" "coming \<noteq> []" "th_waiting st"
  shows "\<exists>r st''. th_step (device_server u rh wh) st (Returned r) st''"
proof -
  from assms obtain f fs where q: "tx_queue ServerSide (th_link st) = f # fs" and c: "carries (u, hd coming) f"
    by (cases coming) (auto simp: th_state_def list_all2_Cons1 simp del: tx_queue.simps)
  have "transact_receive (th_client st) (th_link st) =
      Some (check_exception (hd coming), set_tx_queue ServerSide fs (th_link st))"
    by (rule transact_receive_healthy(2) [OF _ _ q c]) (use assms(1) in \<open>simp_all add: th_state_def\<close>)
  then show ?thesis using th_step.answer [OF assms(3)] q by (metis list.distinct(1) set_rx_queue_side(4))
qed

lemma th_state_taken:
  assumes st: "th_state u rh wh d st executed [] (req # queued) got coming" and "th_serving st = None"
  shows "\<exists>f st1. th_step (device_server u rh wh) st (Taken f) st1 \<and> th_state u rh wh d st1 executed [req] queued got coming
    \<and> (th_waiting st1 \<longleftrightarrow> th_waiting st)"
proof -
  let ?sv = "device_server u rh wh"
  obtain f fs where "tx_queue ClientSide (th_link st) = f # fs"
    using st by (auto simp: th_state_def list_all2_Cons1 simp del: tx_queue.simps)
  then have rcv: "t_receive (sv_transport (sv_config ?sv)) 10 (th_link st, th_device st) =
      (Ok f, (set_tx_queue ClientSide fs (th_link st), th_device st))"
    using st by (simp add: th_state_def lb_healthy_receive del: tx_queue.simps set_tx_queue.simps)
  from th_step.take_frame [where sv = ?sv, OF assms(2) rcv] th_state_take [OF st assms(2) rcv] show ?thesis by fastforce
qed

text \<open>The server alone brings an answer that is due: each of its steps takes up or executes a request.\<close>

lemma th_state_answers:
  assumes "th_state u rh wh d st executed held queued got coming" "th_waiting st"
    and "\<forall>req \<in> set (held @ queued). carried u rh wh req"
    and "length got < length (fst (replies u rh wh (executed @ held @ queued) d))"
  shows "\<exists>es st' r st''. th_trace (device_server u rh wh) st es st' \<and> length es \<le> length held + 2 * length queued
    \<and> all_of timed_out es = [] \<and> all_of requested es = [] \<and> th_step (device_server u rh wh) st' (Returned r) st''"
  using assms
proof (induction "length held + 2 * length queued" arbitrary: st executed held queued coming rule: less_induct)
  case less
  let ?sv = "device_server u rh wh"
  have onward: ?case if e: "th_step ?sv st e st1" "timed_out e = []" "requested e = []"
    and st1: "th_state u rh wh d st1 executed' held' queued' got coming'" "th_waiting st1"
    and smaller: "length held' + 2 * length queued' < length held + 2 * length queued"
    and same: "executed' @ held' @ queued' = executed @ held @ queued" "set (held' @ queued') \<subseteq> set (held @ queued)"
    for e st1 executed' held' queued' coming'
  proof -
    have "\<forall>req \<in> set (held' @ queued'). carried u rh wh req" using less.prems(3) same(2) by blast
    from less.hyps [OF smaller st1 this] less.prems(4) same(1) obtain es st' r st'' where
      rest: "th_trace ?sv st1 es st'" "length es \<le> length held' + 2 * length queued'" "all_of timed_out es = []"
      "all_of requested es = []" "th_step ?sv st' (Returned r) st''" by auto
    from th_trace_Cons [OF rest(1) e(1)] rest(2-5) smaller e(2,3) show ?thesis
      by (intro exI [of _ "e # es"] exI [of _ st'] exI [of _ r] exI [of _ st'']) simp
  qed
  show ?case
  proof (cases "coming = []")
    case False
    from th_state_returns [OF less.prems(1) this less.prems(2)] show ?thesis
      by (intro exI [of _ "[]"] exI [of _ st]) (auto intro: th_trace.nil)
  next
    case True
    show ?thesis
    proof (cases "th_serving st")
      case (Some f)
      then obtain req where held: "held = [req]" using less.prems(1) by (auto simp: th_state_def list_all2_Cons2)
      from th_state_process_defined [OF less.prems(1) Some] obtain b st1 where step: "th_step ?sv st (Processed b) st1" by blast
      have "\<forall>q \<in> set held. carried u rh wh q" using less.prems(3) by simp
      from step th_state_process [OF less.prems(1) Some this] Some held obtain coming' where
        "th_state u rh wh d st1 (executed @ [req]) [] queued got coming'" "th_waiting st1"
        using less.prems(2) by (auto simp: th_step_simps)
      then show ?thesis by (intro onward [OF step _ _ \<open>th_state u rh wh d st1 (executed @ [req]) [] queued got coming'\<close>]) (auto simp: held)
    next
      case None
      then have "held = []" using less.prems(1) by (simp add: th_state_def)
      moreover have "queued \<noteq> []"
        using less.prems(1,4) True calculation by (auto simp: th_state_def)
      then obtain req rest where queued: "queued = req # rest" by (cases queued) auto
      ultimately have "th_state u rh wh d st executed [] (req # rest) got coming" using less.prems(1) by simp
      from th_state_taken [OF this None] obtain f st1 where
        step: "th_step ?sv st (Taken f) st1" and "th_state u rh wh d st1 executed [req] rest got coming" "th_waiting st1"
        using less.prems(2) by blast
      then show ?thesis
        by (intro onward [OF step _ _ \<open>th_state u rh wh d st1 executed [req] rest got coming\<close>]) (auto simp: queued \<open>held = []\<close>)
    qed
  qed
qed

text \<open>No answer comes that is not due.\<close>

lemma th_trace_append: "th_trace sv st2 es' st3 \<Longrightarrow> th_trace sv st1 es st2 \<Longrightarrow> th_trace sv st1 (es @ es') st3"
proof (induction rule: th_trace.induct)
  case (snoc st es' st' e st'')
  from th_trace.snoc [OF snoc.IH [OF snoc.prems] snoc.hyps(2)] show ?case by simp
qed simp

lemma not_due_no_answer:
  assumes "th_trace (device_server u rh wh) (threads_start cl l d) es st"
    and "cc_transport (cl_config cl) = LoopbackTransport ClientSide" "link_ready (l, d)"
    and "\<forall>req \<in> set (all_of requested es). carried u rh wh req"
    and "th_trace (device_server u rh wh) st es' st'" "all_of requested es' = []"
    and "th_step (device_server u rh wh) st' (Returned r) st''"
  shows "length (all_of returned es) < length (fst (replies u rh wh (all_of requested es) d))"
proof -
  have "th_trace (device_server u rh wh) (threads_start cl l d) ((es @ es') @ [Returned r]) st''"
    using th_trace.snoc [OF th_trace_append [OF assms(5,1)] assms(7)] .
  from th_inv_trace [OF this assms(2,3)] assms(4,6)
  have "th_inv u rh wh d ((es @ es') @ [Returned r]) st''" by simp
  from th_inv_results(3) [OF this] show ?thesis using assms(6) by simp
qed

lemma waiting_step:
  assumes "th_inv u rh wh d es st" "th_waiting st"
  shows "\<exists>e st' r. th_step (device_server u rh wh) st e st' \<and> \<not> th_waiting st' \<and> (e = Returned r \<or> e = TimedOut r)"
proof -
  obtain executed held queued got coming where st: "th_state u rh wh d st executed held queued got coming"
    using assms(1) by (auto simp: th_inv_def)
  show ?thesis
  proof (cases "coming = []")
    case False
    from th_state_returns [OF st this assms(2)] show ?thesis by (fastforce simp: th_step_simps)
  next
    case True
    then have "tx_queue ServerSide (th_link st) = []" using st by (simp add: th_state_def)
    moreover have "transact_receive (th_client st) (th_link st) = Some (err TimeoutExpired, th_link st)"
      by (rule transact_receive_healthy(1)) (use st calculation in \<open>simp_all add: th_state_def\<close>)
    ultimately have "th_step (device_server u rh wh) st (TimedOut (err TimeoutExpired)) (st\<lparr>th_link := th_link st, th_waiting := False\<rparr>)"
      using assms(2) by (intro th_step.timeout) simp_all
    then show ?thesis by fastforce
  qed
qed

section \<open>Properties\<close>

text \<open>
  Property C2. The threads cannot be told from a sequential device: in every interleaving of the client's
  transactions with the loop of the server in which no wait has timed out, the results are, in
  order, the answers of a device that executes the same requests one after the other; when the client is not waiting
  the device is in the state after the last of them and the link is empty.
\<close>

theorem threads_sequential:
  assumes "th_trace (device_server u rh wh) (threads_start cl l d) es st"
    and "cc_transport (cl_config cl) = LoopbackTransport ClientSide" and "link_ready (l, d)"
    and "\<forall>req \<in> set (all_of requested es). carried u rh wh req" and "all_of timed_out es = []"
  shows "(\<exists>n. all_of returned es = map check_exception (take n (fst (replies u rh wh (all_of requested es) d))))
    \<and> (\<not> th_waiting st \<longrightarrow> all_of returned es = map check_exception (fst (replies u rh wh (all_of requested es) d))
        \<and> th_device st = snd (replies u rh wh (all_of requested es) d)
        \<and> link_ready (th_link st, th_device st) \<and> th_serving st = None)"
proof -
  have inv: "th_inv u rh wh d es st" using assms(1-4) by (rule th_inv_trace)
  show ?thesis
  proof (intro conjI impI)
    show "\<exists>n. all_of returned es = map check_exception (take n (fst (replies u rh wh (all_of requested es) d)))"
      using th_inv_results(1) [OF inv] by blast
    assume "\<not> th_waiting st"
    note quiet = th_inv_quiet [OF inv assms(5) this]
    show "all_of returned es = map check_exception (fst (replies u rh wh (all_of requested es) d))"
      using th_inv_results(1) [OF inv] quiet by simp
    show "th_device st = snd (replies u rh wh (all_of requested es) d)" using quiet by (metis snd_conv)
    show "link_ready (th_link st, th_device st)" "th_serving st = None" using quiet by simp_all
  qed
qed

text \<open>
  Property C5. Answers are matched by their order alone: whatever the interleaving, a transaction returns the
  \<open>n\<close>-th answer that the device gives, where \<open>n\<close> counts the transactions before it that have not timed out, since
  neither the transaction identifier nor the unit nor the function code of an answer is compared with the request.
  When the device answers every request that was sent, this means: once \<open>k\<close> waits have timed out, a transaction returns
  the answer to the request sent \<open>k\<close> transactions before it, and so its own only for \<open>k = 0\<close>. (A request that
  the device leaves unanswered shifts nothing.)
\<close>

theorem late_answers:
  assumes "th_trace (device_server u rh wh) (threads_start cl l d) es st"
    and "th_step (device_server u rh wh) st (Returned r) st'"
    and "cc_transport (cl_config cl) = LoopbackTransport ClientSide" and "link_ready (l, d)"
    and "\<forall>req \<in> set (all_of requested es). carried u rh wh req"
  defines "i \<equiv> length (all_of requested es) - 1 - length (all_of timed_out es)"
  shows "length (all_of timed_out es) < length (all_of requested es)
    \<and> r = check_exception (fst (replies u rh wh (all_of requested es) d) ! i)
    \<and> (length (fst (replies u rh wh (all_of requested es) d)) = length (all_of requested es) \<longrightarrow>
        (\<exists>resp d'. device_reply u rh wh (all_of requested es ! i) (snd (replies u rh wh (take i (all_of requested es)) d))
            = Some (resp, d') \<and> r = check_exception resp))"
proof -
  have inv: "th_inv u rh wh d es st" using assms(1,3-5) by (rule th_inv_trace)
  have "th_inv u rh wh d (es @ [Returned r]) st'"
    by (rule th_inv_trace [OF th_trace.snoc [OF assms(1,2)] assms(3,4)]) (use assms(5) in simp)
  note after = th_inv_results [OF this]
  let ?k = "length (all_of returned es)"
  have "?k < length (fst (replies u rh wh (all_of requested es) d))" using after(3) by simp
  then have r: "r = check_exception (fst (replies u rh wh (all_of requested es) d) ! ?k)"
    using after(1) by (simp add: take_Suc_conv_app_nth)
  have "th_waiting st" using assms(2) by (auto simp: th_step_simps)
  then have n: "length (all_of requested es) = ?k + length (all_of timed_out es) + 1"
    using th_inv_results(2) [OF inv] by simp
  then have "i = ?k" "i < length (all_of requested es)" by (simp_all add: i_def)
  with r n replies_nth_full [of u rh wh "all_of requested es" d i] show ?thesis by auto
qed

text \<open>
  Property C8. No deadlock, and no answer lost: in every state that client and server can reach, a client that waits
  can end its wait, with an answer or with a timeout. If an answer is due, that is, if the device answers more of the
  requests sent than have been returned, then steps of the server alone bring one, at most two for every
  request, without a timeout. If none is due, as for a request that the device never answers, no further steps of the
  server bring one, and the wait ends with the timeout.
\<close>

theorem threads_progress:
  assumes "th_trace (device_server u rh wh) (threads_start cl l d) es st" and "th_waiting st"
    and "cc_transport (cl_config cl) = LoopbackTransport ClientSide" and "link_ready (l, d)"
    and "\<forall>req \<in> set (all_of requested es). carried u rh wh req"
  defines "due \<equiv> length (all_of returned es) < length (fst (replies u rh wh (all_of requested es) d))"
  shows "(\<exists>e st' r. th_step (device_server u rh wh) st e st' \<and> \<not> th_waiting st' \<and> (e = Returned r \<or> e = TimedOut r))
    \<and> (due \<longrightarrow> (\<exists>es' st' r st''. th_trace (device_server u rh wh) st es' st' \<and> length es' \<le> 2 * length (all_of requested es)
        \<and> all_of timed_out es' = [] \<and> all_of requested es' = [] \<and> th_step (device_server u rh wh) st' (Returned r) st''))
    \<and> (\<not> due \<longrightarrow> \<not> (\<exists>es' st' r st''. th_trace (device_server u rh wh) st es' st' \<and> all_of requested es' = []
        \<and> th_step (device_server u rh wh) st' (Returned r) st''))"
proof -
  have inv: "th_inv u rh wh d es st" using assms(1,3-5) by (rule th_inv_trace)
  obtain executed held queued got coming where st: "th_state u rh wh d st executed held queued got coming"
    and reqs: "all_of requested es = executed @ held @ queued" and rets: "all_of returned es = map check_exception got"
    using inv by (auto simp: th_inv_def)
  have due: "\<exists>es' st' r st''. th_trace (device_server u rh wh) st es' st' \<and> length es' \<le> 2 * length (all_of requested es)
        \<and> all_of timed_out es' = [] \<and> all_of requested es' = [] \<and> th_step (device_server u rh wh) st' (Returned r) st''" if due
  proof -
    have "\<forall>req \<in> set (held @ queued). carried u rh wh req" using assms(5) reqs by simp
    from th_state_answers [OF st assms(2) this] that show ?thesis unfolding due_def reqs rets by fastforce
  qed
  from waiting_step [OF inv assms(2)] due not_due_no_answer [OF assms(1,3-5)] show ?thesis
    unfolding due_def by blast
qed

text \<open>Two readings of a device with three registers: in step, and with a timeout of the first.\<close>

lemma read_carried:
  assumes "unat cnt < 32000"
  shows "carried u register_file_read wh (u', read_request addr cnt)"
proof -
  have "PDU_wf resp \<and> 1 + length (PDU_serialize resp) < 2 ^ 16"
    if "device_reply u register_file_read wh (u', read_request addr cnt) d = Some (resp, d')" for d resp d'
    using that read_response_carried [of "fst (register_file_read addr cnt d)"] assms
    by (auto simp: device_reply_def reply_read register_file_read_def err_def split: if_splits prod.splits)
  then show ?thesis by (auto simp: carried_def read_request_def)
qed

definition thread_client :: "(nat, nat, loopback) client" where
  "thread_client = Client (ClientConfig_default (LoopbackTransport ClientSide))"

definition thread_server :: "(loopback \<times> register list) server" where
  "thread_server = device_server 1 register_file_read None"

definition reads_start :: "(nat, nat, register list) threads" where
  "reads_start = threads_start thread_client (connected_pair (\<lambda>_. Fin 0) (\<lambda>_. Fin 0)) [10, 20, 30]"

definition reads_in_step :: "th_choice list" where
  "reads_in_step = [Request 1 (read_request 0 1), Serve, Serve, Wake, Serve, Request 1 (read_request 2 1), Serve, Serve, Wake]"

definition reads_late :: "th_choice list" where
  "reads_late = [Request 1 (read_request 0 1), Wake, Request 1 (read_request 2 1), Serve, Serve]"

lemma thread_client_ready:
  "cc_transport (cl_config thread_client) = LoopbackTransport ClientSide"
  "link_ready (connected_pair (\<lambda>_. Fin 0) (\<lambda>_. Fin 0), d)"
  by (simp_all add: thread_client_def Client_def ClientConfig_default_def link_ready_def)

lemma reads_run:
  "map_option (\<lambda>(es, st). (all_of requested es, all_of returned es, all_of timed_out es, th_waiting st, th_device st))
     (th_run thread_server reads_in_step reads_start) =
   Some ([(1, read_request 0 1), (1, read_request 2 1)],
     [Ok (make_standard 3 [2, 0, 10]), Ok (make_standard 3 [2, 0, 30])], [], False, [10, 20, 30])"
  "map_option (\<lambda>(es, st). (all_of requested es, all_of returned es, length (all_of timed_out es), th_waiting st,
       map_option fst (th_exec thread_server Wake st)))
     (th_run thread_server reads_late reads_start) =
   Some ([(1, read_request 0 1), (1, read_request 2 1)], [], 1, True, Some (Returned (Ok (make_standard 3 [2, 0, 10]))))"
  by code_simp+

lemma reads_replies:
  "replies 1 register_file_read None [(1, read_request 0 1), (1, read_request 2 1)] [10, 20, 30] =
     ([make_standard 3 [2, 0, 10], make_standard 3 [2, 0, 30]], [10, 20, 30])"
  by code_simp

theorem threads_sequential_witness:
  "\<exists>es st. th_trace thread_server reads_start es st \<and> \<not> th_waiting st
    \<and> all_of returned es = [Ok (make_standard 3 [2, 0, 10]), Ok (make_standard 3 [2, 0, 30])]
    \<and> link_ready (th_link st, th_device st)"
proof -
  obtain es st where run: "th_run thread_server reads_in_step reads_start = Some (es, st)"
    and es: "all_of requested es = [(1, read_request 0 1), (1, read_request 2 1)]" "all_of timed_out es = []" "\<not> th_waiting st"
    "all_of returned es = [Ok (make_standard 3 [2, 0, 10]), Ok (make_standard 3 [2, 0, 30])]"
    using reads_run(1) by auto
  note trace = th_run_trace [OF run]
  have "\<forall>req \<in> set (all_of requested es). carried 1 register_file_read None req" by (simp add: es read_carried)
  from threads_sequential [OF trace [unfolded thread_server_def reads_start_def] thread_client_ready this es(2)] es(3)
  have "link_ready (th_link st, th_device st)" by blast
  with trace es show ?thesis by blast
qed

theorem late_answers_witness:
  "\<exists>es st st'. th_trace thread_server reads_start es st \<and> last (all_of requested es) = (1, read_request 2 1)
    \<and> th_step thread_server st (Returned (check_exception (make_standard 3 [2, 0, 10]))) st'"
proof -
  obtain es st where run: "th_run thread_server reads_late reads_start = Some (es, st)"
    and es: "all_of requested es = [(1, read_request 0 1), (1, read_request 2 1)]" "length (all_of timed_out es) = 1"
    "\<exists>r st'. th_exec thread_server Wake st = Some (Returned r, st')"
    using reads_run(2) by auto
  note trace = th_run_trace [OF run]
  from es(3) obtain r st' where step: "th_step thread_server st (Returned r) st'" using th_exec_step by metis
  have "\<forall>req \<in> set (all_of requested es). carried 1 register_file_read None req" by (simp add: es read_carried)
  from late_answers [OF trace [unfolded thread_server_def reads_start_def] step [unfolded thread_server_def]
      thread_client_ready this]
  have "r = check_exception (make_standard 3 [2, 0, 10])" by (simp add: es reads_replies del: replies.simps)
  moreover have "last (all_of requested es) = (1, read_request 2 1)" by (simp add: es)
  ultimately show ?thesis using trace step by blast
qed

theorem threads_progress_witness:
  "\<exists>es st es' st' r st''. th_trace thread_server reads_start es st \<and> length (all_of timed_out es) = 1 \<and> th_waiting st
    \<and> th_trace thread_server st es' st' \<and> th_step thread_server st' (Returned r) st''"
proof -
  obtain es st where run: "th_run thread_server reads_late reads_start = Some (es, st)"
    and es: "all_of requested es = [(1, read_request 0 1), (1, read_request 2 1)]" "length (all_of timed_out es) = 1" "th_waiting st"
    "all_of returned es = []"
    using reads_run(2) by auto
  note trace = th_run_trace [OF run]
  have "\<forall>req \<in> set (all_of requested es). carried 1 register_file_read None req" by (simp add: es read_carried)
  from threads_progress [OF trace [unfolded thread_server_def reads_start_def] es(3) thread_client_ready this]
  have "\<exists>es' st' r st''. th_trace thread_server st es' st' \<and> th_step thread_server st' (Returned r) st''"
    by (fastforce simp: es reads_replies thread_server_def simp del: replies.simps)
  with trace es show ?thesis by blast
qed

end
