(* ===== verification/Shared_Link.thy ===== *)
theory Shared_Link
  imports Threads
begin

text \<open>
  Client and subscriber on one transport. \<open>client/client.hpp\<close> gives the transport of the client to its pipeline
  and its subscriber as well, and each of them takes whatever frame comes next. Here notifications of the server's
  publisher are waiting when the client begins its transactions.
\<close>

section \<open>Transactions over a link with frames in it\<close>

text \<open>What \<open>transact\<close> makes of a frame, whatever it is.\<close>

definition taken_as :: "frame \<Rightarrow> PDU Result option" where
  "taken_as f = (case unwrap_tcp (span_of f) of
     None \<Rightarrow> None
   | Some (Err ec) \<Rightarrow> Some (Err ec)
   | Some (Ok (resp_unit, resp_pdu, resp_txn)) \<Rightarrow> Some (check_exception resp_pdu))"

fun transacts :: "(unit_id \<times> PDU) list \<Rightarrow> ('cb, 'h, 's) client \<Rightarrow> 's \<Rightarrow> (PDU Result list \<times> ('cb, 'h, 's) client \<times> 's) option" where
  "transacts [] cl s = Some ([], cl, s)"
| "transacts ((u, request) # reqs) cl s = (case transact u request cl s of
     None \<Rightarrow> None
   | Some (r, cl, s) \<Rightarrow> map_option (\<lambda>(rs, cl, s). (r # rs, cl, s)) (transacts reqs cl s))"

text \<open>The server answers at the end of the queue, the client takes from its front.\<close>

lemma transact_queued:
  assumes "cc_transport (cl_config cl) = served_link (device_server u rh wh)" "lb_healthy l" "tx_queue ClientSide l = []"
    and "carried u rh wh (u', request)" "device_reply u rh wh (u', request) d = Some (resp, d')"
  shows "\<exists>txn f fs. tx_queue ServerSide l @ [wrap_tcp u resp txn] = f # fs
    \<and> transact u' request cl (l, d) =
      map_option (\<lambda>r. (r, advance_txn 1 cl, (set_tx_queue ServerSide fs l, d'))) (taken_as f)"
proof -
  let ?sv = "device_server u rh wh" and ?f = "wrap_tcp u' request (cl_next_transaction_id cl)"
  define l1 where "l1 = set_tx_queue ClientSide [?f] l"
  have id: "set_tx_queue ClientSide [] l = l" using assms(3) by (metis set_tx_queue_id)
  have c: "carries (u', request) ?f" using assms(4) by (simp add: carried_def)
  obtain txn where p: "process_frame ?sv ?f (l, d) =
      Some (True, (set_tx_queue ServerSide (tx_queue ServerSide l @ [wrap_tcp u resp txn]) l, d'))"
    using process_frame_reply [OF assms(2) c, of u rh wh d] assms(5) by (auto simp del: tx_queue.simps set_tx_queue.simps)
  have "loopback_receive ServerSide 10 l1 = (Ok ?f, l)"
    using assms(2) id by (simp add: l1_def lb_healthy_receive del: tx_queue.simps set_tx_queue.simps)
  then have one: "process_one ?sv (l1, d) =
      Some (True, (set_tx_queue ServerSide (tx_queue ServerSide l @ [wrap_tcp u resp txn]) l, d'))"
    by (simp add: process_one_split p del: tx_queue.simps set_tx_queue.simps)
  have send: "t_send (served_link ?sv) ?f (l, d) = (void_ok, (l1, d))"
    using assms(2,3) by (simp add: served_link_def Let_def lb_healthy_send l1_def)
  obtain f fs where q: "tx_queue ServerSide l @ [wrap_tcp u resp txn] = f # fs"
    by (cases "tx_queue ServerSide l @ [wrap_tcp u resp txn]") auto
  have "t_receive (served_link ?sv) timeout (l1, d) = (Ok f, (set_tx_queue ServerSide fs l, d'))" for timeout
    using assms(2) q by (simp add: served_link_def Let_def one lb_healthy_receive del: tx_queue.simps set_tx_queue.simps)
  then have "transact u' request cl (l, d) =
      map_option (\<lambda>r. (r, advance_txn 1 cl, (set_tx_queue ServerSide fs l, d'))) (taken_as f)"
    using assms(1) send
    by (auto simp: transact_def taken_as_def advance_txn_def split: option.split Result.split)
  then show ?thesis using q by blast
qed

lemma taken_as_wrap:
  "PDU_wf resp \<Longrightarrow> 1 + length (PDU_serialize resp) < 2 ^ 16 \<Longrightarrow> taken_as (wrap_tcp u resp txn) = Some (check_exception resp)"
  using tcp_roundtrip [of resp u txn "[]"] by (simp add: taken_as_def)

abbreviation awaits :: "PDU Result list \<Rightarrow> frame list \<Rightarrow> bool" where
  "awaits \<equiv> list_all2 (\<lambda>r f. taken_as f = Some r)"

lemma all_answered_Cons:
  assumes "length (fst (replies u rh wh (req # reqs) d)) = length (req # reqs)"
  shows "\<exists>resp d'. device_reply u rh wh req d = Some (resp, d') \<and> length (fst (replies u rh wh reqs d')) = length reqs
    \<and> replies u rh wh (req # reqs) d = (resp # fst (replies u rh wh reqs d'), snd (replies u rh wh reqs d'))"
  using assms length_replies [of u rh wh reqs d]
  by (cases "device_reply u rh wh req d") (auto split: prod.splits)

lemma transacts_queued:
  assumes "cc_transport (cl_config cl) = served_link (device_server u rh wh)" "lb_healthy l" "tx_queue ClientSide l = []"
    and "\<forall>req \<in> set reqs. carried u rh wh req" "length (fst (replies u rh wh reqs d)) = length reqs"
    and "awaits rs (tx_queue ServerSide l)"
  shows "\<exists>q. transacts reqs cl (l, d) =
      Some (take (length reqs) (rs @ map check_exception (fst (replies u rh wh reqs d))), advance_txn (length reqs) cl,
        (set_tx_queue ServerSide q l, snd (replies u rh wh reqs d)))
    \<and> awaits (drop (length reqs) (rs @ map check_exception (fst (replies u rh wh reqs d)))) q"
  using assms
proof (induction reqs arbitrary: cl l d rs)
  case Nil
  have "set_tx_queue ServerSide (tx_queue ServerSide l) l = l" by simp
  then show ?case using Nil.prems(6)
    by (intro exI [of _ "tx_queue ServerSide l"]) (simp add: advance_txn_def del: tx_queue.simps set_tx_queue.simps)
next
  case (Cons req reqs)
  obtain u' request where req: "req = (u', request)" by (cases req)
  obtain resp d' where reply: "device_reply u rh wh req d = Some (resp, d')"
    and len: "length (fst (replies u rh wh reqs d')) = length reqs"
    and all: "replies u rh wh (req # reqs) d = (resp # fst (replies u rh wh reqs d'), snd (replies u rh wh reqs d'))"
    using all_answered_Cons [OF Cons.prems(5)] by blast
  have c: "carried u rh wh (u', request)" using Cons.prems(4) req by simp
  then have "PDU_wf resp" "1 + length (PDU_serialize resp) < 2 ^ 16"
    using reply req by (auto simp: carried_def)
  note taken = taken_as_wrap [OF this]
  define q where "q = tx_queue ServerSide l"
  from transact_queued [OF Cons.prems(1-3) c reply [unfolded req]]
  obtain f fs txn where "q @ [wrap_tcp u resp txn] = f # fs" and step: "transact u' request cl (l, d) =
      map_option (\<lambda>r. (r, advance_txn 1 cl, (set_tx_queue ServerSide fs l, d'))) (taken_as f)"
    unfolding q_def by blast
  have "awaits (rs @ [check_exception resp]) (f # fs)"
    using Cons.prems(6) taken \<open>q @ [wrap_tcp u resp txn] = f # fs\<close> [symmetric]
    by (auto simp: q_def simp del: tx_queue.simps intro!: list_all2_appendI)
  then obtain r rs' where rs: "rs @ [check_exception resp] = r # rs'" "taken_as f = Some r" "awaits rs' fs"
    by (cases "rs @ [check_exception resp]") auto
  have "rs @ map check_exception (resp # as) = (rs @ [check_exception resp]) @ map check_exception as" for as by simp
  note split = this [unfolded rs(1)]
  have "cc_transport (cl_config (advance_txn 1 cl)) = served_link (device_server u rh wh)"
    "advance_txn (length reqs) (advance_txn 1 cl) = advance_txn (length (req # reqs)) cl"
    using Cons.prems(1) by (simp_all add: advance_txn_def ac_simps)
  moreover have "lb_healthy (set_tx_queue ServerSide fs l)" "tx_queue ClientSide (set_tx_queue ServerSide fs l) = []"
    "tx_queue ServerSide (set_tx_queue ServerSide fs l) = fs"
    using Cons.prems(2) lb_healthy_set_tx by blast (use Cons.prems(3) in simp_all)
  ultimately obtain q' where "transacts reqs (advance_txn 1 cl) (set_tx_queue ServerSide fs l, d') =
      Some (take (length reqs) (rs' @ map check_exception (fst (replies u rh wh reqs d'))), advance_txn (length (req # reqs)) cl,
        (set_tx_queue ServerSide q' l, snd (replies u rh wh reqs d')))"
    "awaits (drop (length reqs) (rs' @ map check_exception (fst (replies u rh wh reqs d')))) q'"
    using Cons.IH [of "advance_txn 1 cl" "set_tx_queue ServerSide fs l" d' rs'] Cons.prems(4) len rs(3)
    by (auto simp del: tx_queue.simps set_tx_queue.simps)
  then show ?case
    unfolding req [symmetric] all fst_conv snd_conv split using step rs(2)
    by (intro exI [of _ q']) (simp add: req del: tx_queue.simps set_tx_queue.simps)
qed

section \<open>Notifications in the queue\<close>

text \<open>A notification is sent without an envelope: its flags stand where the MBAP header has the protocol, which must be 0.\<close>

lemma taken_as_notification:
  assumes "notification_fits notif"
  shows "taken_as (PDU_serialize (notification_pdu notif)) = Some (err InvalidFrame)"
proof -
  have wire: "PDU_wire (notification_pdu notif)" using notification_pdu_wf [OF assms] by (simp add: PDU_wf_def)
  obtain hdr where hdr: "extended_header (notification_pdu notif) = Some hdr" "flags hdr = 1"
    by (auto simp: notification_pdu_def make_extended_header FrameHeader_default_def set_flag_def flag_or_def)
  show ?thesis
    using PDU_serialize_extended [OF hdr(1) wire] hdr(2)
    by (simp add: taken_as_def unwrap_tcp_def span_at_def mem_simps hi8_def lo8_def len_bytes_def err_def)
qed

lemma awaits_notifications:
  "\<forall>notif \<in> set notifs. notification_fits notif \<Longrightarrow>
   awaits (replicate (length notifs) (err InvalidFrame)) (map (PDU_serialize \<circ> notification_pdu) notifs)"
  by (induction notifs) (simp_all add: taken_as_notification)

section \<open>Properties\<close>

text \<open>
  Property C9. Client and subscriber disturb each other: while \<open>k\<close> notifications wait on the link, the next \<open>k\<close>
  transactions fail with \<open>InvalidFrame\<close>, although the device executes every one of them. Each
  takes a notification off the link, which no handler then gets, and from then on every transaction returns
  the answer to the request \<open>k\<close> transactions before; the last \<open>k\<close> answers are left on the link.
\<close>

theorem notifications_shift_answers:
  assumes "cc_transport (cl_config cl) = served_link (device_server u rh wh)" "link_ready (l, d)"
    and "\<forall>notif \<in> set notifs. notification_fits notif" "\<forall>req \<in> set reqs. carried u rh wh req"
    and "length (fst (replies u rh wh reqs d)) = length reqs" "length notifs \<le> length reqs"
  defines "answers \<equiv> map check_exception (fst (replies u rh wh reqs d))"
  shows "\<exists>q. transacts reqs cl (set_tx_queue ServerSide (map (PDU_serialize \<circ> notification_pdu) notifs) l, d) =
      Some (replicate (length notifs) (err InvalidFrame) @ take (length reqs - length notifs) answers,
        advance_txn (length reqs) cl, (set_tx_queue ServerSide q l, snd (replies u rh wh reqs d)))
    \<and> list_all2 (\<lambda>r f. taken_as f = Some r) (drop (length reqs - length notifs) answers) q"
proof -
  let ?l = "set_tx_queue ServerSide (map (PDU_serialize \<circ> notification_pdu) notifs) l"
  have "lb_healthy l" "tx_queue ClientSide l = []" using assms(2) by (simp_all add: link_ready_def)
  then have "lb_healthy ?l" "tx_queue ClientSide ?l = []"
    using lb_healthy_set_tx by blast (use \<open>tx_queue ClientSide l = []\<close> in simp_all)
  moreover have "awaits (replicate (length notifs) (err InvalidFrame)) (tx_queue ServerSide ?l)"
    using awaits_notifications [OF assms(3)] by simp
  ultimately show ?thesis
    using transacts_queued [OF assms(1) _ _ assms(4,5), of ?l "replicate (length notifs) (err InvalidFrame)"] assms(6)
    by (simp add: answers_def del: tx_queue.simps set_tx_queue.simps)
qed

text \<open>One notification, then registers 0 and 2 of a device are read: the second reading gets the register of the first.\<close>

definition shared_client :: "(nat, nat, loopback \<times> register list) client" where
  "shared_client = Client (ClientConfig_default (served_link thread_server))"

definition one_event :: EventNotification where
  "one_event = \<lparr>en_subscription_id = 1, en_start_address = 0, en_timestamp = Timestamp 5, en_current_values = [7],
     en_previous_values = []\<rparr>"

theorem notifications_shift_answers_witness:
  "\<exists>cl w. transacts [(1, read_request 0 1), (1, read_request 2 1)] shared_client
      (set_tx_queue ServerSide [PDU_serialize (notification_pdu one_event)] (connected_pair (\<lambda>_. Fin 0) (\<lambda>_. Fin 0)), [10, 20, 30])
    = Some ([err InvalidFrame, check_exception (make_standard 3 [2, 0, 10])], cl, w)"
proof -
  let ?reqs = "[(1, read_request 0 1), (1, read_request 2 1)]"
  have T: "cc_transport (cl_config shared_client) = served_link (device_server 1 register_file_read None)"
    by (simp add: shared_client_def Client_def ClientConfig_default_def thread_server_def)
  have "\<forall>notif \<in> set [one_event]. notification_fits notif" by (simp add: one_event_def notification_fits_def)
  moreover have "\<forall>req \<in> set ?reqs. carried 1 register_file_read None req" by (simp add: read_carried)
  moreover have "length (fst (replies 1 register_file_read None ?reqs [10, 20, 30])) = length ?reqs"
    by (simp add: reads_replies del: replies.simps)
  ultimately show ?thesis
    using notifications_shift_answers [OF T thread_client_ready(2), of "[one_event]" ?reqs "[10, 20, 30]"]
    by (auto simp: reads_replies simp del: replies.simps transacts.simps tx_queue.simps set_tx_queue.simps)
qed

end
