(* ===== verification/Pipelined_Link.thy ===== *)
theory Pipelined_Link
  imports Served_Link
begin

text \<open>
  A pipeline over a link with the library's server behind it. \<open>Pipeline::submit\<close> sends the bytes
  of an extended PDU without an envelope, \<open>Server::process_one\<close> takes every frame for an MBAP
  one: the flags are read as the protocol identifier, the correlation identifier as the
  length and the extended function code as the unit. No pipelined request is ever answered.
\<close>

section \<open>Frames that a server leaves unanswered\<close>

definition unanswerable :: "unit_id \<Rightarrow> frame \<Rightarrow> bool" where
  "unanswerable u f \<longleftrightarrow> (case unwrap_tcp (span_of f) of
     None \<Rightarrow> False
   | Some (Err ec) \<Rightarrow> True
   | Some (Ok (u', request, txn)) \<Rightarrow> (u' \<noteq> u \<and> u' \<noteq> 0) \<or> function_code request \<notin> {0x03, 0x06, 0x10})"

definition mute_link :: "unit_id \<Rightarrow> loopback \<times> 'd \<Rightarrow> bool" where
  "mute_link u w \<longleftrightarrow> lb_healthy (fst w) \<and> tx_queue ServerSide (fst w) = []
     \<and> (\<forall>f \<in> set (tx_queue ClientSide (fst w)). unanswerable u f)"

lemma link_ready_mute: "link_ready w \<Longrightarrow> mute_link u w"
  by (simp add: link_ready_def mute_link_def)

lemma set_set_tx_queue [simp]: "set_tx_queue sd q (set_tx_queue sd q' l) = set_tx_queue sd q l"
  by (cases sd) simp_all

lemma tx_queue_set: "tx_queue sd (set_tx_queue sd' q l) = (if sd = sd' then q else tx_queue sd l)"
  by (cases sd; cases sd') simp_all

lemma mute_send:
  assumes "mute_link u (l, d)" "unanswerable u f"
  shows "\<exists>l'. t_send (served_link (device_server u rh wh)) f (l, d) = (void_ok, (l', d)) \<and> mute_link u (l', d)"
  using assms
  by (auto simp: served_link_def Let_def lb_healthy_send mute_link_def tx_queue_set
      simp del: tx_queue.simps set_tx_queue.simps)

lemma process_one_unanswerable:
  assumes "mute_link u (l, d)"
  shows "\<exists>b l'. process_one (device_server u rh wh) (l, d) = Some (b, (l', d)) \<and> mute_link u (l', d)"
proof (cases "tx_queue ClientSide l")
  case Nil
  then show ?thesis
    using assms by (auto simp: process_one_def mute_link_def lb_healthy_receive err_def
        simp del: tx_queue.simps set_tx_queue.simps)
next
  case (Cons f fs)
  define l' where "l' = set_tx_queue ClientSide fs l"
  have rcv: "loopback_receive ServerSide 10 l = (Ok f, l')"
    using assms Cons by (simp add: lb_healthy_receive mute_link_def l'_def del: tx_queue.simps set_tx_queue.simps)
  have mute: "mute_link u (l', d)"
    using assms Cons by (simp add: mute_link_def l'_def tx_queue_set del: tx_queue.simps set_tx_queue.simps)
  have "unanswerable u f" using assms Cons by (simp add: mute_link_def del: tx_queue.simps)
  then have "\<exists>b. process_one (device_server u rh wh) (l, d) = Some (b, (l', d))"
    by (auto simp: unanswerable_def process_one_def rcv handle_request_reply server_reply_other
        split: option.splits Result.splits)
  then show ?thesis using mute by blast
qed

lemma mute_receive:
  assumes "mute_link u (l, d)"
  shows "\<exists>l'. t_receive (served_link (device_server u rh wh)) timeout (l, d) = (err TimeoutExpired, (l', d))
    \<and> mute_link u (l', d)"
proof -
  obtain b l' where p: "process_one (device_server u rh wh) (l, d) = Some (b, (l', d))" "mute_link u (l', d)"
    using process_one_unanswerable [OF assms] by blast
  then have "loopback_receive ClientSide timeout l' = (err TimeoutExpired, l')"
    by (simp add: lb_healthy_receive mute_link_def del: tx_queue.simps set_tx_queue.simps)
  then show ?thesis using p by (simp add: served_link_def Let_def)
qed

section \<open>Pipelined requests\<close>

lemma unwrap_tcp_view:
  assumes "unwrap_tcp (span_of f) = Some (Ok (u, p, txn))" "0 < mbap_length f"
  shows "u = f ! 6 \<and> function_code p = f ! 7"
proof -
  have f: "8 \<le> length f \<and> f ! 2 = 0 \<and> f ! 3 = 0 \<and> 6 + mbap_length f \<le> length f"
    using unwrap_tcp_reject [of f] assms(1) by (auto simp: err_def)
  with assms unwrap_tcp_eq [of f]
  have "u = f ! 6 \<and> PDU_deserialize (span_of (take (mbap_length f - 1) (drop 7 f))) = Some (Ok p)"
    by (auto split: option.splits Result.splits)
  then obtain rest where "u = f ! 6" "take (mbap_length f - 1) (drop 7 f) = function_code p # rest"
    by (auto simp: PDU_deserialize_Ok_iff)
  moreover from this(2) have "0 < mbap_length f - 1" by (cases "mbap_length f - 1") auto
  then have "take (mbap_length f - 1) (drop 7 f) ! 0 = f ! 7" using f by simp
  ultimately show ?thesis by simp
qed

lemma hi8_of_nat_le: "unat (hi8 (of_nat n)) \<le> n div 256"
proof -
  have "unat (hi8 (of_nat n)) \<le> unat (of_nat n :: u16) div 256"
    by (simp add: hi8_def unsigned_ucast_eq drop_bit_eq_div unat_div_distrib take_bit_nat_less_eq_self)
  also have "\<dots> \<le> n div 256"
    by (simp add: unat_of_nat take_bit_nat_less_eq_self div_le_mono)
  finally show ?thesis .
qed

lemma extended_bytes_unanswerable:
  assumes "extended_header p = Some h" "PDU_wire p" "correlation_id h \<noteq> 0" "length (payload p) < 768"
  shows "unanswerable u (PDU_serialize p)"
proof -
  let ?f = "PDU_serialize p"
  note ser = PDU_serialize_extended [OF assms(1,2)]
  have len: "mbap_length ?f = unat (correlation_id h)"
    by (simp add: ser mbap_length_def be_simps)
  then have pos: "0 < mbap_length ?f" using assms(3) by (simp add: unat_gt_0)
  have safe: "returns_within {InvalidFrame, UnsupportedVersion} (unwrap_tcp (span_of ?f))"
    by (rule unwrap_tcp_safe) (use pos in blast)
  show ?thesis
  proof (cases "unwrap_tcp (span_of ?f)")
    case None
    then show ?thesis using safe by simp
  next
    case (Some r)
    show ?thesis
    proof (cases r)
      case (Ok x)
      obtain u' request txn where x: "x = (u', request, txn)" by (cases x)
      have "?f ! 2 = 0" "?f ! 3 = 0"
        using unwrap_tcp_reject [of ?f] Some Ok by (auto simp: err_def)
      then have "hi8 (flags h) = 0" "lo8 (flags h) = 0" by (simp_all add: ser)
      then have "flags h = be16 0 0" by (metis be16_hi8_lo8)
      then have "flags h = 0" by (simp add: be16_def)
      then have "timestamp h = None" using assms(1,2) by (simp add: PDU_wire_def)
      then have "?f ! 7 = hi8 (of_nat (length (payload p)))" by (simp add: ser len_bytes_def)
      then have "function_code request = hi8 (of_nat (length (payload p)))"
        using unwrap_tcp_view [OF Some [unfolded Ok x] pos] by simp
      moreover have "unat (hi8 (of_nat (length (payload p)))) < 3"
        using assms(4) hi8_of_nat_le [of "length (payload p)"] by simp
      ultimately have "function_code request \<notin> {0x03, 0x06, 0x10}" by auto
      then show ?thesis by (simp add: unanswerable_def Some Ok x)
    qed (simp add: unanswerable_def Some)
  qed
qed

lemma pipeline_wrap_wf:
  assumes "PDU_wf request" "length (PDU_serialize request) < 2 ^ 16"
  shows "PDU_wf (pipeline_wrap cid request)"
proof (cases "extended_header request")
  case None
  then show ?thesis
    using assms(2) by (simp add: pipeline_wrap_def make_extended_wf FrameHeader_default_def)
next
  case (Some h)
  then have "version h = 1" "length (payload request) < 2 ^ 16"
      "(timestamp h \<noteq> None) = has_flag (flags h) HasTimestamp"
      "(hmac request \<noteq> None) = has_flag (flags h) HasHMAC"
      "\<forall>m. hmac request = Some m \<longrightarrow> length m = 32"
    using assms(1) by (auto simp: PDU_wf_def PDU_wire_def)
  then show ?thesis using Some by (simp add: pipeline_wrap_def make_extended_wf)
qed

lemma pipeline_wrap_wire:
  assumes "PDU_wf request" "length (PDU_serialize request) < 768"
  shows "\<exists>h. extended_header (pipeline_wrap cid request) = Some h \<and> PDU_wire (pipeline_wrap cid request)
    \<and> correlation_id h = cid \<and> length (payload (pipeline_wrap cid request)) < 768"
proof -
  have wf: "PDU_wf (pipeline_wrap cid request)" using assms by (intro pipeline_wrap_wf) simp_all
  show ?thesis
  proof (cases "extended_header request")
    case None
    then show ?thesis using wf assms(2)
      by (simp add: pipeline_wrap_def make_extended_header PDU_wf_def FrameHeader_default_def)
  next
    case (Some h)
    have wire: "PDU_wire request" using assms(1) by (simp add: PDU_wf_def)
    from PDU_serialize_extended [OF Some this] assms(2) have "length (payload request) < 768" by simp
    then show ?thesis using Some wf
      by (simp add: pipeline_wrap_def make_extended_header PDU_wf_def)
  qed
qed

lemma pipeline_wrap_unanswerable:
  assumes "PDU_wf request" "length (PDU_serialize request) < 768" "cid \<noteq> 0"
  shows "unanswerable u (PDU_serialize (pipeline_wrap cid request))"
  using pipeline_wrap_wire [OF assms(1,2), of cid] extended_bytes_unanswerable assms(3) by metis

text \<open>A list of requests, each with a callback, and a number of polls; all callbacks called are collected.\<close>

fun pipeline_submits :: "'s transport \<Rightarrow> ('s \<Rightarrow> Timestamp) \<Rightarrow> milliseconds \<Rightarrow> (PDU \<times> 'cb option) list \<Rightarrow> 'cb pipeline \<Rightarrow> 's
    \<Rightarrow> CorrelationID Result list \<times> 'cb pipeline \<times> 's" where
  "pipeline_submits T clock timeout [] p s = ([], p, s)"
| "pipeline_submits T clock timeout ((request, cb) # rest) p s =
     (case pipeline_submit T clock request cb timeout p s of (r, p, s) \<Rightarrow>
        (case pipeline_submits T clock timeout rest p s of (rs, p, s) \<Rightarrow> (r # rs, p, s)))"

fun pipeline_polls :: "'s transport \<Rightarrow> ('s \<Rightarrow> Timestamp) \<Rightarrow> nat \<Rightarrow> 'cb pipeline \<Rightarrow> 's
    \<Rightarrow> (('cb \<times> PDU Result) list \<times> 'cb pipeline \<times> 's) option" where
  "pipeline_polls T clock 0 p s = Some ([], p, s)"
| "pipeline_polls T clock (Suc n) p s = (case pipeline_poll T clock p s of
     None \<Rightarrow> None
   | Some (calls, p, s) \<Rightarrow> map_option (\<lambda>(calls', p, s). (calls @ calls', p, s)) (pipeline_polls T clock n p s))"

lemma mute_submit:
  assumes "mute_link u (l, d)" "PDU_wf request" "length (PDU_serialize request) < 768" "pl_counter p \<noteq> 0"
  shows "\<exists>r p' l'. pipeline_submit (served_link (device_server u rh wh)) clock request cb timeout p (l, d) = (r, p', (l', d))
    \<and> mute_link u (l', d) \<and> pl_counter p' = pl_counter p + 1"
proof -
  obtain l' where send: "t_send (served_link (device_server u rh wh))
      (PDU_serialize (pipeline_wrap (pl_counter p) request)) (l, d) = (void_ok, (l', d))" "mute_link u (l', d)"
    using mute_send [OF assms(1) pipeline_wrap_unanswerable [OF assms(2-4)]] by blast
  obtain ok q where ins: "rq_insert (new_pending clock request cb timeout p (l, d)) (pl_queue p) = (ok, q)"
    by (metis surj_pair)
  obtain r p' s' where sub: "pipeline_submit (served_link (device_server u rh wh)) clock request cb timeout p (l, d) = (r, p', s')"
    by (metis surj_pair)
  from pipeline_submit_cases [OF this send(1) ins] send(2) sub show ?thesis by auto
qed

lemma mute_poll:
  assumes "mute_link u (l, d)"
  shows "\<exists>l'. pipeline_poll (served_link (device_server u rh wh)) clock p (l, d) = Some ([], p, (l', d)) \<and> mute_link u (l', d)"
proof -
  obtain l' where "t_receive (served_link (device_server u rh wh)) 0 (l, d) = (err TimeoutExpired, (l', d))" "mute_link u (l', d)"
    using mute_receive [OF assms] by blast
  then show ?thesis by (simp add: pipeline_poll_def err_def)
qed

lemma mute_submits:
  assumes "mute_link u (l, d)" "0 < unat (pl_counter p)" "unat (pl_counter p) + length reqs < 2 ^ 16"
    and "\<forall>(request, cb) \<in> set reqs. PDU_wf request \<and> length (PDU_serialize request) < 768"
  shows "\<exists>rs p' l'. pipeline_submits (served_link (device_server u rh wh)) clock timeout reqs p (l, d) = (rs, p', (l', d))
    \<and> mute_link u (l', d)"
  using assms
proof (induction reqs arbitrary: p l)
  case (Cons req reqs)
  obtain request cb where req: "req = (request, cb)" by (cases req)
  have cnt: "unat (pl_counter p + 1) = unat (pl_counter p) + 1"
    using Cons.prems(3) by (simp add: unat_word_ariths)
  have wf: "PDU_wf request" "length (PDU_serialize request) < 768"
    using Cons.prems(4) by (simp_all add: req)
  have "pl_counter p \<noteq> 0" using Cons.prems(2) by (simp add: unat_gt_0)
  from mute_submit [OF Cons.prems(1) wf this] obtain r p1 l1 where one:
    "pipeline_submit (served_link (device_server u rh wh)) clock request cb timeout p (l, d) = (r, p1, (l1, d))"
    "mute_link u (l1, d)" "pl_counter p1 = pl_counter p + 1"
    by blast
  have "\<exists>rs p' l'. pipeline_submits (served_link (device_server u rh wh)) clock timeout reqs p1 (l1, d) = (rs, p', (l', d))
    \<and> mute_link u (l', d)"
    by (rule Cons.IH) (use one(2,3) cnt Cons.prems in auto)
  then show ?case using one(1) by (auto simp: req)
qed simp

lemma mute_polls:
  assumes "mute_link u (l, d)"
  shows "\<exists>l'. pipeline_polls (served_link (device_server u rh wh)) clock n p (l, d) = Some ([], p, (l', d)) \<and> mute_link u (l', d)"
  using assms
proof (induction n arbitrary: l)
  case (Suc n)
  obtain l1 where "pipeline_poll (served_link (device_server u rh wh)) clock p (l, d) = Some ([], p, (l1, d))" "mute_link u (l1, d)"
    using mute_poll [OF Suc.prems] by blast
  with Suc.IH [OF this(2)] show ?case by auto
qed simp

end
