(* ===== verification/Pipelined_Peer.thy ===== *)
theory Pipelined_Peer
  imports Pipelined_Link
begin

text \<open>
  A pipeline and a peer that does answer: any number of requests up to the limit in flight, answered in any order over
  a loopback link. The peer is whoever holds the other end: it sends the bytes of extended PDUs that carry the
  correlation identifiers of the requests, as \<open>Pipeline::poll\<close> expects them.
\<close>

definition resp_id :: "PDU \<Rightarrow> CorrelationID" where
  "resp_id resp = (case extended_header resp of Some h \<Rightarrow> correlation_id h | None \<Rightarrow> 0)"

text \<open>The frames that the peer sends, in this order.\<close>

fun peer_sends :: "PDU list \<Rightarrow> loopback \<Rightarrow> loopback" where
  "peer_sends [] l = l"
| "peer_sends (resp # resps) l = peer_sends resps (snd (loopback_send ServerSide (PDU_serialize resp) l))"

lemma peer_sends_queue:
  "lb_healthy l \<Longrightarrow> peer_sends resps l =
     set_tx_queue ServerSide (tx_queue ServerSide l @ map PDU_serialize resps) l"
proof (induction resps arbitrary: l)
  case Nil
  then show ?case by (simp add: set_tx_queue_id del: tx_queue.simps set_tx_queue.simps)
next
  case (Cons resp resps)
  then show ?case by (simp add: lb_healthy_send del: tx_queue.simps set_tx_queue.simps)
qed

section \<open>Submission\<close>

definition ids_from :: "CorrelationID \<Rightarrow> nat \<Rightarrow> CorrelationID list" where
  "ids_from c n = map (\<lambda>i. c + of_nat i) [0..<n]"

lemma ids_from_Suc: "ids_from c (Suc n) = c # ids_from (c + 1) n"
  unfolding ids_from_def by (subst upt_conv_Cons) (simp_all add: map_Suc_upt [symmetric] comp_def add.assoc del: upt_Suc)

lemma unat_ids_from:
  fixes c :: CorrelationID
  shows "unat c + n < 2 ^ 16 \<Longrightarrow> i < n \<Longrightarrow> unat (c + of_nat i) = unat c + i"
  by (simp add: unat_word_ariths unat_of_nat take_bit_nat_eq_self)

lemma set_ids_from:
  assumes "unat c + n < 2 ^ 16"
  shows "set (ids_from c n) = {i. unat c \<le> unat i \<and> unat i < unat c + n}"
proof (intro set_eqI iffI)
  fix x :: CorrelationID assume x: "x \<in> {i. unat c \<le> unat i \<and> unat i < unat c + n}"
  then have "unat x - unat c < n" by auto
  moreover from unat_ids_from [OF assms this] x have "x = c + of_nat (unat x - unat c)"
    by (intro word_unat_eq_iff [THEN iffD2]) simp
  ultimately show "x \<in> set (ids_from c n)" by (auto simp: ids_from_def)
qed (use unat_ids_from [OF assms] in \<open>auto simp: ids_from_def\<close>)

lemma distinct_ids_from: "unat c + n < 2 ^ 16 \<Longrightarrow> distinct (ids_from c n)"
  unfolding ids_from_def distinct_map
  by (auto intro!: inj_onI dest!: arg_cong [where f = unat] simp: unat_ids_from)

text \<open>What a submission that is accepted leaves in the queue.\<close>

lemma length_ids_from [simp]: "length (ids_from c n) = n"
  by (simp add: ids_from_def)

definition waits :: "('s \<Rightarrow> Timestamp) \<Rightarrow> milliseconds \<Rightarrow> 'cb PendingRequest \<Rightarrow> bool" where
  "waits clock timeout r \<longleftrightarrow> pr_timeout r = timeout \<and> (\<exists>s. pr_sent_at r = clock s)"

lemma submit_accepted:
  assumes "lb_healthy l" "timeout \<noteq> 0"
    and "rq_max_size (pl_queue p) = 0 \<or> length (rq_pending (pl_queue p)) < rq_max_size (pl_queue p)"
    and "pl_counter p \<notin> set (map pr_id (rq_pending (pl_queue p)))"
  shows "\<exists>r p'. pipeline_submit (LoopbackTransport ClientSide) clock request cb timeout p l =
      (Ok (pl_counter p), p', set_tx_queue ClientSide
         (tx_queue ClientSide l @ [PDU_serialize (pipeline_wrap (pl_counter p) request)]) l)
    \<and> pl_queue p' = pl_queue p\<lparr>rq_pending := rq_pending (pl_queue p) @ [r]\<rparr>
    \<and> pr_id r = pl_counter p \<and> pr_callback r = cb \<and> waits clock timeout r
    \<and> pl_counter p' = pl_counter p + 1 \<and> pl_total_completed p' = pl_total_completed p"
  using assms
  by (intro exI [of _ "new_pending clock request cb timeout p l"])
    (auto simp: pipeline_submit_def CorrelationID_next_def Let_def lb_healthy_send rq_insert_def new_pending_def waits_def
      simp del: tx_queue.simps set_tx_queue.simps)

lemma submits_accepted:
  assumes "lb_healthy l" "timeout \<noteq> 0" "unat (pl_counter p) + length reqs < 2 ^ 16"
    and "rq_max_size (pl_queue p) = 0 \<or> length (rq_pending (pl_queue p)) + length reqs \<le> rq_max_size (pl_queue p)"
    and "\<forall>r \<in> set (rq_pending (pl_queue p)). unat (pr_id r) < unat (pl_counter p)"
  shows "\<exists>rs p'. pipeline_submits (LoopbackTransport ClientSide) clock timeout reqs p l =
      (map Ok (ids_from (pl_counter p) (length reqs)), p', set_tx_queue ClientSide (tx_queue ClientSide l
         @ map (\<lambda>(cid, request). PDU_serialize (pipeline_wrap cid request)) (zip (ids_from (pl_counter p) (length reqs)) (map fst reqs))) l)
    \<and> rq_pending (pl_queue p') = rq_pending (pl_queue p) @ rs \<and> length rs = length reqs
    \<and> map (\<lambda>r. (pr_id r, pr_callback r)) rs = zip (ids_from (pl_counter p) (length reqs)) (map snd reqs)
    \<and> (\<forall>r \<in> set rs. waits clock timeout r) \<and> pl_total_completed p' = pl_total_completed p"
  using assms
proof (induction reqs arbitrary: p l)
  case Nil
  have "set_tx_queue ClientSide (tx_queue ClientSide l) l = l" by (rule set_tx_queue_id)
  then show ?case by (intro exI [of _ "[]"] exI [of _ p]) (simp add: ids_from_def del: tx_queue.simps set_tx_queue.simps)
next
  case (Cons req reqs)
  obtain request cb where req: "req = (request, cb)" by (cases req)
  define l1 where "l1 = set_tx_queue ClientSide
      (tx_queue ClientSide l @ [PDU_serialize (pipeline_wrap (pl_counter p) request)]) l"
  have room: "rq_max_size (pl_queue p) = 0 \<or> length (rq_pending (pl_queue p)) < rq_max_size (pl_queue p)"
    using Cons.prems(4) by auto
  have new: "pl_counter p \<notin> set (map pr_id (rq_pending (pl_queue p)))" using Cons.prems(5) by auto
  obtain r p1 where one: "pipeline_submit (LoopbackTransport ClientSide) clock request cb timeout p l = (Ok (pl_counter p), p1, l1)"
    "pl_queue p1 = pl_queue p\<lparr>rq_pending := rq_pending (pl_queue p) @ [r]\<rparr>" "pr_id r = pl_counter p" "pr_callback r = cb"
    "waits clock timeout r" "pl_counter p1 = pl_counter p + 1" "pl_total_completed p1 = pl_total_completed p"
    unfolding l1_def using submit_accepted [OF Cons.prems(1,2) room new, of clock request cb] by blast
  have cnt: "unat (pl_counter p1) = unat (pl_counter p) + 1"
    using Cons.prems(3) one(6) by (simp add: unat_word_ariths)
  have "lb_healthy l1" using Cons.prems(1) by (simp add: l1_def del: tx_queue.simps set_tx_queue.simps)
  moreover have "unat (pl_counter p1) + length reqs < 2 ^ 16" using Cons.prems(3) cnt by simp
  moreover have "rq_max_size (pl_queue p1) = 0 \<or> length (rq_pending (pl_queue p1)) + length reqs \<le> rq_max_size (pl_queue p1)"
    using Cons.prems(4) one(2) by simp
  moreover have "\<forall>r \<in> set (rq_pending (pl_queue p1)). unat (pr_id r) < unat (pl_counter p1)"
    using Cons.prems(5) one(2,3) cnt by auto
  ultimately obtain rs p' where
    rest: "pipeline_submits (LoopbackTransport ClientSide) clock timeout reqs p1 l1 =
      (map Ok (ids_from (pl_counter p1) (length reqs)), p', set_tx_queue ClientSide (tx_queue ClientSide l1
         @ map (\<lambda>(cid, request). PDU_serialize (pipeline_wrap cid request)) (zip (ids_from (pl_counter p1) (length reqs)) (map fst reqs))) l1)"
    "rq_pending (pl_queue p') = rq_pending (pl_queue p1) @ rs" "length rs = length reqs"
    "map (\<lambda>r. (pr_id r, pr_callback r)) rs = zip (ids_from (pl_counter p1) (length reqs)) (map snd reqs)"
    "\<forall>r \<in> set rs. waits clock timeout r" "pl_total_completed p' = pl_total_completed p1"
    using Cons.IH [of l1 p1] Cons.prems(2) by blast
  have "pipeline_submits (LoopbackTransport ClientSide) clock timeout (req # reqs) p l =
      (map Ok (ids_from (pl_counter p) (length (req # reqs))), p', set_tx_queue ClientSide (tx_queue ClientSide l
         @ map (\<lambda>(cid, request). PDU_serialize (pipeline_wrap cid request))
             (zip (ids_from (pl_counter p) (length (req # reqs))) (map fst (req # reqs)))) l)"
    using rest(1) one(1,6) by (simp add: req ids_from_Suc l1_def del: tx_queue.simps set_tx_queue.simps)
  moreover have "map (\<lambda>r. (pr_id r, pr_callback r)) (r # rs) = zip (ids_from (pl_counter p) (length (req # reqs))) (map snd (req # reqs))"
    using rest(4) one(3,4,6) by (simp add: req ids_from_Suc)
  ultimately show ?case using one rest by (intro exI [of _ "r # rs"] exI [of _ p']) simp
qed

section \<open>Responses in any order\<close>

lemma map_of_filter_key:
  "k \<noteq> c \<Longrightarrow> map_of (map (\<lambda>r. (f r, g r)) (filter (\<lambda>r. f r \<noteq> c) xs)) k = map_of (map (\<lambda>r. (f r, g r)) xs) k"
  by (induction xs) auto

text \<open>The callback of the request that is pending under an identifier.\<close>

definition pending_callback :: "'cb pipeline \<Rightarrow> CorrelationID \<Rightarrow> 'cb option" where
  "pending_callback p cid = the (map_of (map (\<lambda>r. (pr_id r, pr_callback r)) (rq_pending (pl_queue p))) cid)"

lemma poll_pending:
  assumes "lb_healthy l" "tx_queue ServerSide l = PDU_serialize resp # fs" "PDU_wf resp" "extended_header resp \<noteq> None"
    and "resp_id resp \<in> pr_id ` set (rq_pending (pl_queue p))" "distinct (map pr_id (rq_pending (pl_queue p)))"
    and "\<forall>r \<in> set (rq_pending (pl_queue p)). \<forall>s. \<not> request_expired (clock s) r"
  shows "\<exists>p1. pipeline_poll (LoopbackTransport ClientSide) clock p l =
      Some (run_callback (pending_callback p (resp_id resp)) (Ok resp), p1, set_tx_queue ServerSide fs l)
    \<and> rq_pending (pl_queue p1) = filter (\<lambda>r. pr_id r \<noteq> resp_id resp) (rq_pending (pl_queue p))
    \<and> pl_total_completed p1 = pl_total_completed p + 1"
proof -
  obtain h where h: "extended_header resp = Some h" using assms(4) by blast
  have id: "resp_id resp = correlation_id h" by (simp add: resp_id_def h)
  define l1 where "l1 = set_tx_queue ServerSide fs l"
  let ?pend = "rq_pending (pl_queue p)"
  obtain r where r: "r \<in> set ?pend" "pr_id r = correlation_id h" using assms(5) id by auto
  have "find (\<lambda>r. pr_id r = correlation_id h) ?pend \<noteq> None" using r by (auto simp: find_None_iff)
  then obtain r' where find: "find (\<lambda>r. pr_id r = correlation_id h) ?pend = Some r'" by blast
  then have "r' \<in> set ?pend" "pr_id r' = correlation_id h" by (auto simp: find_Some_iff)
  with r assms(6) have "r' = r" by (metis (mono_tags) distinct_map inj_onD)
  note find = find [unfolded this]
  have cb: "pending_callback p (resp_id resp) = pr_callback r"
    using imageI [OF r(1), of "\<lambda>r. (pr_id r, pr_callback r)"] r(2) assms(6) unfolding pending_callback_def id
    by (subst map_of_is_SomeI) (simp_all add: comp_def)
  have rcv: "t_receive (LoopbackTransport ClientSide) 0 l = (Ok (PDU_serialize resp), l1)"
    using assms(1,2) by (simp add: lb_healthy_receive l1_def del: tx_queue.simps set_tx_queue.simps)
  have none: "filter (\<lambda>e. pr_id e \<noteq> pr_id r \<and> request_expired (clock l1) e) ?pend = []"
    "filter (\<lambda>e. pr_id e \<noteq> pr_id r \<and> \<not> request_expired (clock l1) e) ?pend = filter (\<lambda>e. pr_id e \<noteq> correlation_id h) ?pend"
    using assms(7) r(2) by (auto simp: filter_empty_conv intro: filter_cong)
  show ?thesis
    by (simp only: pipeline_poll_matching [OF assms(3) h rcv] find option.case none list.map concat.simps append_Nil2 cb
        l1_def [symmetric]) (simp add: id)
qed

lemma polls_in_any_order:
  assumes "lb_healthy l" "tx_queue ServerSide l = map PDU_serialize resps"
    and "\<forall>resp \<in> set resps. PDU_wf resp \<and> extended_header resp \<noteq> None"
    and "distinct (map resp_id resps)" "resp_id ` set resps \<subseteq> pr_id ` set (rq_pending (pl_queue p))"
    and "distinct (map pr_id (rq_pending (pl_queue p)))"
    and "\<forall>r \<in> set (rq_pending (pl_queue p)). \<forall>s. \<not> request_expired (clock s) r"
  shows "\<exists>p'. pipeline_polls (LoopbackTransport ClientSide) clock (length resps) p l =
      Some (concat (map (\<lambda>resp. run_callback (pending_callback p (resp_id resp)) (Ok resp)) resps), p', set_tx_queue ServerSide [] l)
    \<and> rq_pending (pl_queue p') = filter (\<lambda>r. pr_id r \<notin> resp_id ` set resps) (rq_pending (pl_queue p))
    \<and> pl_total_completed p' = pl_total_completed p + of_nat (length resps)"
  using assms
proof (induction resps arbitrary: p l)
  case Nil
  have "set_tx_queue ServerSide [] l = l" using Nil.prems(2) set_tx_queue_id [of ServerSide l] by (simp del: tx_queue.simps set_tx_queue.simps)
  then show ?case by (intro exI [of _ p]) (simp del: tx_queue.simps set_tx_queue.simps)
next
  case (Cons resp resps)
  define l1 where "l1 = set_tx_queue ServerSide (map PDU_serialize resps) l"
  obtain p1 where poll: "pipeline_poll (LoopbackTransport ClientSide) clock p l =
      Some (run_callback (pending_callback p (resp_id resp)) (Ok resp), p1, l1)"
    and pend1: "rq_pending (pl_queue p1) = filter (\<lambda>r. pr_id r \<noteq> resp_id resp) (rq_pending (pl_queue p))"
    and total1: "pl_total_completed p1 = pl_total_completed p + 1"
    using poll_pending [OF Cons.prems(1), of resp "map PDU_serialize resps" p clock] Cons.prems(2-7) unfolding l1_def by auto
  have other: "resp_id x \<noteq> resp_id resp" if "x \<in> set resps" for x
    using that Cons.prems(4) by (auto simp: image_iff)
  have "\<exists>p'. pipeline_polls (LoopbackTransport ClientSide) clock (length resps) p1 l1 =
      Some (concat (map (\<lambda>resp. run_callback (pending_callback p1 (resp_id resp)) (Ok resp)) resps), p', set_tx_queue ServerSide [] l1)
    \<and> rq_pending (pl_queue p') = filter (\<lambda>r. pr_id r \<notin> resp_id ` set resps) (rq_pending (pl_queue p1))
    \<and> pl_total_completed p' = pl_total_completed p1 + of_nat (length resps)"
  proof (rule Cons.IH)
    show "resp_id ` set resps \<subseteq> pr_id ` set (rq_pending (pl_queue p1))"
      using Cons.prems(5) other by (force simp: pend1)
    show "distinct (map pr_id (rq_pending (pl_queue p1)))" using Cons.prems(6) by (simp add: pend1 distinct_map_filter)
  qed (use Cons.prems in \<open>simp_all add: pend1 l1_def del: tx_queue.simps set_tx_queue.simps\<close>)
  moreover have "pending_callback p1 (resp_id x) = pending_callback p (resp_id x)" if "x \<in> set resps" for x
    unfolding pending_callback_def pend1 using map_of_filter_key [OF other [OF that]] by metis
  ultimately obtain p' where rest: "pipeline_polls (LoopbackTransport ClientSide) clock (length resps) p1 l1 =
      Some (concat (map (\<lambda>resp. run_callback (pending_callback p (resp_id resp)) (Ok resp)) resps), p', set_tx_queue ServerSide [] l1)"
    "rq_pending (pl_queue p') = filter (\<lambda>r. pr_id r \<notin> resp_id ` set resps) (rq_pending (pl_queue p1))"
    "pl_total_completed p' = pl_total_completed p1 + of_nat (length resps)"
    by (auto cong: map_cong)
  then show ?case
    using poll total1
    by (intro exI [of _ p']) (auto simp: pend1 l1_def conj_commute intro!: filter_cong simp del: tx_queue.simps set_tx_queue.simps)
qed

lemma length_filter_keys:
  assumes "distinct (map f xs)" "K \<subseteq> f ` set xs"
  shows "length (filter (\<lambda>x. f x \<notin> K) xs) = length xs - card K"
proof -
  have "f ` set (filter (\<lambda>x. f x \<in> K) xs) = K" using assms(2) by auto
  moreover have "distinct (map f (filter (\<lambda>x. f x \<in> K) xs))" using assms(1) by (rule distinct_map_filter)
  ultimately have "length (filter (\<lambda>x. f x \<in> K) xs) = card K"
    by (metis distinct_card length_map set_map)
  then show ?thesis using sum_length_filter_compl [of "\<lambda>x. f x \<in> K" xs] by simp
qed

lemma map_of_ids:
  assumes "unat (1 :: CorrelationID) + n < 2 ^ 16" "length xs = n" "1 \<le> unat cid" "unat cid \<le> n"
  shows "map_of (zip (ids_from 1 n) xs) cid = Some (xs ! (unat cid - 1))"
proof -
  let ?i = "unat cid - 1"
  have i: "?i < n" using assms(3,4) by simp
  from unat_ids_from [OF assms(1) this] assms(3) have "cid = ids_from 1 n ! ?i"
    using i by (intro word_unat_eq_iff [THEN iffD2]) (simp add: ids_from_def)
  moreover have "length (ids_from 1 n) = n" by (simp add: ids_from_def)
  ultimately show ?thesis
    using map_of_zip_nth [of "ids_from 1 n" xs ?i] distinct_ids_from [OF assms(1)] i assms(2) by simp
qed

lemma waits_not_expired:
  assumes "waits clock timeout r" "\<forall>s s'. epoch_microseconds (clock s') - epoch_microseconds (clock s) \<le> timeout * 1000"
  shows "\<not> request_expired (clock s) r"
  using assms by (auto simp: waits_def request_expired_def not_less)

text \<open>What a fresh pipeline holds after its submissions.\<close>

lemma fresh_submits:
  assumes "lb_healthy l" "timeout \<noteq> 0" "unat (1 :: CorrelationID) + length reqs < 2 ^ 16"
    and "pc_max_in_flight config = 0 \<or> length reqs \<le> unat (pc_max_in_flight config)"
  shows "\<exists>p. pipeline_submits (LoopbackTransport ClientSide) clock timeout reqs (Pipeline config) l =
      (map Ok (ids_from 1 (length reqs)), p, set_tx_queue ClientSide (tx_queue ClientSide l
         @ map (\<lambda>(cid, request). PDU_serialize (pipeline_wrap cid request)) (zip (ids_from 1 (length reqs)) (map fst reqs))) l)
    \<and> map pr_id (rq_pending (pl_queue p)) = ids_from 1 (length reqs)
    \<and> (\<forall>cid. 1 \<le> unat cid \<and> unat cid \<le> length reqs \<longrightarrow> pending_callback p cid = snd (reqs ! (unat cid - 1)))
    \<and> (\<forall>r \<in> set (rq_pending (pl_queue p)). waits clock timeout r) \<and> pl_total_completed p = 0"
proof -
  have fresh: "rq_pending (pl_queue (Pipeline config)) = []" "rq_max_size (pl_queue (Pipeline config)) = unat (pc_max_in_flight config)"
    "pl_total_completed (Pipeline config) = 0" "pl_counter (Pipeline config) = 1"
    by (simp_all add: Pipeline_def set_max_size_def RequestQueue_default_def)
  obtain rs p where sub: "pipeline_submits (LoopbackTransport ClientSide) clock timeout reqs (Pipeline config) l =
      (map Ok (ids_from 1 (length reqs)), p, set_tx_queue ClientSide (tx_queue ClientSide l
         @ map (\<lambda>(cid, request). PDU_serialize (pipeline_wrap cid request)) (zip (ids_from 1 (length reqs)) (map fst reqs))) l)"
    and pend: "rq_pending (pl_queue p) = rs" "map (\<lambda>r. (pr_id r, pr_callback r)) rs = zip (ids_from 1 (length reqs)) (map snd reqs)"
    "\<forall>r \<in> set rs. waits clock timeout r" "pl_total_completed p = 0"
    using submits_accepted [of l timeout "Pipeline config" reqs clock] assms by (auto simp: fresh)
  have "map pr_id rs = map fst (map (\<lambda>r. (pr_id r, pr_callback r)) rs)" by (simp add: comp_def)
  then have "map pr_id rs = ids_from 1 (length reqs)" unfolding pend(2) by (simp add: ids_from_def)
  moreover have "pending_callback p cid = snd (reqs ! (unat cid - 1))" if "1 \<le> unat cid" "unat cid \<le> length reqs" for cid
    unfolding pending_callback_def pend(1,2)
    using map_of_ids [OF assms(3) length_map [of snd reqs] that] that by simp
  ultimately show ?thesis using sub pend by blast
qed

text \<open>The answers that then come in.\<close>

lemma answers_dispatched:
  assumes "lb_healthy l" "tx_queue ServerSide l = []"
    and "\<forall>resp \<in> set resps. PDU_wf resp \<and> extended_header resp \<noteq> None" "distinct (map resp_id resps)"
    and "resp_id ` set resps \<subseteq> pr_id ` set (rq_pending (pl_queue p))" "distinct (map pr_id (rq_pending (pl_queue p)))"
    and "\<forall>r \<in> set (rq_pending (pl_queue p)). \<forall>s. \<not> request_expired (clock s) r" "pl_total_completed p = 0"
  shows "\<exists>p'. pipeline_polls (LoopbackTransport ClientSide) clock (length resps) p (peer_sends resps l) =
      Some (concat (map (\<lambda>resp. run_callback (pending_callback p (resp_id resp)) (Ok resp)) resps), p', l)
    \<and> in_flight_count p' = length (rq_pending (pl_queue p)) - length resps \<and> completed_count p' = of_nat (length resps)"
proof -
  define l2 where "l2 = peer_sends resps l"
  have l2: "lb_healthy l2" "tx_queue ServerSide l2 = map PDU_serialize resps" "set_tx_queue ServerSide [] l2 = l"
    unfolding l2_def peer_sends_queue [OF assms(1)] using assms(1,2) set_tx_queue_id [of ServerSide l]
    by (simp_all del: tx_queue.simps set_tx_queue.simps)
  from polls_in_any_order [OF l2(1,2) assms(3-7)] obtain p' where
    polls: "pipeline_polls (LoopbackTransport ClientSide) clock (length resps) p l2 =
      Some (concat (map (\<lambda>resp. run_callback (pending_callback p (resp_id resp)) (Ok resp)) resps), p', l)"
    "rq_pending (pl_queue p') = filter (\<lambda>r. pr_id r \<notin> resp_id ` set resps) (rq_pending (pl_queue p))"
    "pl_total_completed p' = of_nat (length resps)"
    unfolding l2(3) assms(8) by auto
  have "in_flight_count p' = length (rq_pending (pl_queue p)) - length resps"
    using length_filter_keys [OF assms(6,5)] polls(2) distinct_card [OF assms(4)]
    by (simp add: in_flight_count_def rq_size_def)
  then show ?thesis using polls(1,3) unfolding l2_def completed_count_def by blast
qed

section \<open>Property\<close>

text \<open>
  Property C4. Pipelining works with a peer that answers: a fresh pipeline may submit as many requests as its limit
  allows before any answer; they go out in order under the identifiers 1, 2, and so on. If the peer
  then answers any of them, in any order, one poll per answer calls the callback of each answered request once
  and on its own answer, in the order of the answers; the others stay in flight, as long as no more time than the timeout passes.
\<close>

theorem pipeline_out_of_order:
  assumes "lb_healthy l" and "tx_queue ServerSide l = []" and "0 < timeout" and "length reqs < 65535"
    and "pc_max_in_flight config = 0 \<or> length reqs \<le> unat (pc_max_in_flight config)"
    and "\<forall>s s'. epoch_microseconds (clock s') - epoch_microseconds (clock s) \<le> timeout * 1000"
    and "\<forall>resp \<in> set resps. PDU_wf resp \<and> extended_header resp \<noteq> None
      \<and> 1 \<le> unat (resp_id resp) \<and> unat (resp_id resp) \<le> length reqs"
    and "distinct (map resp_id resps)"
  shows "\<exists>p l' p'.
      pipeline_submits (LoopbackTransport ClientSide) clock timeout reqs (Pipeline config) l
        = (map Ok (ids_from 1 (length reqs)), p, l')
    \<and> tx_queue ClientSide l' = tx_queue ClientSide l
        @ map (\<lambda>(cid, request). PDU_serialize (pipeline_wrap cid request)) (zip (ids_from 1 (length reqs)) (map fst reqs))
    \<and> pipeline_polls (LoopbackTransport ClientSide) clock (length resps) p (peer_sends resps l')
        = Some (concat (map (\<lambda>resp. run_callback (snd (reqs ! (unat (resp_id resp) - 1))) (Ok resp)) resps), p', l')
    \<and> in_flight_count p' = length reqs - length resps \<and> completed_count p' = of_nat (length resps)"
proof -
  let ?ids = "ids_from 1 (length reqs)"
  have room: "unat (1 :: CorrelationID) + length reqs < 2 ^ 16" using assms(4) by simp
  define l' where "l' = set_tx_queue ClientSide (tx_queue ClientSide l
      @ map (\<lambda>(cid, request). PDU_serialize (pipeline_wrap cid request)) (zip ?ids (map fst reqs))) l"
  have "timeout \<noteq> 0" using assms(3) by simp
  from fresh_submits [OF assms(1) this room assms(5), of clock] obtain p where
    sub: "pipeline_submits (LoopbackTransport ClientSide) clock timeout reqs (Pipeline config) l = (map Ok ?ids, p, l')"
    and ids: "map pr_id (rq_pending (pl_queue p)) = ?ids"
    and cb: "\<forall>cid. 1 \<le> unat cid \<and> unat cid \<le> length reqs \<longrightarrow> pending_callback p cid = snd (reqs ! (unat cid - 1))"
    and waiting: "\<forall>r \<in> set (rq_pending (pl_queue p)). waits clock timeout r" and zero: "pl_total_completed p = 0"
    unfolding l'_def by blast
  have pend: "distinct (map pr_id (rq_pending (pl_queue p)))" "pr_id ` set (rq_pending (pl_queue p)) = set ?ids"
    "length (rq_pending (pl_queue p)) = length reqs"
    using distinct_ids_from [OF room] unfolding ids by simp (metis ids set_map, metis ids length_map length_ids_from)
  have known: "resp_id ` set resps \<subseteq> pr_id ` set (rq_pending (pl_queue p))"
    using assms(7) set_ids_from [OF room] by (auto simp: pend(2))
  have kept: "\<forall>r \<in> set (rq_pending (pl_queue p)). \<forall>s. \<not> request_expired (clock s) r"
    using waiting waits_not_expired [OF _ assms(6)] by blast
  have healthy: "lb_healthy l'" "tx_queue ServerSide l' = []"
    "tx_queue ClientSide l' = tx_queue ClientSide l
        @ map (\<lambda>(cid, request). PDU_serialize (pipeline_wrap cid request)) (zip ?ids (map fst reqs))"
    using assms(1,2) by (simp_all add: l'_def del: tx_queue.simps set_tx_queue.simps)
  have wf: "\<forall>resp \<in> set resps. PDU_wf resp \<and> extended_header resp \<noteq> None" using assms(7) by blast
  have calls: "map (\<lambda>resp. run_callback (pending_callback p (resp_id resp)) (Ok resp)) resps
      = map (\<lambda>resp. run_callback (snd (reqs ! (unat (resp_id resp) - 1))) (Ok resp)) resps"
    using assms(7) cb by (intro map_cong) simp_all
  from answers_dispatched [OF healthy(1,2) wf assms(8) known pend(1) kept zero] obtain p' where
    "pipeline_polls (LoopbackTransport ClientSide) clock (length resps) p (peer_sends resps l')
      = Some (concat (map (\<lambda>resp. run_callback (snd (reqs ! (unat (resp_id resp) - 1))) (Ok resp)) resps), p', l')"
    "in_flight_count p' = length reqs - length resps" "completed_count p' = of_nat (length resps)"
    unfolding calls pend(3) by blast
  then show ?thesis using sub healthy(3) by blast
qed

definition three_requests :: "(PDU \<times> string option) list" where
  "three_requests = [(make_standard 3 [0, 0, 0, 1], Some ''a''), (make_standard 3 [0, 4, 0, 2], Some ''b''),
     (make_standard 3 [0, 8, 0, 1], Some ''c'')]"

theorem pipeline_out_of_order_witness:
  "\<exists>p l' p'. pipeline_submits (LoopbackTransport ClientSide) (\<lambda>_. Timestamp 5) 100 three_requests
      (Pipeline PipelineConfig_default) (connected_pair (\<lambda>_. Fin 0) (\<lambda>_. Fin 0)) = ([Ok 1, Ok 2, Ok 3], p, l')
    \<and> pipeline_polls (LoopbackTransport ClientSide) (\<lambda>_. Timestamp 5) 2 p (peer_sends [example_response 3, example_response 1] l')
      = Some ([(''c'', Ok (example_response 3)), (''a'', Ok (example_response 1))], p', l')
    \<and> in_flight_count p' = 1"
proof -
  let ?resps = "[example_response 3, example_response 1]"
  have len: "length three_requests = 3" "length ?resps = 2" by (simp_all add: three_requests_def)
  have ids: "ids_from 1 3 = [1, 2, 3]" by (simp add: ids_from_def upt_rec)
  have resps: "\<forall>resp \<in> set ?resps. PDU_wf resp \<and> extended_header resp \<noteq> None
      \<and> 1 \<le> unat (resp_id resp) \<and> unat (resp_id resp) \<le> length three_requests" "distinct (map resp_id ?resps)"
    by (simp_all add: len resp_id_def)
  have calls: "concat (map (\<lambda>resp. run_callback (snd (three_requests ! (unat (resp_id resp) - 1))) (Ok resp)) ?resps)
      = [(''c'', Ok (example_response 3)), (''a'', Ok (example_response 1))]"
    by (simp add: resp_id_def three_requests_def run_callback_def)
  have small: "(0 :: milliseconds) < 100" "length three_requests < 65535" "(3 :: nat) - 2 = 1" by (simp_all add: len)
  have config: "pc_max_in_flight PipelineConfig_default = 0 \<or> length three_requests \<le> unat (pc_max_in_flight PipelineConfig_default)"
    by (simp add: len PipelineConfig_default_def)
  have "\<forall>s s' :: loopback. epoch_microseconds (Timestamp 5) - epoch_microseconds (Timestamp 5) \<le> 100 * 1000" by simp
  from pipeline_out_of_order [where clock = "\<lambda>_. Timestamp 5", OF connected_pair_healthy connected_pair_empty small(1,2) config this resps,
      of "\<lambda>_. Fin 0" "\<lambda>_. Fin 0"]
  show ?thesis by (simp only: len ids calls small(3)) (simp only: list.map, blast)
qed

end
