(* ===== verification/Extended_Operations.thy ===== *)
theory Extended_Operations
  imports Client
begin

text \<open>
  The extended operations of \<open>client/client.cpp\<close> with a peer that knows the protocol. No code of the repository
  answers them, so the peer is a specification: the server's side of the handshake as the comment at the head of
  \<open>security/session.hpp\<close> gives it, and a server that answers a batch. Over any link that answers
  (\<open>answering_link\<close>) the operations of the client do their work with such a peer.
\<close>

section \<open>A link to a peer that answers at once\<close>

text \<open>The world: the state of the peer, and the frame it has sent and the client has not yet received.\<close>

type_synonym 'p peer_world = "'p \<times> frame option"

definition peer_link :: "unit_id \<Rightarrow> u16 \<Rightarrow> (frame \<Rightarrow> 'p \<Rightarrow> (PDU \<times> 'p) option) \<Rightarrow> 'p peer_world transport" where
  "peer_link u txn answer = \<lparr>
     t_send = (\<lambda>f (st, out). case answer f st of
         None \<Rightarrow> (void_ok, (st, None))
       | Some (resp, st) \<Rightarrow> (void_ok, (st, Some (wrap_tcp u resp txn)))),
     t_receive = (\<lambda>timeout (st, out). case out of
         None \<Rightarrow> (err TimeoutExpired, (st, None)) | Some f \<Rightarrow> (Ok f, (st, None))),
     t_connect = (\<lambda>w. (void_ok, w)), t_disconnect = (\<lambda>w. w), t_is_connected = (\<lambda>w. True),
     t_transport_name = ''peer''\<rparr>"

definition carried_answer :: "(frame \<Rightarrow> 'p \<Rightarrow> (PDU \<times> 'p) option) \<Rightarrow> frame \<Rightarrow> 'p peer_world \<Rightarrow> (PDU \<times> 'p peer_world) option" where
  "carried_answer answer f w = (case answer f (fst w) of
     Some (resp, st) \<Rightarrow>
       if PDU_wf resp \<and> 1 + length (PDU_serialize resp) < 2 ^ 16 then Some (resp, (st, None)) else None
   | None \<Rightarrow> None)"

interpretation peer: answering_link "peer_link u txn answer" "\<lambda>w. snd w = None" "carried_answer answer"
  for u txn answer
proof
  fix s f resp s' assume "carried_answer answer f s = Some (resp, s')"
  then obtain st st' out where "s = (st, out)" "s' = (st', None)" "answer f st = Some (resp, st')"
    "PDU_wf resp" "1 + length (PDU_serialize resp) < 2 ^ 16"
    by (cases s) (auto simp: carried_answer_def split: option.splits if_splits)
  then show "\<exists>s1 u' txn'. t_send (peer_link u txn answer) f s = (void_ok, s1)
      \<and> (\<forall>timeout. t_receive (peer_link u txn answer) timeout s1 = (Ok (wrap_tcp u' resp txn'), s'))"
    and "PDU_wf resp \<and> 1 + length (PDU_serialize resp) < 2 ^ 16" and "snd s' = None"
    by (auto simp: peer_link_def)
qed

section \<open>The server's side of the handshake\<close>

text \<open>
  Steps 2 and 4 are those of the comment. It does not say how a refusal of step 3 looks: here it is an exception response
  with the code of \<open>AuthenticationFailed\<close>, which matters only when one of the two digests agrees and the other does not.
\<close>

datatype handshake = AwaitChallenge | AwaitResponse Nonce | Established "byte list"

text \<open>The payload of an extended frame with the given function code.\<close>

definition extended_message :: "ExtendedFunctionCode \<Rightarrow> frame \<Rightarrow> byte list option" where
  "extended_message fc f = (case unwrap_tcp (span_of f) of
     Some (Ok (u, pdu, txn)) \<Rightarrow>
       (case extended_header pdu of
          Some hdr \<Rightarrow> if ext_function_code hdr = ExtendedFunctionCode_value fc then Some (payload pdu) else None
        | None \<Rightarrow> None)
   | _ \<Rightarrow> None)"

fun authenticator :: "hmac_function \<Rightarrow> byte list \<Rightarrow> Nonce \<Rightarrow> SessionToken \<Rightarrow> Timestamp \<Rightarrow> frame \<Rightarrow> handshake
    \<Rightarrow> (PDU \<times> handshake) option" where
  "authenticator mac secret server_nonce token expiry f AwaitChallenge =
     map_option (\<lambda>client_nonce.
         (auth_pdu AuthChallenge (server_nonce @ compute_auth_challenge_response mac client_nonce server_nonce secret),
          AwaitResponse client_nonce))
       (extended_message AuthChallenge f)"
| "authenticator mac secret server_nonce token expiry f (AwaitResponse client_nonce) =
     (case extended_message AuthResponse f of
        Some response \<Rightarrow>
          if response = compute_auth_response mac client_nonce server_nonce secret
          then Some (auth_pdu AuthResponse (token @ Timestamp_serialize expiry),
                     Established (derive_session_key mac client_nonce server_nonce secret))
          else Some (make_standard (FunctionCode_value Extended OR 0x80) [0x80], AwaitChallenge)
      | None \<Rightarrow> None)"
| "authenticator mac secret server_nonce token expiry f (Established key) = None"

lemma extended_message_wrap:
  assumes "version hdr = 1" "flags hdr = 0" "length pl < 65400" "ext_function_code hdr = ExtendedFunctionCode_value fc"
  shows "extended_message fc (wrap_tcp u (make_extended hdr pl None) txn) = Some pl"
  using tcp_roundtrip [OF make_extended_carried [OF assms(1-3)], of None u txn "[]"] assms(4)
  by (simp add: extended_message_def make_extended_header)

lemma extended_message_auth_pdu:
  assumes "length pl < 65000"
  shows "extended_message fc (wrap_tcp u (auth_pdu fc pl) txn) = Some pl"
  unfolding auth_pdu_def by (rule extended_message_wrap) (use assms in \<open>simp_all add: FrameHeader_default_def\<close>)

section \<open>The client against any answering link\<close>

context answering_link
begin

lemma challenge_answered:
  assumes "cc_transport (cl_config cl) = T" "ready s" "cc_credentials (cl_config cl) = Some lookup" "lookup u = Ok secret"
    and "length cn = 16" "length sn = 16" "length h = 32"
    and "answer (wrap_tcp u (auth_pdu AuthChallenge cn) (cl_next_transaction_id cl)) s
      = Some (auth_pdu fc (sn @ h @ extra), s1)"
  shows "authenticate mac cn u cl s =
    (if mac secret (cn @ sn) = h then auth_finish mac cn sn secret u (advance_txn 1 cl) s1
     else Some (err HMACMismatch, advance_txn 1 cl, s1))"
  using transact_answered [OF assms(1,2,8)] assms(3-7)
  by (simp add: authenticate_def advance_txn_def Let_def compute_auth_challenge_response_def HMACAuth_compute_def
      concat_nonces_eq)

lemma response_answered:
  assumes "cc_transport (cl_config cl) = T" "ready s" "length cn = 16" "length sn = 16" "length token = 16"
    and "answer (wrap_tcp u (auth_pdu AuthResponse (mac secret (sn @ cn))) (cl_next_transaction_id cl)) s
      = Some (auth_pdu fc (token @ Timestamp_serialize expiry @ extra), s1)"
  shows "auth_finish mac cn sn secret u cl s =
    Some (Ok (Session_create token (mac secret (cn @ sn)) expiry),
          (advance_txn 1 cl)\<lparr>cl_session := Some (Session_create token (mac secret (cn @ sn)) expiry)\<rparr>, s1)"
  using transact_answered [OF assms(1,2,6)] assms(3-5)
  by (simp add: auth_finish_def advance_txn_def Let_def compute_auth_response_def derive_session_key_def HMACAuth_compute_def
      concat_nonces_eq Timestamp_roundtrip)

lemma batch_answered:
  assumes "cc_transport (cl_config cl) = T" "ready s" "response_carried resp" "payload reply = BatchResponse_serialize resp"
    and "function_code reply AND 0x80 = 0"
    and "\<And>ts. answer (wrap_tcp u (make_extended (FrameHeader_default\<lparr>ext_function_code := ExtendedFunctionCode_value BatchRead,
          timestamp := ts\<rparr>) (BatchRequest_serialize request) None) (cl_next_transaction_id cl)) s = Some (reply, s1)"
  shows "batch_read clock u request cl s = Some (Ok resp, advance_txn 1 cl, s1)"
proof -
  define hdr where "hdr = FrameHeader_default\<lparr>ext_function_code := ExtendedFunctionCode_value BatchRead\<rparr>"
  define hdr' where "hdr' = (if cc_enable_timestamps (cl_config cl) then hdr\<lparr>timestamp := Some (clock s)\<rparr> else hdr)"
  have "hdr' = FrameHeader_default\<lparr>ext_function_code := ExtendedFunctionCode_value BatchRead, timestamp := timestamp hdr'\<rparr>"
    by (simp add: hdr'_def hdr_def FrameHeader_default_def)
  then have "answer (wrap_tcp u (make_extended hdr' (BatchRequest_serialize request) None) (cl_next_transaction_id cl)) s
      = Some (reply, s1)"
    using assms(6) by metis
  from transact_answered [OF assms(1,2) this] assms(5)
  have "transact u (make_extended hdr' (BatchRequest_serialize request) None) cl s = Some (Ok reply, advance_txn 1 cl, s1)"
    by (simp add: check_exception_def advance_txn_def)
  then show ?thesis
    using batch_response_roundtrip [OF assms(3), of "[]"]
    unfolding batch_read_def batch_request_pdu_def Let_def hdr_def [symmetric] hdr'_def [symmetric] by (simp add: assms(4))
qed

end

section \<open>The whole handshake\<close>

lemma check_exception_refused:
  "check_exception (make_standard 238 [0x80]) = Err (mk_error AuthenticationFailed)"
  by (simp add: check_exception_def mk_error_def)

lemma finish_answered:
  assumes "cc_transport (cl_config cl) = peer_link pu txn (authenticator mac peer_secret sn token expiry)"
    and "length cn = 16" "length sn = 16" "length token = 16" "\<And>k d. length (mac k d) = 32"
  shows "auth_finish mac cn sn secret u cl (AwaitResponse cn, None) =
    (if mac secret (sn @ cn) = mac peer_secret (sn @ cn)
     then Some (Ok (Session_create token (mac secret (cn @ sn)) expiry),
            (advance_txn 1 cl)\<lparr>cl_session := Some (Session_create token (mac secret (cn @ sn)) expiry)\<rparr>,
            (Established (mac peer_secret (cn @ sn)), None))
     else Some (err AuthenticationFailed, advance_txn 1 cl, (AwaitChallenge, None)))"
proof -
  let ?answer = "authenticator mac peer_secret sn token expiry" and ?t = "cl_next_transaction_id cl"
  let ?f = "wrap_tcp u (auth_pdu AuthResponse (mac secret (sn @ cn))) ?t"
  have msg: "extended_message AuthResponse ?f = Some (mac secret (sn @ cn))"
    by (rule extended_message_auth_pdu) (simp add: assms(5))
  show ?thesis
  proof (cases "mac secret (sn @ cn) = mac peer_secret (sn @ cn)")
    case True
    have "length (token @ Timestamp_serialize expiry) < 65000" by (simp add: assms(4))
    from auth_pdu_carried [OF this, of AuthResponse]
    have "carried_answer ?answer ?f (AwaitResponse cn, None)
      = Some (auth_pdu AuthResponse (token @ Timestamp_serialize expiry @ []), (Established (mac peer_secret (cn @ sn)), None))"
      using True assms(2,3) msg
      by (simp add: carried_answer_def compute_auth_response_def derive_session_key_def HMACAuth_compute_def concat_nonces_eq)
    from peer.response_answered [where mac = mac and secret = secret, OF assms(1) _ assms(2-4) this] True show ?thesis by simp
  next
    case False
    have "carried_answer ?answer ?f (AwaitResponse cn, None)
      = Some (make_standard (FunctionCode_value Extended OR 0x80) [0x80], (AwaitChallenge, None))"
      using False assms(2,3) msg
      by (simp add: carried_answer_def compute_auth_response_def HMACAuth_compute_def concat_nonces_eq)
    from peer.transact_answered [OF assms(1) _ this] False show ?thesis
      using assms(2,3)
      by (simp add: auth_finish_def compute_auth_response_def HMACAuth_compute_def concat_nonces_eq
          check_exception_refused advance_txn_def err_def)
  qed
qed


lemma authenticate_answered:
  assumes T: "cc_transport (cl_config cl) = peer_link pu txn (authenticator mac peer_secret sn token expiry)"
    and cred: "cc_credentials (cl_config cl) = Some lookup" "lookup u = Ok secret"
    and len: "length cn = 16" "length sn = 16" "length token = 16" "\<And>k d. length (mac k d) = 32"
  shows "authenticate mac cn u cl (AwaitChallenge, None) =
    (if mac secret (cn @ sn) \<noteq> mac peer_secret (cn @ sn)
     then Some (err HMACMismatch, advance_txn 1 cl, (AwaitResponse cn, None))
     else if mac secret (sn @ cn) \<noteq> mac peer_secret (sn @ cn)
     then Some (err AuthenticationFailed, advance_txn 2 cl, (AwaitChallenge, None))
     else Some (Ok (Session_create token (mac secret (cn @ sn)) expiry),
            (advance_txn 2 cl)\<lparr>cl_session := Some (Session_create token (mac secret (cn @ sn)) expiry)\<rparr>,
            (Established (mac peer_secret (cn @ sn)), None)))"
proof -
  let ?answer = "authenticator mac peer_secret sn token expiry"
  let ?f = "wrap_tcp u (auth_pdu AuthChallenge cn) (cl_next_transaction_id cl)"
  have msg: "extended_message AuthChallenge ?f = Some cn"
    by (rule extended_message_auth_pdu) (simp add: len)
  have "length (sn @ mac peer_secret (cn @ sn)) < 65000" by (simp add: len)
  from auth_pdu_carried [OF this, of AuthChallenge]
  have "carried_answer ?answer ?f (AwaitChallenge, None)
    = Some (auth_pdu AuthChallenge (sn @ mac peer_secret (cn @ sn) @ []), (AwaitResponse cn, None))"
    using msg len
    by (simp add: carried_answer_def compute_auth_challenge_response_def HMACAuth_compute_def concat_nonces_eq)
  from peer.challenge_answered [where mac = mac, OF T _ cred len(1,2) len(4) this]
  have step: "authenticate mac cn u cl (AwaitChallenge, None) =
    (if mac secret (cn @ sn) = mac peer_secret (cn @ sn) then auth_finish mac cn sn secret u (advance_txn 1 cl) (AwaitResponse cn, None)
     else Some (err HMACMismatch, advance_txn 1 cl, (AwaitResponse cn, None)))" by simp
  have "cc_transport (cl_config (advance_txn 1 cl)) = peer_link pu txn ?answer" "advance_txn 1 (advance_txn 1 cl) = advance_txn 2 cl"
    by (simp_all add: T advance_txn_def)
  from finish_answered [OF this(1) len] this(2) show ?thesis unfolding step by simp
qed


section \<open>A server that answers batches\<close>

text \<open>It holds \<open>regs\<close> from address 0 and answers every item of the batch on its own.\<close>

definition answer_item :: "register list \<Rightarrow> BatchItem \<Rightarrow> ItemResult" where
  "answer_item regs i = \<lparr>ir_address = bi_start_address i,
     ir_registers = (if item_end i \<le> length regs then take (unat (bi_count i)) (drop (item_start i) regs) else []),
     ir_status = (if item_end i \<le> length regs then error_code_default else mk_error IllegalDataAddress)\<rparr>"

definition answer_batch :: "register list \<Rightarrow> BatchRequest \<Rightarrow> BatchResponse" where
  "answer_batch regs req = BatchResponse (map (answer_item regs) (br_items req))"

definition batch_server :: "register list \<Rightarrow> frame \<Rightarrow> unit \<Rightarrow> (PDU \<times> unit) option" where
  "batch_server regs f st = (case extended_message BatchRead f of
     Some pl \<Rightarrow>
       (case BatchRequest_deserialize (span_of pl) of
          Some (Ok req) \<Rightarrow> Some (auth_pdu BatchRead (BatchResponse_serialize (answer_batch regs req)), ())
        | _ \<Rightarrow> None)
   | None \<Rightarrow> None)"

lemma answer_batch_carried:
  assumes "length (br_items req) < 65536"
  shows "response_carried (answer_batch regs req)"
proof -
  have ok: "status_carried error_code_default" by (simp add: status_carried_def)
  have "result_carried (answer_item regs i)" for i
    using unat_u16_less [of "bi_count i"] ok
    by (auto simp: result_carried_def answer_item_def status_carried_mk_error intro: le_less_trans [OF min.cobounded2])
  then show ?thesis using assms by (simp add: response_carried_def answer_batch_def)
qed

lemma batch_read_served:
  assumes "cc_transport (cl_config cl) = peer_link pu txn (batch_server regs)"
    and "length (br_items req) < 65536" "length (BatchRequest_serialize req) < 65400"
    and "length (BatchResponse_serialize (answer_batch regs req)) < 65000"
  shows "batch_read clock u req cl ((), None) = Some (Ok (answer_batch regs req), advance_txn 1 cl, ((), None))"
proof (rule peer.batch_answered [OF assms(1) _ answer_batch_carried [OF assms(2)]])
  fix ts
  let ?hdr = "FrameHeader_default\<lparr>ext_function_code := ExtendedFunctionCode_value BatchRead, timestamp := ts\<rparr>"
  have "extended_message BatchRead (wrap_tcp u (make_extended ?hdr (BatchRequest_serialize req) None) t)
      = Some (BatchRequest_serialize req)" for t
    by (rule extended_message_wrap) (simp_all add: FrameHeader_default_def assms(3))
  then show "carried_answer (batch_server regs)
      (wrap_tcp u (make_extended ?hdr (BatchRequest_serialize req) None) (cl_next_transaction_id cl)) ((), None)
    = Some (auth_pdu BatchRead (BatchResponse_serialize (answer_batch regs req)), ((), None))"
    using batch_request_roundtrip [OF assms(2), of "[]"] auth_pdu_carried [OF assms(4), of BatchRead]
    by (simp add: carried_answer_def batch_server_def)
qed (simp_all add: auth_pdu_def)

text \<open>A range of the merged batch ends in the file when all the requested ones do.\<close>

lemma merged_in_file:
  assumes "\<Union> (item_cells ` set ms) = \<Union> (item_cells ` set xs)" and "\<forall>i\<in>set xs. item_end i \<le> n"
    and "r \<in> set ms" "i \<in> set xs" "item_inside i r"
  shows "item_end r \<le> n"
proof (cases "item_start r < item_end r")
  case True
  then have "(bi_byte_order r, item_end r - 1) \<in> item_cells r" by (auto simp: item_cells_def)
  then obtain j where "j \<in> set xs" "(bi_byte_order r, item_end r - 1) \<in> item_cells j"
    using assms(1,3) by blast
  then have "item_end r - 1 < item_end j" "item_end j \<le> n" using assms(2) by (auto simp: item_cells_def)
  then show ?thesis by simp
next
  case False
  then show ?thesis using assms(2,4,5) by (force simp: item_inside_def item_end_def item_start_def)
qed

lemma item_of_merged:
  assumes "item_inside i r" "item_end r \<le> length regs"
  shows "take (unat (bi_count i)) (drop (item_start i - item_start r) (ir_registers (answer_item regs r)))
    = take (unat (bi_count i)) (drop (item_start i) regs)"
  using assms by (auto simp: answer_item_def item_inside_def item_end_def item_start_def drop_take min_def)

section \<open>Properties\<close>

text \<open>
  Property C6. The handshake with a peer that follows the protocol, for any keyed digest of 32 bytes and any two
  secrets: if the peer's answer to the challenge is not the digest under the client's secret, the client stops with
  \<open>HMACMismatch\<close>; if the client's answer is not the one under the peer's secret, it gets the refusal of the peer;
  otherwise both ends hold the same session key and the client has stored the session. Without a session the client's
  state is as before but for the transactions it used up.
\<close>

theorem authenticate_with_peer:
  assumes "cc_transport (cl_config cl) = peer_link pu txn (authenticator mac peer_secret sn token expiry)"
    and "cc_credentials (cl_config cl) = Some lookup" "lookup u = Ok secret"
    and "length cn = 16" "length sn = 16" "length token = 16" "\<And>k d. length (mac k d) = 32"
  shows "authenticate mac cn u cl (AwaitChallenge, None) =
    (if mac secret (cn @ sn) \<noteq> mac peer_secret (cn @ sn)
     then Some (err HMACMismatch, advance_txn 1 cl, (AwaitResponse cn, None))
     else if mac secret (sn @ cn) \<noteq> mac peer_secret (sn @ cn)
     then Some (err AuthenticationFailed, advance_txn 2 cl, (AwaitChallenge, None))
     else Some (Ok (Session_create token (mac secret (cn @ sn)) expiry),
            (advance_txn 2 cl)\<lparr>cl_session := Some (Session_create token (mac secret (cn @ sn)) expiry)\<rparr>,
            (Established (mac peer_secret (cn @ sn)), None)))"
  by (rule authenticate_answered [OF assms])

definition peer_client :: "(unit_id \<Rightarrow> byte list Result) option \<Rightarrow> 'p peer_world transport
    \<Rightarrow> (nat, nat, 'p peer_world) client" where
  "peer_client credentials T = Client ((ClientConfig_default T)\<lparr>cc_credentials := credentials\<rparr>)"

lemma peer_client_config [simp]:
  "cc_transport (cl_config (peer_client credentials T)) = T"
  "cc_credentials (cl_config (peer_client credentials T)) = credentials"
  by (simp_all add: peer_client_def Client_def ClientConfig_default_def)

theorem authenticate_with_peer_witness:
  "(\<exists>key cl. authenticate toy_hmac (replicate 16 3) 1
      (peer_client (Some (\<lambda>u. Ok [9, 9])) (peer_link 1 7 (authenticator toy_hmac [9, 9] (replicate 16 5) (replicate 16 8) (Timestamp 1000))))
      (AwaitChallenge, None)
     = Some (Ok (Session_create (replicate 16 8) key (Timestamp 1000)), cl, (Established key, None)))
   \<and> (\<exists>cl w. authenticate toy_hmac (replicate 16 3) 1
      (peer_client (Some (\<lambda>u. Ok [9, 9])) (peer_link 1 7 (authenticator toy_hmac [4] (replicate 16 5) (replicate 16 8) (Timestamp 1000))))
      (AwaitChallenge, None)
     = Some (err HMACMismatch, cl, w))"
proof -
  note known = authenticate_with_peer [where u = 1 and secret = "[9, 9]" and lookup = "\<lambda>u. Ok [9, 9]" and mac = toy_hmac
      and cn = "replicate 16 3" and sn = "replicate 16 5" and token = "replicate 16 8" and expiry = "Timestamp 1000"
      and pu = 1 and txn = 7]
  have "replicate 16 x = [x, x, x, x, x, x, x, x, x, x, x, x, x, x, x, x]" for x :: byte
    by (simp add: eval_nat_numeral)
  then have "toy_hmac [9, 9] (replicate 16 3 @ replicate 16 5) \<noteq> toy_hmac [4] (replicate 16 3 @ replicate 16 5)"
    by (simp add: toy_hmac_def Let_def upt_rec)
  then show ?thesis by (simp add: known)
qed



end
