(* ===== verification/Example_Client.thy ===== *)
theory Example_Client
  imports Register_File Pipelined_Link
begin

text \<open>
  The programs \<open>examples/01_basic_client_server.cpp\<close> and \<open>examples/03_batch_operations.cpp\<close>: client, server
  and register file on one link.

  What a program prints is the list of the items it writes to \<open>std::cout\<close> and \<open>std::cerr\<close>, a number as
  the value and not as its digits (manipulators are left out, but for the base and width of a \<open>Hex\<close>), a
  \<open>std::string\<close> as its \<open>Bytes\<close>, the \<open>float\<close> difference and the \<open>double\<close> quotient that two programs print
  as the pair of their operands. A \<open>float\<close> literal is its bit pattern. The server thread, which loops over \<open>process_one\<close>, is the one
  behind \<open>served_link\<close>.
\<close>

datatype out = Text string | Endl | Hex nat int | Dec int | Flt float32 | Dbl float64 | Bytes "byte list" | Message error_code
  | Difference float32 float32 | Quotient int int

fun report :: "out list \<Rightarrow> ('a \<Rightarrow> out list option) \<Rightarrow> 'a Result \<Rightarrow> out list option" where
  "report head show_value (Ok x) = map_option (\<lambda>os. head @ os) (show_value x)"
| "report head show_value (Err ec) = Some (head @ [Text ''  ERROR: '', Message ec, Endl, Endl])"

definition report_write :: "out list \<Rightarrow> out list \<Rightarrow> VoidResult \<Rightarrow> out list" where
  "report_write head success r =
     head @ (if void_has_value r then success else [Text ''  ERROR: '', Message (vr_ec r), Endl, Endl])"

text \<open>One operation of a program: its output, and the client and the world after it.\<close>

definition printing :: "('r \<Rightarrow> out list option) \<Rightarrow> ('r \<times> 'c \<times> 's) option \<Rightarrow> (out list \<times> 'c \<times> 's) option" where
  "printing print result = (case result of
     None \<Rightarrow> None
   | Some (r, cl, s) \<Rightarrow> map_option (\<lambda>os. (os, cl, s)) (print r))"

fun in_sequence :: "('c \<Rightarrow> 's \<Rightarrow> (out list \<times> 'c \<times> 's) option) list \<Rightarrow> 'c \<Rightarrow> 's \<Rightarrow> (out list \<times> 'c \<times> 's) option" where
  "in_sequence [] cl s = Some ([], cl, s)"
| "in_sequence (f # fs) cl s = (case f cl s of
     None \<Rightarrow> None
   | Some (os, cl, s) \<Rightarrow> map_option (\<lambda>(os', cl, s). (os @ os', cl, s)) (in_sequence fs cl s))"

section \<open>Example 01\<close>

definition example01_file :: "register list option" where
  "example01_file = do {
     temp_regs \<leftarrow> TypeCodec_encode_float ABCD (Float32 0x41CC0000);
     t0 \<leftarrow> fetch temp_regs 0;
     t1 \<leftarrow> fetch temp_regs 1;
     Some ((replicate 100 0)[0 := t0, 1 := t1, 2 := 0x0001, 3 := 0x0102])
   }"

definition example01_temperature :: "('cb, 'h, 's) client \<Rightarrow> 's \<Rightarrow> (out list \<times> ('cb, 'h, 's) client \<times> 's) option" where
  "example01_temperature cl s = printing
     (report [Text ''[client] Reading temperature (registers 0-1)...'', Endl] (\<lambda>regs. do {
        temp \<leftarrow> TypeCodec_decode_float ABCD regs;
        r0 \<leftarrow> fetch regs 0;
        r1 \<leftarrow> fetch regs 1;
        Some [Text ''  Raw registers: [0x'', Hex 4 (uint r0), Text '', 0x'', Hex 4 (uint r1), Text '']'', Endl,
              Text ''  Decoded temperature: '', Flt temp, Text '' C'', Endl, Endl] }))
     (read_holding_registers 1 0 2 cl s)"

definition example01_status :: "('cb, 'h, 's) client \<Rightarrow> 's \<Rightarrow> (out list \<times> ('cb, 'h, 's) client \<times> 's) option" where
  "example01_status cl s = printing
     (report [Text ''[client] Reading status (register 2)...'', Endl] (\<lambda>regs. do {
        r0 \<leftarrow> fetch regs 0;
        Some [Text ''  Status: 0x'', Hex 4 (uint r0), Text (if r0 = 1 then '' (sensor online)'' else '' (unknown)''),
              Endl, Endl] }))
     (read_holding_registers 1 2 1 cl s)"

definition example01_setpoint :: "('cb, 'h, 's) client \<Rightarrow> 's \<Rightarrow> (out list \<times> ('cb, 'h, 's) client \<times> 's) option" where
  "example01_setpoint cl s = (case TypeCodec_encode_float ABCD (Float32 0x42900000) of
     None \<Rightarrow> None
   | Some setpoint_regs \<Rightarrow> printing
       (\<lambda>r. Some (report_write [Text ''[client] Writing temperature setpoint = 72.0 to registers 10-11...'', Endl]
          [Text ''  Write succeeded.'', Endl, Endl] r))
       (write_multiple_registers 1 10 setpoint_regs cl s))"

definition example01_readback :: "('cb, 'h, 's) client \<Rightarrow> 's \<Rightarrow> (out list \<times> ('cb, 'h, 's) client \<times> 's) option" where
  "example01_readback cl s = printing
     (report [Text ''[client] Reading back setpoint (registers 10-11)...'', Endl] (\<lambda>regs. do {
        setpoint \<leftarrow> TypeCodec_decode_float ABCD regs;
        Some [Text ''  Readback setpoint: '', Flt setpoint, Text '' (expected 72.0)'', Endl, Endl] }))
     (read_holding_registers 1 10 2 cl s)"

definition example01_single :: "('cb, 'h, 's) client \<Rightarrow> 's \<Rightarrow> (out list \<times> ('cb, 'h, 's) client \<times> 's) option" where
  "example01_single cl s = printing
     (\<lambda>r. Some (report_write [Text ''[client] Writing single register: address 50 = 0xBEEF...'', Endl]
        [Text ''  Single write succeeded.'', Endl, Endl] r))
     (write_single_register 1 50 0xBEEF cl s)"

definition example01_error_case :: "('cb, 'h, 's) client \<Rightarrow> 's \<Rightarrow> (out list \<times> ('cb, 'h, 's) client \<times> 's) option" where
  "example01_error_case cl s = printing
     (\<lambda>r. Some ([Text ''[client] Attempting to read beyond register file (addr=95, count=10)...'', Endl]
        @ (case r of
             Err ec \<Rightarrow> [Text ''  Expected error received: '', Message ec, Endl, Endl]
           | Ok regs \<Rightarrow> [Text ''  Unexpected success (register file may be larger).'', Endl, Endl])))
     (read_holding_registers 1 95 10 cl s)"

definition example01_client :: "(nat, nat, loopback \<times> register list) client" where
  "example01_client = Client \<lparr>cc_transport = served_link (device_server 1 register_file_read (Some register_file_write)),
     cc_credentials = None, cc_pipeline_config = PipelineConfig_default, cc_enable_timestamps = True,
     cc_default_timeout = 1000\<rparr>"

text \<open>The main program; \<open>d1\<close> and \<open>d2\<close> are the random draws of the two transports, which are not used.\<close>

definition example01_main :: "(nat \<Rightarrow> double) \<Rightarrow> (nat \<Rightarrow> double) \<Rightarrow> out list option" where
  "example01_main d1 d2 = (case example01_file of
     None \<Rightarrow> None
   | Some register_file \<Rightarrow>
       map_option (\<lambda>(os, cl, s).
           [Text ''=== modbus_pp Example 01: Basic Client/Server ==='', Endl, Endl,
            Text ''[setup] Loopback transport pair created and connected.'', Endl, Endl,
            Text ''[server] Running on unit ID 1 with 100 holding registers.'', Endl, Endl]
           @ os @ [Text ''[done] Basic client/server example complete.'', Endl])
         (in_sequence [example01_temperature, example01_status, example01_setpoint, example01_readback,
            example01_single, example01_error_case] example01_client (connected_pair d1 d2, register_file)))"

text \<open>The file after the initialisation.\<close>

definition example01_registers :: "register list" where
  "example01_registers = [0x41CC, 0, 1, 0x0102] @ replicate 96 0"

lemma replicate_put:
  "file_put addr vals (xs @ replicate n v) = (if unat addr + length vals \<le> length xs + n then
     take (unat addr) (xs @ replicate n v) @ vals @ drop (unat addr + length vals) (xs @ replicate n v) else xs @ replicate n v)"
  by (simp add: file_put_def)

lemma example_floats [simp]:
  "TypeCodec_encode_float ABCD (Float32 0x41CC0000) = Some [0x41CC, 0]"
  "TypeCodec_encode_float ABCD (Float32 0x42900000) = Some [0x4290, 0]"
  "TypeCodec_decode_float ABCD [0x41CC, 0] = Some (Float32 0x41CC0000)"
  "TypeCodec_decode_float ABCD [0x4290, 0] = Some (Float32 0x42900000)"
  by code_simp+

lemma example01_file_eq: "example01_file = Some example01_registers"
proof -
  have "replicate 100 (0 :: register) = [0, 0, 0, 0] @ replicate 96 0"
    by (simp add: numeral_eq_Suc)
  then show ?thesis by (simp add: example01_file_def example01_registers_def fetch_lt)
qed

lemma example01_client_served [simp]: "file_served_to 1 example01_client"
  by (simp add: example01_client_def file_served_to_def Client_def)

lemma connected_pair_ready [simp]: "link_ready (connected_pair d1 d2, d)"
  by (simp add: link_ready_def del: tx_queue.simps)

lemma length_file_put [simp]: "length (file_put addr vals rf) = length rf"
  by (simp add: file_put_def)

lemma example01_runs:
  assumes "file_served_to 1 cl" "link_ready (l, example01_registers)"
  defines "f1 \<equiv> file_put 10 [0x4290, 0] example01_registers"
  shows "example01_temperature cl (l, example01_registers) = Some
      ([Text ''[client] Reading temperature (registers 0-1)...'', Endl,
        Text ''  Raw registers: [0x'', Hex 4 0x41CC, Text '', 0x'', Hex 4 0, Text '']'', Endl,
        Text ''  Decoded temperature: '', Flt (Float32 0x41CC0000), Text '' C'', Endl, Endl], advance_txn 1 cl, (l, example01_registers))" (is ?temperature)
    and "example01_status cl (l, example01_registers) = Some
      ([Text ''[client] Reading status (register 2)...'', Endl, Text ''  Status: 0x'', Hex 4 1, Text '' (sensor online)'',
        Endl, Endl], advance_txn 1 cl, (l, example01_registers))" (is ?status)
    and "example01_setpoint cl (l, example01_registers) = Some
      ([Text ''[client] Writing temperature setpoint = 72.0 to registers 10-11...'', Endl, Text ''  Write succeeded.'', Endl, Endl],
       advance_txn 1 cl, (l, f1))" (is ?setpoint)
    and "example01_readback cl (l, f1) = Some
      ([Text ''[client] Reading back setpoint (registers 10-11)...'', Endl, Text ''  Readback setpoint: '',
        Flt (Float32 0x42900000), Text '' (expected 72.0)'', Endl, Endl], advance_txn 1 cl, (l, f1))" (is ?readback)
    and "example01_single cl (l, f1) = Some
      ([Text ''[client] Writing single register: address 50 = 0xBEEF...'', Endl, Text ''  Single write succeeded.'', Endl, Endl],
       advance_txn 1 cl, (l, file_put 50 [0xBEEF] f1))" (is ?single)
    and "example01_error_case cl (l, file_put 50 [0xBEEF] f1) = Some
      ([Text ''[client] Attempting to read beyond register file (addr=95, count=10)...'', Endl,
        Text ''  Expected error received: '', Message (mk_error IllegalDataAddress), Endl, Endl],
       advance_txn 1 cl, (l, file_put 50 [0xBEEF] f1))" (is ?error_case)
proof -
  have len: "length example01_registers = 100" by (simp add: example01_registers_def)
  have ready: "link_ready (l, rf)" for rf :: "register list" using assms(2) by (simp add: link_ready_def)
  have f1: "take 2 (drop 10 f1) = [0x4290, 0]" by (simp add: f1_def file_put_def len)
  have f0: "take 2 example01_registers = [0x41CC, 0]" "take 1 (drop 2 example01_registers) = [1]"
    by (simp_all add: example01_registers_def)
  note rd = file_served_read [OF assms(1) [unfolded file_served_to_def] ready disjI1 [OF refl]]
  note wr = file_served_write [OF assms(1) ready disjI1 [OF refl]]
  have lens: "length f1 = 100" by (simp add: f1_def len)
  show ?temperature by (simp add: example01_temperature_def printing_def rd len f0 fetch_lt)
  show ?status using f0(2) by (simp add: example01_status_def printing_def rd len fetch_lt)
  show ?setpoint by (simp add: example01_setpoint_def printing_def wr report_write_def f1_def)
  show ?readback by (simp add: example01_readback_def printing_def rd lens f1)
  show ?single by (simp add: example01_single_def printing_def wr report_write_def)
  show ?error_case by (simp add: example01_error_case_def printing_def rd lens err_def)
qed

theorem example01_output:
  "example01_main d1 d2 = Some
     [Text ''=== modbus_pp Example 01: Basic Client/Server ==='', Endl, Endl,
      Text ''[setup] Loopback transport pair created and connected.'', Endl, Endl,
      Text ''[server] Running on unit ID 1 with 100 holding registers.'', Endl, Endl,
      Text ''[client] Reading temperature (registers 0-1)...'', Endl,
      Text ''  Raw registers: [0x'', Hex 4 0x41CC, Text '', 0x'', Hex 4 0, Text '']'', Endl,
      Text ''  Decoded temperature: '', Flt (Float32 0x41CC0000), Text '' C'', Endl, Endl,
      Text ''[client] Reading status (register 2)...'', Endl,
      Text ''  Status: 0x'', Hex 4 1, Text '' (sensor online)'', Endl, Endl,
      Text ''[client] Writing temperature setpoint = 72.0 to registers 10-11...'', Endl, Text ''  Write succeeded.'', Endl, Endl,
      Text ''[client] Reading back setpoint (registers 10-11)...'', Endl,
      Text ''  Readback setpoint: '', Flt (Float32 0x42900000), Text '' (expected 72.0)'', Endl, Endl,
      Text ''[client] Writing single register: address 50 = 0xBEEF...'', Endl, Text ''  Single write succeeded.'', Endl, Endl,
      Text ''[client] Attempting to read beyond register file (addr=95, count=10)...'', Endl,
      Text ''  Expected error received: '', Message (mk_error IllegalDataAddress), Endl, Endl,
      Text ''[done] Basic client/server example complete.'', Endl]"
  by (simp add: example01_main_def example01_file_eq example01_runs)

section \<open>Example 03\<close>

record SensorDef =
  sd_name :: string
  sd_addr :: address
  sd_count :: quantity
  sd_type :: RegisterType
  sd_order :: ByteOrder

definition sensors :: "SensorDef list" where
  "sensors =
    [\<lparr>sd_name = ''Temperature A'', sd_addr = 0x0000, sd_count = 2, sd_type = RT_Float32, sd_order = ABCD\<rparr>,
     \<lparr>sd_name = ''Temperature B'', sd_addr = 0x0002, sd_count = 2, sd_type = RT_Float32, sd_order = ABCD\<rparr>,
     \<lparr>sd_name = ''Pressure'', sd_addr = 0x0004, sd_count = 2, sd_type = RT_Float32, sd_order = ABCD\<rparr>,
     \<lparr>sd_name = ''Flow rate'', sd_addr = 0x0006, sd_count = 2, sd_type = RT_Float32, sd_order = ABCD\<rparr>,
     \<lparr>sd_name = ''Vibration X'', sd_addr = 0x0008, sd_count = 2, sd_type = RT_Float32, sd_order = ABCD\<rparr>,
     \<lparr>sd_name = ''Vibration Y'', sd_addr = 0x000A, sd_count = 2, sd_type = RT_Float32, sd_order = ABCD\<rparr>,
     \<lparr>sd_name = ''Motor RPM'', sd_addr = 0x0020, sd_count = 2, sd_type = RT_UInt32, sd_order = ABCD\<rparr>,
     \<lparr>sd_name = ''Motor current'', sd_addr = 0x0022, sd_count = 2, sd_type = RT_Float32, sd_order = ABCD\<rparr>,
     \<lparr>sd_name = ''Valve position'', sd_addr = 0x0030, sd_count = 1, sd_type = RT_UInt16, sd_order = ABCD\<rparr>,
     \<lparr>sd_name = ''Status word'', sd_addr = 0x0031, sd_count = 1, sd_type = RT_UInt16, sd_order = ABCD\<rparr>]"

definition example03_add :: "out list \<times> BatchRequest \<Rightarrow> SensorDef \<Rightarrow> out list \<times> BatchRequest" where
  "example03_add st sd = (case st of (os, batch) \<Rightarrow>
     (os @ [Text ''  add('', Text (sd_name sd), Text ''  addr=0x'', Hex 4 (uint (sd_addr sd)),
            Text ''  count='', Dec (uint (sd_count sd)), Text '')'', Endl],
      batch_add batch (sd_addr sd) (sd_count sd) (sd_type sd) (sd_order sd)))"

definition example03_build :: "out list \<times> BatchRequest" where
  "example03_build = (case foldl example03_add
      ([Text ''--- Building Batch Request (10 individual ranges) ---'', Endl], BatchRequest []) sensors of
     (os, batch) \<Rightarrow>
       (os @ [Endl, Text ''  Before optimization: '', Dec (int (batch_size batch)), Text '' items, '',
              Dec (uint (batch_total_registers batch)), Text '' total registers'', Endl, Endl], batch))"

text \<open>\<open>start_address + count - 1\<close> is computed in \<open>int\<close>; the percentage in \<open>size_t\<close>.\<close>

definition example03_range :: "BatchItem \<Rightarrow> out list" where
  "example03_range item = [Text ''  range: addr=0x'', Hex 4 (uint (bi_start_address item)), Text ''  count='',
     Dec (uint (bi_count item)), Text ''  (covers registers 0x'', Hex 4 (uint (bi_start_address item)), Text '' - 0x'',
     Hex 4 (uint (bi_start_address item) + uint (bi_count item) - 1), Text '')'', Endl]"

definition example03_optimize :: "(BatchItem list \<Rightarrow> BatchItem list) \<Rightarrow> BatchRequest \<Rightarrow> out list" where
  "example03_optimize std_sort batch = (let opt = optimized std_sort batch in
     [Text ''--- After Optimization ---'', Endl] @ concat (map example03_range (br_items opt))
     @ [Endl, Text ''  After optimization:  '', Dec (int (batch_size opt)), Text '' items, '',
        Dec (uint (batch_total_registers opt)), Text '' total registers'', Endl,
        Text ''  Reduction: '', Dec (int (batch_size batch)), Text '' requests -> '', Dec (int (batch_size opt)),
        Text '' requests ('', Dec (int (100 - 100 * batch_size opt div batch_size batch)),
        Text ''% fewer round-trips)'', Endl, Endl])"

definition example03_serialization :: "BatchRequest \<Rightarrow> out list option" where
  "example03_serialization batch =
     (let serialized = BatchRequest_serialize batch in
      map_option (\<lambda>deserialized.
          [Text ''--- Serialization ---'', Endl, Text ''  Serialized batch to '', Dec (int (length serialized)), Text '' bytes'', Endl]
          @ (case deserialized of
               Ok request \<Rightarrow> [Text ''  Deserialized back: '', Dec (int (batch_size request)),
                   Text '' items (round-trip OK)'', Endl, Endl]
             | Err ec \<Rightarrow> [Text ''  Deserialization failed: '', Message ec, Endl, Endl]))
        (BatchRequest_deserialize (span_of serialized)))"

definition example03_encode_at :: "address \<Rightarrow> float32 \<Rightarrow> register list \<Rightarrow> register list option" where
  "example03_encode_at addr v file = do {
     regs \<leftarrow> TypeCodec_encode_float ABCD v;
     r0 \<leftarrow> fetch regs 0;
     r1 \<leftarrow> fetch regs 1;
     store_all file (unat addr) [r0, r1]
   }"

definition example03_file :: "register list option" where
  "example03_file = do {
     f \<leftarrow> example03_encode_at 0x0000 (Float32 0x42AA999A) (replicate 0x0040 0);
     f \<leftarrow> example03_encode_at 0x0002 (Float32 0x42B76666) f;
     f \<leftarrow> example03_encode_at 0x0004 (Float32 0x447DCCCD) f;
     f \<leftarrow> example03_encode_at 0x0006 (Float32 0x422A0000) f;
     f \<leftarrow> example03_encode_at 0x0008 (Float32 0x3C449BA6) f;
     f \<leftarrow> example03_encode_at 0x000A (Float32 0x3C03126F) f;
     rpm_regs \<leftarrow> TypeCodec_encode_uint32 ABCD 3600;
     r0 \<leftarrow> fetch rpm_regs 0;
     r1 \<leftarrow> fetch rpm_regs 1;
     f \<leftarrow> store_all f 0x0020 [r0, r1];
     f \<leftarrow> example03_encode_at 0x0022 (Float32 0x417B3333) f;
     f \<leftarrow> store_all f 0x0030 [75];
     store_all f 0x0031 [0x00FF]
   }"

text \<open>What is printed for the results of the batch; the loop stops at ten.\<close>

definition example03_item :: "nat \<Rightarrow> ItemResult \<Rightarrow> out list option" where
  "example03_item i item = map_option (\<lambda>os. [Text ''  [0x'', Hex 4 (uint (ir_address item)), Text ''] ''] @ os)
     (if length (ir_registers item) = 2 \<and> i < 8 then
        (if i = 6 then map_option (\<lambda>v. [Text (sd_name (sensors ! i)), Text '' = '', Dec (uint v), Endl])
             (TypeCodec_decode_uint32 ABCD (ir_registers item))
         else map_option (\<lambda>v. [Text (sd_name (sensors ! i)), Text '' = '', Flt v, Endl])
             (TypeCodec_decode_float ABCD (ir_registers item)))
      else if length (ir_registers item) = 1 then
        Some [Text (sd_name (sensors ! i)), Text '' = '', Dec (uint (ir_registers item ! 0)), Endl]
      else Some [])"

fun example03_items :: "nat \<Rightarrow> ItemResult list \<Rightarrow> out list option" where
  "example03_items i [] = Some []"
| "example03_items i (item # items) =
     (if i < 10 then do {
        os \<leftarrow> example03_item i item;
        os' \<leftarrow> example03_items (i + 1) items;
        Some (os @ os')
      } else Some [])"

definition example03_batch_read :: "('s \<Rightarrow> Timestamp) \<Rightarrow> BatchRequest \<Rightarrow> ('cb, 'h, 's) client \<Rightarrow> 's
    \<Rightarrow> (out list \<times> ('cb, 'h, 's) client \<times> 's) option" where
  "example03_batch_read clock batch cl s = printing
     (\<lambda>r. case r of
        Ok response \<Rightarrow> map_option (\<lambda>os.
            [Text ''  Batch read returned '', Dec (int (length (bresp_results response))), Text '' results'', Endl,
             Text ''  All succeeded: '', Text (if all_succeeded response then ''yes'' else ''no''), Endl, Endl] @ os)
          (example03_items 0 (bresp_results response))
      | Err ec \<Rightarrow> Some [Text ''  Batch read failed: '', Message ec, Endl])
     (batch_read clock 1 batch cl s)"

definition example03_client :: "(nat, nat, loopback \<times> register list) client" where
  "example03_client = Client (ClientConfig_default (served_link (device_server 1 register_file_read None)))"

definition example03_main :: "(BatchItem list \<Rightarrow> BatchItem list) \<Rightarrow> (nat \<Rightarrow> double) \<Rightarrow> (nat \<Rightarrow> double)
    \<Rightarrow> (loopback \<times> register list \<Rightarrow> Timestamp) \<Rightarrow> out list option" where
  "example03_main std_sort d1 d2 clock = (case example03_build of (os, batch) \<Rightarrow> do {
     os' \<leftarrow> example03_serialization batch;
     register_file \<leftarrow> example03_file;
     (os'', cl, w) \<leftarrow> example03_batch_read clock batch example03_client (connected_pair d1 d2, register_file);
     Some ([Text ''=== modbus_pp Example 03: Batch Operations ==='', Endl, Endl] @ os
       @ example03_optimize std_sort batch @ os' @ [Text ''--- Batch Read Over Loopback ---'', Endl] @ os''
       @ [Endl, Text ''[done] Batch operations example complete.'', Endl])
   })"

lemma sorted_is_sort:
  assumes "sorts_by_address f" "sorted (map bi_start_address xs)" "distinct (map bi_start_address xs)"
  shows "f xs = xs"
proof -
  have f: "mset (f xs) = mset xs" "sorted (map bi_start_address (f xs))"
    using assms(1) by (simp_all add: sorts_by_address_def)
  have "sort (map bi_start_address xs) = map bi_start_address (f xs)"
    by (rule properties_for_sort) (use f in simp_all)
  then have "map bi_start_address (f xs) = map bi_start_address xs"
    using assms(2) by (simp add: sorted_sort_id)
  moreover have "inj_on bi_start_address (set (f xs) \<union> set xs)"
    using assms(3) mset_eq_setD [OF f(1)] by (simp add: distinct_map)
  ultimately show ?thesis by (rule map_inj_on)
qed

definition example03_batch :: BatchRequest where
  "example03_batch = BatchRequest (map (\<lambda>sd. \<lparr>bi_start_address = sd_addr sd, bi_count = sd_count sd,
     bi_type = RegisterType_value (sd_type sd), bi_byte_order = ByteOrder_value (sd_order sd)\<rparr>) sensors)"

lemma example03_build_batch: "snd example03_build = example03_batch"
proof -
  have "snd (foldl example03_add (os, BatchRequest items) sds) = BatchRequest (items @ map (\<lambda>sd. \<lparr>bi_start_address = sd_addr sd,
      bi_count = sd_count sd, bi_type = RegisterType_value (sd_type sd), bi_byte_order = ByteOrder_value (sd_order sd)\<rparr>) sds)"
    for os items sds
    by (induction sds arbitrary: os items) (simp_all add: example03_add_def batch_add_def)
  then show ?thesis by (simp add: example03_build_def example03_batch_def split_beta)
qed

lemma example03_optimized:
  assumes "sorts_by_address std_sort"
  shows "optimized std_sort example03_batch = BatchRequest
    [\<lparr>bi_start_address = 0, bi_count = 12, bi_type = 0, bi_byte_order = 0\<rparr>,
     \<lparr>bi_start_address = 0x20, bi_count = 4, bi_type = 0, bi_byte_order = 0\<rparr>,
     \<lparr>bi_start_address = 0x30, bi_count = 2, bi_type = 0, bi_byte_order = 0\<rparr>]"
proof -
  have "std_sort (br_items example03_batch) = br_items example03_batch"
    by (rule sorted_is_sort [OF assms]) (simp_all add: example03_batch_def sensors_def)
  then have "optimized std_sort example03_batch = optimized (\<lambda>items. items) example03_batch"
    by (simp add: optimized_def)
  also have "\<dots> = BatchRequest
    [\<lparr>bi_start_address = 0, bi_count = 12, bi_type = 0, bi_byte_order = 0\<rparr>,
     \<lparr>bi_start_address = 0x20, bi_count = 4, bi_type = 0, bi_byte_order = 0\<rparr>,
     \<lparr>bi_start_address = 0x30, bi_count = 2, bi_type = 0, bi_byte_order = 0\<rparr>]"
    by code_simp
  finally show ?thesis .
qed

lemma example03_serialized:
  "example03_serialization example03_batch = Some [Text ''--- Serialization ---'', Endl, Text ''  Serialized batch to '',
     Dec 62, Text '' bytes'', Endl, Text ''  Deserialized back: '', Dec 10, Text '' items (round-trip OK)'', Endl, Endl]"
proof -
  have n: "length (br_items example03_batch) = 10" by (simp add: example03_batch_def sensors_def)
  have "BatchRequest_deserialize (span_of (BatchRequest_serialize example03_batch)) = Some (Ok example03_batch)"
    using batch_request_roundtrip [of example03_batch "[]"] n by simp
  moreover have "length (BatchRequest_serialize example03_batch) = 62"
    using n by (simp add: BatchRequest_serialize_def Let_def)
  ultimately show ?thesis by (simp add: example03_serialization_def Let_def batch_size_def n)
qed

lemma example03_batch_read_fails:
  assumes "link_ready (l, rf)"
  shows "example03_batch_read clock example03_batch example03_client (l, rf) =
    Some ([Text ''  Batch read failed: '', Message (mk_error TimeoutExpired), Endl], advance_txn 1 example03_client, (l, rf))"
proof -
  have "cc_transport (cl_config example03_client) = served_link (device_server 1 register_file_read None)"
    by (simp add: example03_client_def Client_def ClientConfig_default_def)
  moreover have "length (BatchRequest_serialize example03_batch) < 65000"
    by (simp add: BatchRequest_serialize_def Let_def) (simp add: example03_batch_def sensors_def)
  ultimately show ?thesis
    by (simp add: example03_batch_read_def printing_def batch_read_unanswered [OF _ assms] err_def advance_txn_def)
qed

definition file_of_size :: "nat \<Rightarrow> register list option \<Rightarrow> bool" where
  "file_of_size n r \<longleftrightarrow> (\<exists>f. r = Some f \<and> length f = n)"

lemma file_of_size_bind:
  "file_of_size n r \<Longrightarrow> (\<And>f. length f = n \<Longrightarrow> file_of_size n (g f)) \<Longrightarrow> file_of_size n (r \<bind> g)"
  by (auto simp: file_of_size_def)

lemma file_of_size_Some [simp]: "file_of_size n (Some f) \<longleftrightarrow> length f = n"
  by (simp add: file_of_size_def)

lemma two_registers: "length rs = 2 \<Longrightarrow> \<exists>r0 r1. rs = [r0, r1]"
  by (auto simp: numeral_2_eq_2 length_Suc_conv)

lemma encode_two:
  "\<exists>r0 r1. TypeCodec_encode_float order v = Some [r0, r1]" "\<exists>r0 r1. TypeCodec_encode_uint32 order w = Some [r0, r1]"
  by (simp_all add: type_codec_defs encode_regs_bytes two_registers)

lemma codec_registers:
  "\<exists>rs. TypeCodec_encode_float order x = Some rs \<and> TypeCodec_decode_float order rs = Some x"
  "\<exists>rs. TypeCodec_encode_uint32 order n = Some rs \<and> TypeCodec_decode_uint32 order rs = Some n"
  using regs_roundtrip(2) [of order x _ "[]"] regs_roundtrip(1) [of order n _ "[]"]
  by (simp_all add: type_codec_defs encode_regs_bytes)

lemma encode_at_size:
  "unat addr + 2 \<le> length f \<Longrightarrow> length f = n \<Longrightarrow> file_of_size n (example03_encode_at addr v f)"
  using encode_two(1) [of ABCD v] by (auto simp: example03_encode_at_def fetch_lt)

lemma example03_file_defined: "file_of_size 64 example03_file"
proof -
  obtain r0 r1 where "TypeCodec_encode_uint32 ABCD 3600 = Some [r0, r1]" using encode_two by blast
  then show ?thesis unfolding example03_file_def
    by (simp add: fetch_lt del: store_all.simps) (auto intro!: file_of_size_bind encode_at_size)
qed

end
