(* ===== verification/Example_Pipeline.thy ===== *)
theory Example_Pipeline
  imports Example_Client
begin

text \<open>
  The program \<open>examples/04_pipeline_throughput.cpp\<close>: sixteen reads, first one after the other, then
  pipelined. Callbacks are numbered by their request, the one of \<open>submit_sync\<close> is number 16. The two wall
  times in microseconds that the program measures are arguments, not negative as the clock is steady.
\<close>

definition REQUEST_COUNT :: int where
  "REQUEST_COUNT = 16"

definition example04_link :: "(nat \<Rightarrow> double) \<Rightarrow> (nat \<Rightarrow> double) \<Rightarrow> loopback" where
  "example04_link d1 d2 =
     (let s = create_pair d1 d2;
          s = set_simulated_latency ClientSide 500 s;
          s = set_simulated_latency ServerSide 500 s;
          s = snd (loopback_connect ClientSide s) in
      snd (loopback_connect ServerSide s))"

definition example04_file :: "register list" where
  "example04_file = map (\<lambda>i. of_nat (i * 10)) [0..<256]"

definition example04_client :: "(nat, nat, loopback \<times> register list) client" where
  "example04_client = Client \<lparr>cc_transport = served_link (device_server 1 register_file_read None), cc_credentials = None,
     cc_pipeline_config = \<lparr>pc_max_in_flight = 16, pc_default_timeout = 2000\<rparr>, cc_enable_timestamps = True,
     cc_default_timeout = 2000\<rparr>"

fun example04_sequential :: "nat list \<Rightarrow> int \<Rightarrow> ('cb, 'h, 's) client \<Rightarrow> 's \<Rightarrow> (int \<times> ('cb, 'h, 's) client \<times> 's) option" where
  "example04_sequential [] seq_success cl s = Some (seq_success, cl, s)"
| "example04_sequential (i # is) seq_success cl s =
     (let addr = of_nat (i * 4) in
      case read_holding_registers 1 addr 4 cl s of
        None \<Rightarrow> None
      | Some (r, cl, s) \<Rightarrow> example04_sequential is (if has_value r then seq_success + 1 else seq_success) cl s)"

definition example04_request :: "nat \<Rightarrow> PDU" where
  "example04_request i =
     (let addr = of_nat (i * 4) :: address in
      make_standard (FunctionCode_value ReadHoldingRegisters) [hi8 addr, lo8 addr, 0x00, 0x04])"

fun example04_submit :: "'s transport \<Rightarrow> ('s \<Rightarrow> Timestamp) \<Rightarrow> nat list \<Rightarrow> nat pipeline \<Rightarrow> 's
    \<Rightarrow> out list \<times> nat pipeline \<times> 's" where
  "example04_submit T clock [] p s = ([], p, s)"
| "example04_submit T clock (i # is) p s =
     (case pipeline_submit T clock (example04_request i) (Some i) 2000 p s of (submit_result, p, s) \<Rightarrow>
        (case example04_submit T clock is p s of (os, p, s) \<Rightarrow>
           ((case submit_result of
               Ok cid \<Rightarrow> []
             | Err ec \<Rightarrow> [Text ''  Submit failed for request '', Dec (int i), Text '': '', Message ec, Endl]) @ os, p, s)))"

text \<open>The two counters that the callbacks increment.\<close>

definition example04_callbacks :: "(nat \<times> PDU Result) list \<Rightarrow> int \<times> int \<Rightarrow> int \<times> int" where
  "example04_callbacks calls counters = foldl (\<lambda>(pipe_success, pipe_complete) (i, result).
     ((if has_value result then pipe_success + 1 else pipe_success), pipe_complete + 1)) counters calls"

partial_function (option) example04_wait :: "'s transport \<Rightarrow> ('s \<Rightarrow> Timestamp) \<Rightarrow> (int \<times> int) \<times> nat pipeline \<times> 's
    \<Rightarrow> ((int \<times> int) \<times> nat pipeline \<times> 's) option" where
  "example04_wait T clock st = (case st of (counters, p, s) \<Rightarrow>
     if snd counters < REQUEST_COUNT then
       (case pipeline_poll T clock p s of
          None \<Rightarrow> None
        | Some (calls, p, s) \<Rightarrow> example04_wait T clock (example04_callbacks calls counters, p, s))
     else Some (counters, p, s))"

definition example04_times :: "int \<Rightarrow> int \<Rightarrow> out list" where
  "example04_times success us =
     [Text ''  Completed: '', Dec success, Text ''/'', Dec REQUEST_COUNT, Text '' requests'', Endl,
      Text ''  Wall time: '', Dec us, Text '' us'', Endl,
      Text ''  Avg per request: '', Dec (us div REQUEST_COUNT), Text '' us'', Endl, Endl]"

text \<open>
  The speedup is a \<open>double\<close>, printed as its quotient. A quotient of times below \<open>2 ^ 52\<close> microseconds
  is rounded to more than 1.0 exactly if it is more than 1.
\<close>

definition example04_comparison :: "int \<Rightarrow> int \<Rightarrow> out list" where
  "example04_comparison seq_us pipe_us =
     (let speedup = (if seq_us > 0 \<and> pipe_us > 0 then (seq_us, pipe_us) else (0, 1)) in
      [Text ''--- Comparison ---'', Endl, Text ''  Sequential:  '', Dec seq_us, Text '' us'', Endl,
       Text ''  Pipelined:   '', Dec pipe_us, Text '' us'', Endl,
       Text ''  Speedup:     '', Quotient (fst speedup) (snd speedup), Text ''x'', Endl, Endl]
      @ (if fst speedup > snd speedup then
           [Text ''  Pipelining is '', Quotient (fst speedup) (snd speedup), Text ''x faster for '', Dec REQUEST_COUNT,
            Text '' concurrent requests.'', Endl]
         else
           [Text ''  Note: loopback latency is very low, so pipelining'', Endl,
            Text ''  overhead may dominate. Over a real network (TCP, serial),'', Endl,
            Text ''  pipelining typically yields 5-15x speedup.'', Endl]))"

definition example04_stats :: "'cb pipeline \<Rightarrow> out list" where
  "example04_stats p =
     [Endl, Text ''  Pipeline stats:'', Endl, Text ''    Completed:      '', Dec (uint (completed_count p)), Endl,
      Text ''    Avg latency:    '', Dec (sint (average_latency p)), Text '' us'', Endl,
      Text ''    In flight now:  '', Dec (int (in_flight_count p)), Endl]"

definition example04_sync :: "'s transport \<Rightarrow> ('s \<Rightarrow> Timestamp) \<Rightarrow> ('s \<Rightarrow> 's) \<Rightarrow> nat pipeline \<Rightarrow> 's \<Rightarrow> out list option" where
  "example04_sync T clock elapse p s =
     map_option (\<lambda>(sync_result, others, p, s).
         [Endl, Text ''--- Pipeline submit_sync (single request) ---'', Endl]
         @ (case sync_result of
              Ok resp \<Rightarrow> [Text ''  submit_sync succeeded, response payload: '', Dec (int (length (payload resp))), Text '' bytes'', Endl]
            | Err ec \<Rightarrow> [Text ''  submit_sync returned: '', Message ec, Endl]))
       (pipeline_submit_sync T clock elapse
          (make_standard (FunctionCode_value ReadHoldingRegisters) [0x00, 0x00, 0x00, 0x02]) 2000 16 p s)"

text \<open>The pipelined part: what it prints before the callbacks are counted, and the pipeline and world after the wait.\<close>

definition example04_pipelined :: "'s transport \<Rightarrow> ('s \<Rightarrow> Timestamp) \<Rightarrow> int \<Rightarrow> nat pipeline \<Rightarrow> 's
    \<Rightarrow> (out list \<times> nat pipeline \<times> 's) option" where
  "example04_pipelined T clock pipe_us p s = (case example04_submit T clock [0..<nat REQUEST_COUNT] p s of (failed, p, s) \<Rightarrow>
     (case example04_wait T clock ((0, 0), p, s) of
        None \<Rightarrow> None
      | Some ((pipe_success, pipe_complete), p, s) \<Rightarrow>
          Some ([Text ''--- Pipelined Mode ---'', Endl] @ failed @ example04_times pipe_success pipe_us, p, s)))"

definition example04_main :: "(loopback \<times> register list \<Rightarrow> Timestamp) \<Rightarrow> (loopback \<times> register list \<Rightarrow> loopback \<times> register list)
    \<Rightarrow> int \<Rightarrow> int \<Rightarrow> (nat \<Rightarrow> double) \<Rightarrow> (nat \<Rightarrow> double) \<Rightarrow> out list option" where
  "example04_main clock elapse seq_us pipe_us d1 d2 =
     (let T = cc_transport (cl_config example04_client) in
      case example04_sequential [0..<nat REQUEST_COUNT] 0 example04_client (example04_link d1 d2, example04_file) of
        None \<Rightarrow> None
      | Some (seq_success, client, w) \<Rightarrow>
          (case example04_pipelined T clock pipe_us (cl_pipeline client) w of
             None \<Rightarrow> None
           | Some (pipelined, p, w) \<Rightarrow>
               map_option (\<lambda>synced.
                   [Text ''=== modbus_pp Example 04: Pipeline Throughput ==='', Endl, Endl,
                    Text ''[setup] Loopback with 500us simulated latency per direction.'', Endl,
                    Text ''[setup] '', Dec REQUEST_COUNT, Text '' read requests, each reading 4 registers.'', Endl, Endl,
                    Text ''--- Sequential Mode ---'', Endl] @ example04_times seq_success seq_us @ pipelined
                   @ example04_comparison seq_us pipe_us @ example04_stats p @ synced
                   @ [Endl, Text ''[done] Pipeline throughput example complete.'', Endl])
                 (example04_sync T clock elapse p w)))"

section \<open>What it does\<close>

lemma example04_link_ready: "link_ready (example04_link d1 d2, d)"
proof -
  have "lb_healthy (example04_link d1 d2)"
    unfolding lb_healthy_def
  proof
    fix sd show "ep_connected (endpoint_of sd (example04_link d1 d2)) \<and> ep_next_error (endpoint_of sd (example04_link d1 d2)) = None
        \<and> \<not> d_less (Fin 0) (ep_error_rate (endpoint_of sd (example04_link d1 d2)))"
      by (cases sd) (simp_all add: example04_link_def Let_def loopback_connect_def set_simulated_latency_def create_pair_def
          new_endpoint_def)
  qed
  then show ?thesis
    by (simp add: link_ready_def) (simp add: example04_link_def Let_def loopback_connect_def set_simulated_latency_def create_pair_def)
qed

lemma example04_sequential_eq:
  assumes "cc_transport (cl_config cl) = served_link (device_server 1 register_file_read None)"
    and "link_ready (l, example04_file)" "\<forall>i \<in> set is. i < 60"
  shows "example04_sequential is n cl (l, example04_file) =
    Some (n + int (length is), advance_txn (length is) cl, (l, example04_file))"
  using assms(1,3)
proof (induction "is" arbitrary: n cl)
  case (Cons i "is")
  then have "i * 4 < 2 ^ 16" "i < 60" by simp_all
  then have addr: "unat (of_nat (i * 4) :: address) = i * 4"
    by (simp only: unat_of_nat take_bit_nat_eq_self_iff) simp
  have len: "length example04_file = 256" by (simp add: example04_file_def)
  have "read_holding_registers 1 (of_nat (i * 4)) 4 cl (l, example04_file) =
      Some (Ok (take 4 (drop (i * 4) example04_file)), advance_txn 1 cl, (l, example04_file))"
    using file_served_read [OF Cons.prems(1) assms(2) disjI1 [OF refl], of "of_nat (i * 4)" 4] \<open>i < 60\<close>
    by (simp only: addr len) simp
  moreover have "advance_txn (length is) (advance_txn 1 cl) = advance_txn (length (i # is)) cl"
    by (simp add: advance_txn_def ac_simps)
  moreover have "cc_transport (cl_config (advance_txn 1 cl)) = served_link (device_server 1 register_file_read None)"
    using Cons.prems(1) by (simp add: advance_txn_def)
  ultimately show ?case using Cons.IH [of "advance_txn 1 cl"] Cons.prems(2)
    by (simp add: Let_def)
qed (simp add: advance_txn_def)

lemma example04_submit_submits:
  "snd (example04_submit T clock is p s) =
     snd (pipeline_submits T clock 2000 (map (\<lambda>i. (example04_request i, Some i)) is) p s)"
  by (induction "is" arbitrary: p s) (simp_all add: split_beta)

text \<open>The loop ends on no link whose server answers nothing.\<close>

lemma example04_wait_mute:
  assumes "example04_wait (served_link (device_server u rh wh)) clock st = Some r"
  shows "mute_link u (snd (snd st)) \<longrightarrow> REQUEST_COUNT \<le> snd (fst st)"
proof (rule example04_wait.raw_induct [where
      P = "\<lambda>T clock st r. T = served_link (device_server u rh wh) \<longrightarrow> mute_link u (snd (snd st)) \<longrightarrow> REQUEST_COUNT \<le> snd (fst st)",
      OF _ assms, THEN mp, OF _ refl])
  fix wait :: "(loopback \<times> 'a) transport \<Rightarrow> (loopback \<times> 'a \<Rightarrow> Timestamp) \<Rightarrow> (int \<times> int) \<times> nat pipeline \<times> loopback \<times> 'a
      \<Rightarrow> ((int \<times> int) \<times> nat pipeline \<times> loopback \<times> 'a) option"
    and T clock st r
  assume IH: "\<And>T clock st r. wait T clock st = Some r \<Longrightarrow> T = served_link (device_server u rh wh) \<longrightarrow>
      mute_link u (snd (snd st)) \<longrightarrow> REQUEST_COUNT \<le> snd (fst st)"
    and ret: "(case st of (counters, p, s) \<Rightarrow> if snd counters < REQUEST_COUNT then
       (case pipeline_poll T clock p s of None \<Rightarrow> None
        | Some (calls, p, s) \<Rightarrow> wait T clock (example04_callbacks calls counters, p, s))
      else Some (counters, p, s)) = Some r"
  obtain counters p l d where st: "st = (counters, p, l, d)" by (metis surj_pair)
  show "T = served_link (device_server u rh wh) \<longrightarrow> mute_link u (snd (snd st)) \<longrightarrow> REQUEST_COUNT \<le> snd (fst st)"
  proof (intro impI, rule ccontr)
    assume T: "T = served_link (device_server u rh wh)" and mute: "mute_link u (snd (snd st))"
      and less: "\<not> REQUEST_COUNT \<le> snd (fst st)"
    obtain l' where poll: "pipeline_poll T clock p (l, d) = Some ([], p, (l', d))" "mute_link u (l', d)"
      using mute_poll mute unfolding T st fst_conv snd_conv by metis
    then have "wait T clock (counters, p, (l', d)) = Some r"
      using ret less by (simp add: st example04_callbacks_def)
    from IH [OF this] T poll(2) less show False by (simp add: st)
  qed
qed


lemma example04_submitted:
  assumes "mute_link u (l, d)" "pl_counter p = 1" "length is < 1000"
  shows "\<exists>p' l'. snd (example04_submit (served_link (device_server u rh wh)) clock is p (l, d)) = (p', (l', d)) \<and> mute_link u (l', d)"
proof -
  have "\<forall>(request, cb) \<in> set (map (\<lambda>i. (example04_request i, Some i)) is).
      PDU_wf request \<and> length (PDU_serialize request) < 768"
    by (simp add: example04_request_def Let_def)
  from mute_submits [OF assms(1) _ _ this, of p] assms(2,3) obtain rs p' l' where
    "pipeline_submits (served_link (device_server u rh wh)) clock 2000 (map (\<lambda>i. (example04_request i, Some i)) is) p (l, d)
      = (rs, p', (l', d))" "mute_link u (l', d)"
    by fastforce
  then show ?thesis by (simp add: example04_submit_submits)
qed

section \<open>Properties\<close>

text \<open>
  Property C17. Example 04 never ends: over the latent link its sixteen sequential reads all succeed; then the
  pipelined requests are sent, and from there on every \<open>poll\<close> of the waiting loop returns without a
  call of any callback, however often it polls, so that the loop, which waits for sixteen completions,
  does not return, and the main program has no result, whatever the times measured. No time limit applies: the two
  seconds given to \<open>submit\<close> are only looked at when a response matches.
\<close>

theorem example04_never_returns:
  "\<exists>cl p w. example04_sequential [0..<16] 0 example04_client (example04_link d1 d2, example04_file) =
      Some (16, cl, (example04_link d1 d2, example04_file))
    \<and> snd (example04_submit (cc_transport (cl_config cl)) clock [0..<16] (cl_pipeline cl) (example04_link d1 d2, example04_file)) = (p, w)
    \<and> (\<forall>n. \<exists>w'. pipeline_polls (cc_transport (cl_config cl)) clock n p w = Some ([], p, w'))
    \<and> example04_wait (cc_transport (cl_config cl)) clock ((0, 0), p, w) = None
    \<and> example04_main clock elapse seq_us pipe_us d1 d2 = None"
proof -
  let ?T = "served_link (device_server 1 register_file_read None)" and ?l = "example04_link d1 d2"
  define cl where "cl = advance_txn 16 example04_client"
  have T: "cc_transport (cl_config example04_client) = ?T" "cc_transport (cl_config cl) = ?T" "pl_counter (cl_pipeline cl) = 1"
    by (simp_all add: cl_def advance_txn_def example04_client_def Client_def)
  have "example04_sequential [0..<16] 0 example04_client (?l, example04_file) = Some (16, cl, (?l, example04_file))"
    using example04_sequential_eq [OF T(1) example04_link_ready, of "[0..<16]" 0] by (simp add: cl_def)
  moreover have len: "length [0..<16] < 1000" by simp
  moreover obtain p l' where sub: "snd (example04_submit ?T clock [0..<16] (cl_pipeline cl) (?l, example04_file)) = (p, (l', example04_file))"
    and mute: "mute_link 1 (l', example04_file)"
    using example04_submitted [OF link_ready_mute [OF example04_link_ready] T(3) len] by metis
  moreover have "\<forall>n. \<exists>w'. pipeline_polls ?T clock n p (l', example04_file) = Some ([], p, w')"
    using mute_polls [OF mute] by metis
  moreover have "example04_wait ?T clock ((0, 0), p, (l', example04_file)) = None"
  proof (rule ccontr)
    assume "example04_wait ?T clock ((0, 0), p, (l', example04_file)) \<noteq> None"
    then obtain r where "example04_wait ?T clock ((0, 0), p, (l', example04_file)) = Some r" by blast
    from example04_wait_mute [OF this] mute show False by (simp add: REQUEST_COUNT_def)
  qed
  moreover have "example04_main clock elapse seq_us pipe_us d1 d2 = None"
    using calculation T(1) by (auto simp: example04_main_def example04_pipelined_def REQUEST_COUNT_def Let_def split: prod.splits)
  ultimately show ?thesis unfolding T(2) [symmetric] by blast
qed

end
