(* ===== verification/Example_Data.thy ===== *)
theory Example_Data
  imports Register_Map Security Pdu Example_Client "HOL-Library.Sublist"
begin

text \<open>
  The programs \<open>examples/02_typed_registers.cpp\<close>, \<open>examples/06_security_hmac.cpp\<close> and
  \<open>examples/07_endian_byte_orders.cpp\<close>: the register map, message authentication and byte orders at work.
  Each \<open>main\<close> is a function to what it prints; a lemma says that it runs to its end and what its output contains.
\<close>

section \<open>Example 02\<close>

definition Temperature :: RegisterDescriptor where
  "Temperature = \<lparr>rd_type = RT_Float32, rd_address = 0x0000, rd_count = 2, rd_order = BADC\<rparr>"

definition Pressure :: RegisterDescriptor where
  "Pressure = \<lparr>rd_type = RT_Float32, rd_address = 0x0002, rd_count = 2, rd_order = ABCD\<rparr>"

definition Status :: RegisterDescriptor where
  "Status = \<lparr>rd_type = RT_UInt16, rd_address = 0x0004, rd_count = default_register_count RT_UInt16, rd_order = ABCD\<rparr>"

definition DeviceName :: RegisterDescriptor where
  "DeviceName = \<lparr>rd_type = RT_String, rd_address = 0x0010, rd_count = 16, rd_order = ABCD\<rparr>"

definition SensorMap :: "RegisterDescriptor list" where
  "SensorMap = [Temperature, Pressure, Status, DeviceName]"

text \<open>The two assertions that the compiler checks.\<close>

definition example02_compiles :: bool where
  "example02_compiles \<longleftrightarrow> map_compiles SensorMap \<and> length SensorMap = 4 \<and> uint (total_register_count SensorMap) = 2 + 2 + 1 + 16"

definition example02_layout :: "out list" where
  "example02_layout = (let
     names = [''Temperature'', ''Pressure'', ''Status'', ''DeviceName''];
     type_names = [''UInt16'', ''Int16'', ''UInt32'', ''Int32'', ''Float32'', ''Float64'', ''String''];
     order_names = [''ABCD'', ''DCBA'', ''BADC'', ''CDAB''];
     info = descriptor_info SensorMap in
     concat (map (\<lambda>i. [Text ''  ['', Dec (int i), Text ''] '', Text (names ! i), Text ''  addr=0x'',
         Hex 4 (uint (di_address (info ! i))), Text ''  count='', Dec (uint (di_count (info ! i))),
         Text ''  type='', Text (type_names ! unat (RegisterType_value (di_type (info ! i)))),
         Text ''  order='', Text (order_names ! unat (ByteOrder_value (di_order (info ! i)))), Endl]) [0..<length info])
     @ [Text ''  Total registers: '', Dec (uint (total_register_count SensorMap)), Endl, Endl])"

definition ascii :: "string \<Rightarrow> byte list" where
  "ascii s = map (\<lambda>c. of_nat (of_char c)) s"

text \<open>98.6 and 1013.25 as floats.\<close>

definition example02_encode :: "bool \<Rightarrow> register list option" where
  "example02_encode char_signed = do {
     buffer \<leftarrow> RegisterMap_encode char_signed SensorMap 0 (VFloat32 (Float32 0x42C53333))
       (replicate (unat (total_register_count SensorMap)) 0);
     buffer \<leftarrow> RegisterMap_encode char_signed SensorMap 1 (VFloat32 (Float32 0x447D5000)) buffer;
     buffer \<leftarrow> RegisterMap_encode char_signed SensorMap 2 (VUInt16 0x0001) buffer;
     RegisterMap_encode char_signed SensorMap 3 (VString (ascii ''SLB-Sensor-42'')) buffer
   }"

definition example02_decode :: "register list \<Rightarrow> (reg_value \<times> reg_value \<times> reg_value \<times> reg_value) option" where
  "example02_decode buffer = do {
     temp \<leftarrow> RegisterMap_decode SensorMap 0 buffer;
     pres \<leftarrow> RegisterMap_decode SensorMap 1 buffer;
     status \<leftarrow> RegisterMap_decode SensorMap 2 buffer;
     name \<leftarrow> RegisterMap_decode SensorMap 3 buffer;
     Some (temp, pres, status, name)
   }"

definition example02_print_regs :: "string \<Rightarrow> register list \<Rightarrow> out list" where
  "example02_print_regs label r = [Text ''  '', Text label, Text '': [0x'', Hex 4 (uint (r ! 0)), Text '', 0x'',
     Hex 4 (uint (r ! 1)), Text '']'', Endl]"

definition example02_orders :: "out list option" where
  "example02_orders = do {
     abcd \<leftarrow> TypeCodec_encode_float ABCD (Float32 0x42C53333);
     badc \<leftarrow> TypeCodec_encode_float BADC (Float32 0x42C53333);
     cdab \<leftarrow> TypeCodec_encode_float CDAB (Float32 0x42C53333);
     dcba \<leftarrow> TypeCodec_encode_float DCBA (Float32 0x42C53333);
     Some (example02_print_regs ''ABCD'' abcd @ example02_print_regs ''BADC'' badc
       @ example02_print_regs ''CDAB'' cdab @ example02_print_regs ''DCBA'' dcba)
   }"

text \<open>What the program prints of the buffer: each field on lines of its own, eight registers of the name to a line.\<close>

definition example02_register :: "register list \<Rightarrow> nat \<Rightarrow> out list" where
  "example02_register buffer i =
     (if i = 0 then [Text ''  Temperature: ''] else if i = 2 then [Text ''  Pressure:    '']
      else if i = 4 then [Text ''  Status:      ''] else if i = 5 then [Text ''  DeviceName:  ''] else [])
     @ (if i < 5 \<or> i = 5 then [Text ''0x'', Hex 4 (uint (buffer ! i))]
        else if i \<ge> 5 \<and> i < 5 + 16 then [Text ''0x'', Hex 4 (uint (buffer ! i))] else [])
     @ (if i = 1 \<or> i = 3 \<or> i = 4 then [Endl]
        else if i \<ge> 5 \<and> (i - 5) mod 8 = 7 then [Endl, Text ''              ''] else [Text '' ''])"

definition example02_raw :: "register list \<Rightarrow> out list" where
  "example02_raw buffer = [Text ''--- Raw Register Buffer ---'', Endl]
     @ concat (map (example02_register buffer) [0..<length buffer]) @ [Endl, Endl]"

text \<open>The types of the four values are those that the compiler derives from the descriptors.\<close>

fun example02_values :: "reg_value \<times> reg_value \<times> reg_value \<times> reg_value \<Rightarrow> out list option" where
  "example02_values (VFloat32 temp, VFloat32 pres, VUInt16 status, VString name) = Some
     [Text ''  Temperature: '', Flt temp, Text '' F'', Endl, Text ''  Pressure:    '', Flt pres, Text '' hPa'', Endl,
      Text ''  Status:      0x'', Hex 4 (uint status), Endl, Text ''  Device name: \"'', Bytes name, Text ''\"'', Endl, Endl]"
| "example02_values _ = None"

definition example02_main :: "bool \<Rightarrow> out list option" where
  "example02_main char_signed = do {
     buffer \<leftarrow> example02_encode char_signed;
     decoded \<leftarrow> example02_decode buffer;
     printed \<leftarrow> example02_values decoded;
     orders \<leftarrow> example02_orders;
     Some ([Text ''=== modbus_pp Example 02: Typed Register System ==='', Endl, Endl, Text ''--- Register Map Layout ---'', Endl]
       @ example02_layout
       @ [Text ''--- Encoding Values ---'', Endl, Text ''  Encoded temperature  = 98.6 (BADC byte order)'', Endl,
          Text ''  Encoded pressure     = 1013.25 (ABCD byte order)'', Endl, Text ''  Encoded status       = 0x0001'', Endl,
          Text ''  Encoded device name  = \"SLB-Sensor-42\"'', Endl, Endl]
       @ example02_raw buffer @ [Text ''--- Decoding Values ---'', Endl] @ printed
       @ [Text ''--- Byte Order Comparison for Temperature (98.6) ---'', Endl] @ orders
       @ [Endl, Text ''  Without the type system, using the wrong byte order'', Endl,
          Text ''  produces silently wrong values -- a classic Modbus bug.'', Endl,
          Text ''  RegisterDescriptor encodes the correct order at compile time.'', Endl, Endl]
       @ [Text ''--- Compile-Time Safety ---'', Endl, Text ''  SensorMap::decode<0> returns float   (Temperature)'', Endl,
          Text ''  SensorMap::decode<1> returns float   (Pressure)'', Endl,
          Text ''  SensorMap::decode<2> returns uint16_t (Status)'', Endl,
          Text ''  SensorMap::decode<3> returns string   (DeviceName)'', Endl, Endl,
          Text ''  Attempting to decode<0> as uint16_t is a compile error.'', Endl,
          Text ''  Attempting to use an out-of-range index is a compile error.'', Endl,
          Text ''  Overlapping address ranges trigger static_assert.'', Endl, Endl,
          Text ''[done] Typed register system example complete.'', Endl])
   }"

lemma SensorMap_sound: "map_sound SensorMap" "example02_compiles"
  by (simp_all add: SensorMap_def Temperature_def Pressure_def Status_def DeviceName_def map_sound_def total_of_def
      value_width_def map_compiles_def descriptor_compiles_def descriptors_overlap_def end_address_def
      example02_compiles_def total_register_count_def)

lemma example02_roundtrip:
  "\<exists>buffer. example02_encode sg = Some buffer \<and> example02_decode buffer =
     Some (VFloat32 (Float32 0x42C53333), VFloat32 (Float32 0x447D5000), VUInt16 1, VString (ascii ''SLB-Sensor-42''))"
proof -
  let ?ivs = "[(0 :: nat, VFloat32 (Float32 0x42C53333)), (1, VFloat32 (Float32 0x447D5000)), (2, VUInt16 1),
     (3, VString (ascii ''SLB-Sensor-42''))]"
  let ?buffer = "replicate (unat (total_register_count SensorMap)) (0 :: register)"
  have fits: "distinct (map fst ?ivs)" "\<forall>(i, v) \<in> set ?ivs. i < length SensorMap \<and> value_fits sg (SensorMap ! i) v"
    by (simp_all add: SensorMap_def Temperature_def Pressure_def Status_def DeviceName_def value_fits_def ascii_def)
  have "buffer_ok SensorMap ?buffer"
    by (simp add: SensorMap_def Temperature_def Pressure_def Status_def DeviceName_def buffer_ok_def total_of_def
        total_register_count_def)
  with SensorMap_sound(1) have "map_sound SensorMap \<and> buffer_ok SensorMap ?buffer" by simp
  from register_map.put_all_get [OF fits this] show ?thesis
    by (auto simp: example02_encode_def example02_decode_def Option.bind_eq_Some_conv)
qed

lemma example02_orders_eq:
  "example02_orders = Some (example02_print_regs ''ABCD'' [0x42C5, 0x3333] @ example02_print_regs ''BADC'' [0xC542, 0x3333]
     @ example02_print_regs ''CDAB'' [0x3333, 0x42C5] @ example02_print_regs ''DCBA'' [0x3333, 0xC542])"
proof -
  have "TypeCodec_encode_float ABCD (Float32 0x42C53333) = Some [0x42C5, 0x3333]"
    "TypeCodec_encode_float BADC (Float32 0x42C53333) = Some [0xC542, 0x3333]"
    "TypeCodec_encode_float CDAB (Float32 0x42C53333) = Some [0x3333, 0x42C5]"
    "TypeCodec_encode_float DCBA (Float32 0x42C53333) = Some [0x3333, 0xC542]"
    by code_simp+
  then show ?thesis by (simp add: example02_orders_def)
qed

text \<open>The program runs to its end and prints the four values that it has encoded.\<close>

lemma printed_among:
  "sublist os (os @ os')" "sublist (os1 @ os2) (os1 @ os2 @ os')" "sublist os ys \<Longrightarrow> sublist os (xs @ ys)"
  by (auto simp: sublist_def) (metis append_assoc)+

lemma example02_main_prints:
  "\<exists>os. example02_main sg = Some os \<and> sublist
    [Text ''  Temperature: '', Flt (Float32 0x42C53333), Text '' F'', Endl, Text ''  Pressure:    '', Flt (Float32 0x447D5000),
     Text '' hPa'', Endl, Text ''  Status:      0x'', Hex 4 1, Endl, Text ''  Device name: \"'', Bytes (ascii ''SLB-Sensor-42''),
     Text ''\"'', Endl, Endl] os"
proof -
  obtain buffer where buffer: "example02_encode sg = Some buffer" "example02_decode buffer =
     Some (VFloat32 (Float32 0x42C53333), VFloat32 (Float32 0x447D5000), VUInt16 1, VString (ascii ''SLB-Sensor-42''))"
    using example02_roundtrip by blast
  obtain orders where orders: "example02_orders = Some orders" using example02_orders_eq by blast
  show ?thesis
    unfolding example02_main_def buffer orders example02_values.simps Option.bind.bind_lunit uint_1
    by (intro exI conjI, rule refl) (rule printed_among)+
qed

section \<open>Example 06\<close>

definition example06_key :: "byte list" where
  "example06_key = [0x4d, 0x6f, 0x64, 0x62, 0x75, 0x73, 0x50, 0x50, 0x53, 0x65, 0x63, 0x72, 0x65, 0x74, 0x4b, 0x65,
     0x79, 0x31, 0x32, 0x33, 0x34, 0x35, 0x36, 0x37, 0x38, 0x39, 0x41, 0x42, 0x43, 0x44, 0x45, 0x46]"

definition example06_message :: "byte list" where
  "example06_message = [0x03, 0x00, 0x00, 0x00, 0x0A]"

definition example06_tampered :: "byte list" where
  "example06_tampered = example06_message[4 := 0x0B]"

definition example06_wrong_key :: "byte list" where
  "example06_wrong_key = example06_key[0 := example06_key ! 0 XOR 0xFF]"

text \<open>The three verifications: correct message, tampered message, wrong key.\<close>

definition example06_verdicts :: "hmac_function \<Rightarrow> bool \<times> bool \<times> bool" where
  "example06_verdicts mac =
     (let digest = HMACAuth_compute mac example06_message example06_key in
      (HMACAuth_verify mac example06_message example06_key digest,
       HMACAuth_verify mac example06_tampered example06_key digest,
       HMACAuth_verify mac example06_message example06_wrong_key digest))"

definition example06_credentials :: "credentials" where
  "example06_credentials = add_credential 2 [0xAA, 0xBB, 0xCC, 0xDD] (add_credential 1 example06_key (\<lambda>_. None))"

definition example06_payload :: "byte list" where
  "example06_payload = [0x00, 0x01, 0x00, 0x00, 0x00, 0x0A, 0x00, 0x00]"

definition example06_pdu :: "hmac_function \<Rightarrow> Timestamp \<Rightarrow> PDU" where
  "example06_pdu mac now =
     (let frame_hmac = HMACAuth_compute mac example06_payload example06_key;
          header = FrameHeader_default\<lparr>version := 1,
            flags := flag_or (FrameFlag_value HasHMAC) (FrameFlag_value HasTimestamp), correlation_id := 42,
            timestamp := Some now, ext_function_code := ExtendedFunctionCode_value BatchRead,
            payload_length := of_nat (length example06_payload)\<rparr> in
      make_extended header example06_payload (Some frame_hmac))"

text \<open>The receiver: \<open>None\<close> in the inner result when the frame carries no digest and nothing is printed.\<close>

definition example06_receive :: "hmac_function \<Rightarrow> byte list \<Rightarrow> bool option Result option" where
  "example06_receive mac serialized = map_option (\<lambda>deserialized. case deserialized of
       Err ec \<Rightarrow> Err ec
     | Ok rx_pdu \<Rightarrow> Ok (map_option (\<lambda>digest. HMACAuth_verify mac (payload rx_pdu) example06_key digest) (hmac rx_pdu)))
     (PDU_deserialize (span_of serialized))"

text \<open>The dump of some bytes, sixteen to a line.\<close>

definition print_hex :: "string \<Rightarrow> byte list \<Rightarrow> out list" where
  "print_hex label data = [Text ''  '', Text label, Text '': '']
     @ concat (map (\<lambda>i. Hex 2 (uint (data ! i))
         # (if i mod 16 = 15 \<and> i + 1 < length data then [Endl, Text (replicate (length label + 4) (CHR '' ''))] else []))
         [0..<length data])
     @ [Endl]"

definition example06_nonces :: "(byte list \<Rightarrow> 's \<Rightarrow> (int \<times> byte list) \<times> 's) \<Rightarrow> 's \<Rightarrow> out list \<times> 's" where
  "example06_nonces rand_bytes s =
     (let (nonce1, s) = generate_nonce rand_bytes s; (nonce2, s) = generate_nonce rand_bytes s;
          nonces_different = nonce1 \<noteq> nonce2 in
      ([Text ''--- Nonce Generation ---'', Endl]
       @ print_hex ''Nonce 1 (16 bytes)'' nonce1 @ print_hex ''Nonce 2 (16 bytes)'' nonce2
       @ [Text ''  Nonces are '', Text (if nonces_different then ''unique'' else ''IDENTICAL (problem!)''),
          Text '' (as expected from CSPRNG)'', Endl, Endl], s))"

definition example06_hmac :: "hmac_function \<Rightarrow> out list" where
  "example06_hmac mac = (case example06_verdicts mac of (valid, tampered_valid, wrong_key_valid) \<Rightarrow>
     [Text ''--- HMAC-SHA256 Computation ---'', Endl,
      Text ''  Key:     32 bytes (\"ModbusPPSecretKey12345689ABCDEF\")'', Endl,
      Text ''  Message: FC=0x03, addr=0x0000, count=10'', Endl, Endl]
     @ print_hex ''HMAC digest (32 bytes)'' (HMACAuth_compute mac example06_message example06_key) @ [Endl]
     @ [Text ''--- HMAC Verification (correct message) ---'', Endl,
        Text ''  Result: '', Text (if valid then ''VALID'' else ''INVALID''), Endl, Endl]
     @ [Text ''--- HMAC Verification (tampered message) ---'', Endl, Text ''  Original: count=10, Tampered: count=11'', Endl,
        Text ''  Result: '', Text (if tampered_valid then ''VALID (BAD!)'' else ''INVALID (correct rejection)''), Endl, Endl]
     @ [Text ''--- HMAC Verification (wrong key) ---'', Endl,
        Text ''  Result: '', Text (if wrong_key_valid then ''VALID (BAD!)'' else ''INVALID (correct rejection)''), Endl, Endl])"

definition example06_store :: "out list" where
  "example06_store = [Text ''--- Credential Store ---'', Endl]
     @ (case get_key example06_credentials 1 of
          Ok key \<Rightarrow> [Text ''  Device 1 key: '', Dec (int (length key)), Text '' bytes (found)'', Endl] | Err ec \<Rightarrow> [])
     @ (case get_key example06_credentials 99 of
          Ok key \<Rightarrow> [] | Err ec \<Rightarrow> [Text ''  Device 99 key: '', Message ec, Text '' (expected)'', Endl, Endl])"

definition example06_frame :: "PDU \<Rightarrow> out list" where
  "example06_frame pdu = [Text ''--- Authenticated PDU Frame ---'', Endl, Text ''  Frame type:     extended'', Endl,
      Text ''  Function code:  0x'', Hex 2 (uint (function_code pdu)), Endl,
      Text ''  Has HMAC:       '', Text (if hmac pdu \<noteq> None then ''yes'' else ''no''), Endl,
      Text ''  Is extended:    '', Text (if is_extended pdu then ''yes'' else ''no''), Endl]
     @ (case extended_header pdu of
          None \<Rightarrow> [] | Some h \<Rightarrow> [Text ''  Correlation ID: '', Dec (uint (correlation_id h)), Endl])
     @ [Text ''  Serialized size: '', Dec (int (length (PDU_serialize pdu))), Text '' bytes'', Endl,
        Text ''    (includes 32-byte HMAC + 8-byte timestamp)'', Endl, Endl]"

definition example06_verify_frame :: "hmac_function \<Rightarrow> PDU \<Rightarrow> out list option" where
  "example06_verify_frame mac pdu = map_option (\<lambda>received. [Text ''--- Verify Received Frame HMAC ---'', Endl]
     @ (case received of
          Ok None \<Rightarrow> []
        | Ok (Some frame_valid) \<Rightarrow>
            [Text ''  Frame HMAC verification: '', Text (if frame_valid then ''VALID'' else ''INVALID''), Endl, Endl]
        | Err ec \<Rightarrow> [Text ''  Deserialization failed: '', Message ec, Endl, Endl]))
     (example06_receive mac (PDU_serialize pdu))"

definition example06_main :: "hmac_function \<Rightarrow> (byte list \<Rightarrow> 's \<Rightarrow> (int \<times> byte list) \<times> 's) \<Rightarrow> Timestamp \<Rightarrow> 's \<Rightarrow> out list option" where
  "example06_main mac rand_bytes now s =
     (let pdu = example06_pdu mac now in
      map_option (\<lambda>verified. [Text ''=== modbus_pp Example 06: Security (HMAC-SHA256) ==='', Endl, Endl]
        @ fst (example06_nonces rand_bytes s) @ example06_hmac mac @ example06_store @ example06_frame pdu @ verified
        @ [Text ''--- Security Summary ---'', Endl,
           Text ''  Standard Modbus:  No authentication, no integrity checks.'', Endl,
           Text ''  modbus_pp:        HMAC-SHA256 per-frame authentication with'', Endl,
           Text ''                    per-device keys, cryptographic nonces, and'', Endl,
           Text ''                    constant-time verification (timing-attack safe).'', Endl, Endl,
           Text ''[done] Security HMAC example complete.'', Endl])
      (example06_verify_frame mac pdu))"

lemma length_example06_payload [simp]: "length example06_payload = 8"
  by (simp add: example06_payload_def)

lemma example06_verdicts_eq:
  assumes "digest_size mac"
  shows "example06_verdicts mac = (True, mac example06_key example06_message = mac example06_key example06_tampered,
    mac example06_key example06_message = mac example06_wrong_key example06_message)"
  using assms
  by (simp add: example06_verdicts_def Let_def HMACAuth_verify_iff [OF assms] HMACAuth_compute_def digest_size_def)

lemma example06_get_key:
  "get_key example06_credentials 1 = Ok example06_key" "get_key example06_credentials 99 = err AuthenticationFailed"
  by (simp_all add: example06_credentials_def get_key_add) (simp add: get_key_def)

text \<open>
  Whatever header a frame with this payload and digest has: the digest covers the payload alone, so a frame
  with another function code, correlation identifier or time is as valid.
\<close>

lemma example06_any_header:
  assumes "digest_size mac" "version h = 1" "timestamp h = None \<longrightarrow> \<not> has_flag (flags h) HasTimestamp"
  shows "example06_receive mac (PDU_serialize (make_extended h example06_payload
      (Some (HMACAuth_compute mac example06_payload example06_key)))) = Some (Ok (Some True))"
proof -
  have len: "length (HMACAuth_compute mac example06_payload example06_key) = 32"
    using assms(1) by (simp add: HMACAuth_compute_def digest_size_def)
  have "PDU_wf (make_extended h example06_payload (Some (HMACAuth_compute mac example06_payload example06_key)))"
    using assms(2,3) len by (auto simp: make_extended_wf)
  from PDU_roundtrip [OF this] show ?thesis
    by (simp add: example06_receive_def HMACAuth_verify_iff [OF assms(1) len])
qed

lemma example06_pdu_size:
  assumes "digest_size mac"
  shows "length (PDU_serialize (example06_pdu mac now)) = 57"
    "example06_receive mac (PDU_serialize (example06_pdu mac now)) = Some (Ok (Some True))"
proof -
  define h where "h = FrameHeader_default\<lparr>version := 1,
            flags := flag_or (FrameFlag_value HasHMAC) (FrameFlag_value HasTimestamp), correlation_id := 42,
            timestamp := Some now, ext_function_code := ExtendedFunctionCode_value BatchRead,
            payload_length := of_nat (length example06_payload)\<rparr>"
  define d where "d = HMACAuth_compute mac example06_payload example06_key"
  have len: "length d = 32" using assms by (simp add: d_def HMACAuth_compute_def digest_size_def)
  have pdu: "example06_pdu mac now = make_extended h example06_payload (Some d)"
    by (simp add: example06_pdu_def h_def d_def Let_def)
  have h: "version h = 1" "timestamp h = Some now" by (simp_all add: h_def)
  have "PDU_wf (make_extended h example06_payload (Some d))"
    using h len by (simp add: make_extended_wf)
  then have "PDU_wire (make_extended h example06_payload (Some d))" by (simp add: PDU_wf_def)
  from PDU_serialize_extended [OF make_extended_header this] h len
  show "length (PDU_serialize (example06_pdu mac now)) = 57"
    by (simp add: pdu)
  show "example06_receive mac (PDU_serialize (example06_pdu mac now)) = Some (Ok (Some True))"
    unfolding pdu d_def using example06_any_header [OF assms h(1)] h(2) by simp
qed

text \<open>
  The program runs to its end, and the frame that it has sent is \<open>VALID\<close>. The rejections that it calls correct hold exactly
  if the digests differ, which no theorem about a parameter can say.
\<close>

lemma example06_main_prints:
  assumes "digest_size mac"
  shows "\<exists>os. example06_main mac rand_bytes now s = Some os \<and> sublist
    [Text ''--- Verify Received Frame HMAC ---'', Endl, Text ''  Frame HMAC verification: '', Text ''VALID'', Endl, Endl] os"
proof -
  have "example06_verify_frame mac (example06_pdu mac now) = Some
    [Text ''--- Verify Received Frame HMAC ---'', Endl, Text ''  Frame HMAC verification: '', Text ''VALID'', Endl, Endl]"
    using example06_pdu_size(2) [OF assms] by (simp add: example06_verify_frame_def)
  note verified = this
  show ?thesis
    unfolding example06_main_def Let_def verified option.map
    by (intro exI conjI, rule refl) (rule printed_among)+
qed

lemma example06_store_eq:
  "example06_store = [Text ''--- Credential Store ---'', Endl, Text ''  Device 1 key: '', Dec 32, Text '' bytes (found)'', Endl,
     Text ''  Device 99 key: '', Message (mk_error AuthenticationFailed), Text '' (expected)'', Endl, Endl]"
  by (simp add: example06_store_def example06_get_key err_def) (simp add: example06_key_def)

lemma example06_nonces_identical:
  assumes "\<And>buf s. rand_bytes buf s = ((0, buf), s)"
  shows "Text ''IDENTICAL (problem!)'' \<in> set (fst (example06_nonces rand_bytes s))"
  by (simp add: example06_nonces_def generate_nonce_failed [OF assms])

section \<open>Example 07\<close>

text \<open>Equality of floats as the language has it: a NaN equals nothing, the two zeros are equal.\<close>

definition is_nan32 :: "float32 \<Rightarrow> bool" where
  "is_nan32 x \<longleftrightarrow> float_bits x AND 0x7F800000 = 0x7F800000 \<and> float_bits x AND 0x007FFFFF \<noteq> 0"

definition float_equal :: "float32 \<Rightarrow> float32 \<Rightarrow> bool" where
  "float_equal x y \<longleftrightarrow> \<not> is_nan32 x \<and> \<not> is_nan32 y
     \<and> (x = y \<or> float_bits x AND 0x7FFFFFFF = 0 \<and> float_bits y AND 0x7FFFFFFF = 0)"

definition example07_print_register_pair :: "string \<Rightarrow> register list \<Rightarrow> out list" where
  "example07_print_register_pair label regs =
     (let b0 = hi8 (regs ! 0); b1 = lo8 (regs ! 0); b2 = hi8 (regs ! 1); b3 = lo8 (regs ! 1) in
      [Text ''  '', Text label, Text '': '', Text ''regs=[0x'', Hex 4 (uint (regs ! 0)), Text '', 0x'', Hex 4 (uint (regs ! 1)),
       Text '']'', Text ''  bytes=['', Hex 2 (uint b0), Text '' '', Hex 2 (uint b1), Text '' '', Hex 2 (uint b2), Text '' '',
       Hex 2 (uint b3), Text '']'', Endl])"

definition example07_value :: float32 where
  "example07_value = Float32 0x42F6E979"

definition example07_bytes :: "byte \<times> byte \<times> byte \<times> byte" where
  "example07_bytes = (let raw_bits = float_bits example07_value in
     (ucast (drop_bit 24 raw_bits AND 0xFF), ucast (drop_bit 16 raw_bits AND 0xFF),
      ucast (drop_bit 8 raw_bits AND 0xFF), ucast (drop_bit 0 raw_bits AND 0xFF)))"

text \<open>The arrangement in which each order places the four bytes.\<close>

definition example07_encodings :: "out list option" where
  "example07_encodings = do {
     abcd \<leftarrow> TypeCodec_encode_float ABCD example07_value;
     dcba \<leftarrow> TypeCodec_encode_float DCBA example07_value;
     badc \<leftarrow> TypeCodec_encode_float BADC example07_value;
     cdab \<leftarrow> TypeCodec_encode_float CDAB example07_value;
     Some ([Text ''  ABCD    [A B] [C D]         ''] @ example07_print_register_pair ''ABCD'' abcd
       @ [Text ''  DCBA    [D C] [B A]         ''] @ example07_print_register_pair ''DCBA'' dcba
       @ [Text ''  BADC    [B A] [D C]         ''] @ example07_print_register_pair ''BADC'' badc
       @ [Text ''  CDAB    [C D] [A B]         ''] @ example07_print_register_pair ''CDAB'' cdab)
   }"

definition example07_check :: "float32 \<Rightarrow> string \<Rightarrow> float32 \<Rightarrow> out list" where
  "example07_check v name decoded = [Text ''  '', Text name, Text '': decode -> '', Flt decoded,
     Text (if float_equal decoded v then ''  [OK]'' else ''  [MISMATCH]''), Endl]"

definition example07_roundtrips :: "float32 \<Rightarrow> out list option" where
  "example07_roundtrips v = do {
     abcd \<leftarrow> TypeCodec_encode_float ABCD v;
     dcba \<leftarrow> TypeCodec_encode_float DCBA v;
     badc \<leftarrow> TypeCodec_encode_float BADC v;
     cdab \<leftarrow> TypeCodec_encode_float CDAB v;
     dec_abcd \<leftarrow> TypeCodec_decode_float ABCD abcd;
     dec_dcba \<leftarrow> TypeCodec_decode_float DCBA dcba;
     dec_badc \<leftarrow> TypeCodec_decode_float BADC badc;
     dec_cdab \<leftarrow> TypeCodec_decode_float CDAB cdab;
     Some (example07_check v ''ABCD'' dec_abcd @ example07_check v ''DCBA'' dec_dcba
       @ example07_check v ''BADC'' dec_badc @ example07_check v ''CDAB'' dec_cdab)
   }"

text \<open>Encoded with ABCD and decoded with each of the other orders.\<close>

definition example07_wrong_orders :: "float32 \<Rightarrow> (float32 \<times> float32 \<times> float32) option" where
  "example07_wrong_orders v = do {
     abcd \<leftarrow> TypeCodec_encode_float ABCD v;
     wrong_dcba \<leftarrow> TypeCodec_decode_float DCBA abcd;
     wrong_badc \<leftarrow> TypeCodec_decode_float BADC abcd;
     wrong_cdab \<leftarrow> TypeCodec_decode_float CDAB abcd;
     Some (wrong_dcba, wrong_badc, wrong_cdab)
   }"

definition example07_uint32 :: "u32 \<Rightarrow> out list option" where
  "example07_uint32 u32_val = do {
     u32_abcd \<leftarrow> TypeCodec_encode_uint32 ABCD u32_val;
     u32_dcba \<leftarrow> TypeCodec_encode_uint32 DCBA u32_val;
     u32_badc \<leftarrow> TypeCodec_encode_uint32 BADC u32_val;
     u32_cdab \<leftarrow> TypeCodec_encode_uint32 CDAB u32_val;
     dec_abcd \<leftarrow> TypeCodec_decode_uint32 ABCD u32_abcd;
     dec_dcba \<leftarrow> TypeCodec_decode_uint32 DCBA u32_dcba;
     dec_badc \<leftarrow> TypeCodec_decode_uint32 BADC u32_badc;
     dec_cdab \<leftarrow> TypeCodec_decode_uint32 CDAB u32_cdab;
     Some (example07_print_register_pair ''ABCD'' u32_abcd @ example07_print_register_pair ''DCBA'' u32_dcba
       @ example07_print_register_pair ''BADC'' u32_badc @ example07_print_register_pair ''CDAB'' u32_cdab
       @ [Endl, Text ''  Round-trip: '', Text ''ABCD='', Hex 1 (uint dec_abcd), Text '' DCBA='', Hex 1 (uint dec_dcba),
          Text '' BADC='', Hex 1 (uint dec_badc), Text '' CDAB='', Hex 1 (uint dec_cdab), Text '' (all should be 0x12345678)'',
          Endl, Endl])
   }"

definition example07_double :: "float64 \<Rightarrow> (register list \<times> float64) option" where
  "example07_double dbl_val = do {
     dbl_regs \<leftarrow> TypeCodec_encode_double ABCD dbl_val;
     dbl_decoded \<leftarrow> TypeCodec_decode_double ABCD dbl_regs;
     Some (dbl_regs, dbl_decoded)
   }"

definition example07_representation :: "out list" where
  "example07_representation = (case example07_bytes of (a, b, c, d) \<Rightarrow>
     [Text ''--- IEEE 754 Representation ---'', Endl, Text ''  Value:      '', Flt example07_value, Text ''f'', Endl,
      Text ''  Raw bits:   0x'', Hex 8 (uint (float_bits example07_value)), Endl,
      Text ''  Bytes:      A=0x'', Hex 2 (uint a), Text '' B=0x'', Hex 2 (uint b), Text '' C=0x'', Hex 2 (uint c),
      Text '' D=0x'', Hex 2 (uint d), Text ''  (A=MSB, D=LSB)'', Endl, Endl])"

definition example07_print_wrong :: "float32 \<Rightarrow> float32 \<times> float32 \<times> float32 \<Rightarrow> out list" where
  "example07_print_wrong dec_abcd wrong = (case wrong of (wrong_dcba, wrong_badc, wrong_cdab) \<Rightarrow>
     [Endl, Text ''--- What Happens With the Wrong Byte Order ---'', Endl,
      Text ''  Encoding with ABCD, but decoding with each other order:'', Endl, Endl,
      Text ''  Correct (ABCD -> ABCD): '', Flt dec_abcd, Endl, Text ''  Wrong   (ABCD -> DCBA): '', Flt wrong_dcba, Endl,
      Text ''  Wrong   (ABCD -> BADC): '', Flt wrong_badc, Endl, Text ''  Wrong   (ABCD -> CDAB): '', Flt wrong_cdab, Endl, Endl,
      Text ''  These silently wrong values are one of the most common'', Endl,
      Text ''  sources of bugs in Modbus integration projects. The'', Endl,
      Text ''  RegisterDescriptor type system encodes the correct byte'', Endl,
      Text ''  order at compile time, making this class of bug impossible.'', Endl, Endl])"

definition example07_print_double :: "register list \<Rightarrow> float64 \<Rightarrow> out list" where
  "example07_print_double dbl_regs dbl_decoded =
     [Text ''--- Float64 (double) Demo (value = 3.14159265358979) ---'', Endl, Text ''  ABCD regs: ['']
     @ concat (map (\<lambda>i. [Text ''0x'', Hex 4 (uint (dbl_regs ! i))] @ (if i + 1 < length dbl_regs then [Text '', ''] else []))
         [0..<length dbl_regs])
     @ [Text '']'', Endl, Text ''  Decoded:   '', Dbl dbl_decoded, Endl, Endl]"

definition example07_main :: "out list option" where
  "example07_main = do {
     encodings \<leftarrow> example07_encodings;
     roundtrips \<leftarrow> example07_roundtrips example07_value;
     abcd \<leftarrow> TypeCodec_encode_float ABCD example07_value;
     dec_abcd \<leftarrow> TypeCodec_decode_float ABCD abcd;
     wrong \<leftarrow> example07_wrong_orders example07_value;
     u32 \<leftarrow> example07_uint32 0x12345678;
     (dbl_regs, dbl_decoded) \<leftarrow> example07_double (Float64 0x400921FB54442D11);
     Some ([Text ''=== modbus_pp Example 07: Endian Byte Orders ==='', Endl, Endl]
       @ example07_representation
       @ [Text ''--- Encoding 123.456f Across All Byte Orders ---'', Endl,
          Text ''  Each order places the 4 bytes into 2 Modbus registers differently:'', Endl, Endl,
          Text ''  Order   Byte arrangement     Registers & raw bytes'', Endl,
          Text ''  -----   ------------------   --------------------------------'', Endl]
       @ encodings
       @ [Endl, Text ''--- Vendor Byte Order Conventions ---'', Endl,
          Text ''  ABCD (big-endian):       Modbus default, Siemens, Honeywell, Emerson'', Endl,
          Text ''  DCBA (little-endian):    Some Modicon/Schneider legacy devices'', Endl,
          Text ''  BADC (byte-swapped):     Schneider Electric, ABB, Daniel flow meters'', Endl,
          Text ''  CDAB (word-swapped):     Enron Modbus, some Yokogawa devices'', Endl, Endl,
          Text ''--- Round-Trip Verification ---'', Endl]
       @ roundtrips @ example07_print_wrong dec_abcd wrong
       @ [Text ''--- UInt32 Byte Order Demo (value = 305419896 = 0x12345678) ---'', Endl] @ u32
       @ example07_print_double dbl_regs dbl_decoded @ [Text ''[done] Endian byte orders example complete.'', Endl])
   }"

lemma example07_roundtrips_eq:
  "example07_roundtrips v = Some (example07_check v ''ABCD'' v @ example07_check v ''DCBA'' v
     @ example07_check v ''BADC'' v @ example07_check v ''CDAB'' v)"
  "(example07_check v name v = [Text ''  '', Text name, Text '': decode -> '', Flt v, Text ''  [OK]'', Endl]) \<longleftrightarrow> \<not> is_nan32 v"
proof -
  show "example07_roundtrips v = Some (example07_check v ''ABCD'' v @ example07_check v ''DCBA'' v
     @ example07_check v ''BADC'' v @ example07_check v ''CDAB'' v)"
    unfolding example07_roundtrips_def using codec_registers(1) by (metis Option.bind.bind_lunit)
  show "(example07_check v name v = [Text ''  '', Text name, Text '': decode -> '', Flt v, Text ''  [OK]'', Endl]) \<longleftrightarrow> \<not> is_nan32 v"
    by (simp add: example07_check_def float_equal_def)
qed

lemma example07_values:
  "example07_bytes = (0x42, 0xF6, 0xE9, 0x79)" "\<not> is_nan32 example07_value"
  "example07_wrong_orders example07_value = Some (Float32 0x79E9F642, Float32 0xF64279E9, Float32 0xE97942F6)"
  "example07_double (Float64 0x400921FB54442D11) = Some ([0x4009, 0x21FB, 0x5444, 0x2D11], Float64 0x400921FB54442D11)"
  by code_simp+

lemma example07_uint32_eq: "\<exists>head. example07_uint32 v = Some (head @
    [Text ''  Round-trip: '', Text ''ABCD='', Hex 1 (uint v), Text '' DCBA='', Hex 1 (uint v), Text '' BADC='', Hex 1 (uint v),
     Text '' CDAB='', Hex 1 (uint v), Text '' (all should be 0x12345678)'', Endl, Endl])"
proof -
  have "\<forall>order. \<exists>rs. TypeCodec_encode_uint32 order v = Some rs \<and> TypeCodec_decode_uint32 order rs = Some v"
    using codec_registers(2) by blast
  from choice [OF this] obtain rs where rs: "\<And>order. TypeCodec_encode_uint32 order v = Some (rs order)"
    "\<And>order. TypeCodec_decode_uint32 order (rs order) = Some v" by blast
  show ?thesis
    unfolding example07_uint32_def rs Option.bind.bind_lunit
    by (rule exI [of _ "example07_print_register_pair ''ABCD'' (rs ABCD) @ example07_print_register_pair ''DCBA'' (rs DCBA)
      @ example07_print_register_pair ''BADC'' (rs BADC) @ example07_print_register_pair ''CDAB'' (rs CDAB) @ [Endl]"]) simp
qed

text \<open>The program runs to its end: four times \<open>OK\<close>, then the three wrong values.\<close>

lemma example07_main_prints:
  "\<exists>os. example07_main = Some os \<and> sublist
    (concat (map (\<lambda>name. [Text ''  '', Text name, Text '': decode -> '', Flt example07_value, Text ''  [OK]'', Endl])
       [''ABCD'', ''DCBA'', ''BADC'', ''CDAB''])
     @ example07_print_wrong example07_value (Float32 0x79E9F642, Float32 0xF64279E9, Float32 0xE97942F6)) os"
proof -
  obtain encodings where enc: "example07_encodings = Some encodings"
    unfolding example07_encodings_def using codec_registers(1) by (metis Option.bind.bind_lunit)
  obtain u32 where u32: "example07_uint32 0x12345678 = Some u32" using example07_uint32_eq by blast
  have check: "example07_check example07_value name example07_value =
      [Text ''  '', Text name, Text '': decode -> '', Flt example07_value, Text ''  [OK]'', Endl]" for name
    using example07_roundtrips_eq(2) example07_values(2) by blast
  obtain abcd where abcd: "TypeCodec_encode_float ABCD example07_value = Some abcd"
    "TypeCodec_decode_float ABCD abcd = Some example07_value" using codec_registers(1) by blast
  show ?thesis
    unfolding example07_main_def enc u32 abcd example07_roundtrips_eq(1) example07_values(3,4) check list.map concat.simps append_Nil2
      Option.bind.bind_lunit prod.case
    by (intro exI conjI, rule refl) (rule printed_among)+
qed

end
