(* ===== verification/Example_Pubsub.thy ===== *)
theory Example_Pubsub
  imports Example_Client
begin

text \<open>
  The program \<open>examples/05_pubsub_events.cpp\<close>: a temperature, published with a dead band of 5.0 and
  observed through a subscriber. No server runs in it: publisher and subscriber are called in turn. The world
  is the link and the atomic \<open>temp_raw\<close>, the temperature in hundredths.

  The float arithmetic of the program is rounding to nearest even of the exact results, defined here for
  values from 1 to \<open>2 ^ 24\<close>, where all of it takes place but for the difference that an event prints, which is
  kept as its two operands.
\<close>

section \<open>Floats from 1 to \<open>2 ^ 24\<close>\<close>

text \<open>The value of a float as a quotient, and the float nearest to a quotient.\<close>

definition float_ratio :: "float32 \<Rightarrow> int \<times> int" where
  "float_ratio x = (2 ^ 23 + uint (float_bits x AND 0x7FFFFF), 2 ^ (150 - unat (drop_bit 23 (float_bits x))))"

definition round_even :: "int \<Rightarrow> int \<Rightarrow> int" where
  "round_even a b = (let q = a div b; r = 2 * (a mod b) in
     if r < b then q else if r > b then q + 1 else if even q then q else q + 1)"

fun binary_exponent :: "nat \<Rightarrow> int \<Rightarrow> int \<Rightarrow> nat" where
  "binary_exponent 0 a b = 0"
| "binary_exponent (Suc n) a b = (if 2 * b \<le> a then Suc (binary_exponent n a (2 * b)) else 0)"

definition float_of_ratio :: "int \<Rightarrow> int \<Rightarrow> float32" where
  "float_of_ratio a b = (let e = binary_exponent 24 a b in
     Float32 (word_of_int (int (e + 126) * 2 ^ 23 + round_even (a * 2 ^ 23) (b * 2 ^ e))))"

definition float_times_100 :: "float32 \<Rightarrow> float32" where
  "float_times_100 x = (case float_ratio x of (a, b) \<Rightarrow> float_of_ratio (a * 100) b)"

definition float_div_100 :: "float32 \<Rightarrow> float32" where
  "float_div_100 x = (case float_ratio x of (a, b) \<Rightarrow> float_of_ratio a (b * 100))"

definition float_to_int :: "float32 \<Rightarrow> int" where
  "float_to_int x = (case float_ratio x of (a, b) \<Rightarrow> a div b)"

section \<open>The program\<close>

definition example05_temperature :: "int \<Rightarrow> float32" where
  "example05_temperature temp_raw = float_div_100 (float_of_ratio temp_raw 1)"

definition example05_registers :: "int \<Rightarrow> register list" where
  "example05_registers temp_raw =
     (case TypeCodec_encode_float ABCD (example05_temperature temp_raw) of None \<Rightarrow> [] | Some regs \<Rightarrow> regs)"

text \<open>The handler for reads by the client, which the program registers and never uses.\<close>

definition example05_read :: "int ReadHandler" where
  "example05_read addr cnt temp_raw =
     (if addr = 0 \<and> cnt = 2 then Ok (example05_registers temp_raw) else err IllegalDataAddress, temp_raw)"

definition example05_source :: "loopback \<times> int \<Rightarrow> register list \<times> (loopback \<times> int)" where
  "example05_source w = (example05_registers (snd w), w)"

definition example05_request :: SubscriptionRequest where
  "example05_request = SubscriptionRequest_default\<lparr>sr_start_address := 0, sr_count := 2, sr_type := RT_Float32,
     sr_byte_order := ABCD, sr_trigger := OnChange, sr_dead_band := Fin 5\<rparr>"

definition example05_publisher :: "Timestamp \<Rightarrow> SubscriptionID Result \<times> (loopback \<times> int) publisher" where
  "example05_publisher now = accept_subscription now 1 example05_request
     (register_data_source 0 2 example05_source (Publisher (Some (lift_transport (LoopbackTransport ServerSide)))))"

definition example05_subscriber :: "SubscriptionID \<Rightarrow> (unit, loopback \<times> int) subscriber" where
  "example05_subscriber sub_id = on_event sub_id () (Subscriber (Some (lift_transport (LoopbackTransport ClientSide))))"

text \<open>The handler; \<open>notification_count\<close> is the count after its increment. The calls of one poll, one after the other.\<close>

definition example05_event :: "nat \<Rightarrow> EventNotification \<Rightarrow> out list option" where
  "example05_event notification_count event = do {
     current \<leftarrow> TypeCodec_decode_float ABCD (en_current_values event);
     previous \<leftarrow> (if en_previous_values event \<noteq> [] then TypeCodec_decode_float ABCD (en_previous_values event)
                else Some (Float32 0));
     Some [Text ''  [event #'', Dec (int notification_count), Text ''] '', Text ''Temperature changed: '', Flt previous,
       Text '' -> '', Flt current, Text '' (delta = '', Difference current previous, Text '')'', Endl]
   }"

fun example05_events :: "nat \<Rightarrow> (unit \<times> EventNotification) list \<Rightarrow> out list option" where
  "example05_events notification_count [] = Some []"
| "example05_events notification_count ((h, event) # calls) = do {
     os \<leftarrow> example05_event (notification_count + 1) event;
     os' \<leftarrow> example05_events (notification_count + 1) calls;
     Some (os @ os')
   }"

record TempStep =
  ts_new_temp :: float32
  ts_description :: string
  ts_expect_notification :: bool

definition example05_steps :: "TempStep list" where
  "example05_steps =
    [\<lparr>ts_new_temp = Float32 0x41CC0000, ts_description = ''Initial value (baseline)'', ts_expect_notification = True\<rparr>,
     \<lparr>ts_new_temp = Float32 0x41D80000, ts_description = ''Small change: +1.5 (within dead-band)'', ts_expect_notification = False\<rparr>,
     \<lparr>ts_new_temp = Float32 0x41E00000, ts_description = ''Small change: +1.0 (within dead-band)'', ts_expect_notification = False\<rparr>,
     \<lparr>ts_new_temp = Float32 0x42040000, ts_description = ''Large change: +5.0 (meets dead-band!)'', ts_expect_notification = True\<rparr>,
     \<lparr>ts_new_temp = Float32 0x42080000, ts_description = ''Small change: +1.0 (within dead-band)'', ts_expect_notification = False\<rparr>,
     \<lparr>ts_new_temp = Float32 0x41C80000, ts_description = ''Large drop:  -9.0 (exceeds dead-band!)'', ts_expect_notification = True\<rparr>,
     \<lparr>ts_new_temp = Float32 0x41C00000, ts_description = ''Small change: -1.0 (within dead-band)'', ts_expect_notification = False\<rparr>,
     \<lparr>ts_new_temp = Float32 0x41F40000, ts_description = ''Large rise:  +6.5 (exceeds dead-band!)'', ts_expect_notification = True\<rparr>,
     \<lparr>ts_new_temp = Float32 0x41F80000, ts_description = ''Small change: +0.5 (within dead-band)'', ts_expect_notification = False\<rparr>,
     \<lparr>ts_new_temp = Float32 0x42180000, ts_description = ''Large rise:  +7.0 (exceeds dead-band!)'', ts_expect_notification = True\<rparr>]"

definition example05_step :: "(loopback \<times> int \<Rightarrow> Timestamp) \<Rightarrow> TempStep
    \<Rightarrow> (loopback \<times> int) publisher \<times> (unit, loopback \<times> int) subscriber \<times> nat \<times> (loopback \<times> int)
    \<Rightarrow> (out list \<times> (loopback \<times> int) publisher \<times> (unit, loopback \<times> int) subscriber \<times> nat \<times> (loopback \<times> int)) option" where
  "example05_step clock step st = (case st of (publisher, subscriber, notification_count, (l, temp_raw)) \<Rightarrow>
     let temp_raw = float_to_int (float_times_100 (ts_new_temp step)); before = notification_count in
     case scan_and_notify clock publisher (l, temp_raw) of
       None \<Rightarrow> None
     | Some (n, publisher, w) \<Rightarrow>
         (case subscriber_poll clock subscriber w of
            None \<Rightarrow> None
          | Some (processed, calls, w) \<Rightarrow>
              (case example05_events notification_count calls of
                 None \<Rightarrow> None
               | Some events \<Rightarrow>
                   let notification_count = notification_count + length calls; fired = notification_count > before in
                   Some ([Text ''  Set temp = '', Flt (ts_new_temp step), Text '' -- '', Text (ts_description step), Endl] @ events
                       @ [Text ''    -> notification '', Text (if fired then ''FIRED'' else ''suppressed''),
                          Text (if fired = ts_expect_notification step then '' (expected)'' else '' (UNEXPECTED)''), Endl],
                     publisher, subscriber, notification_count, w))))"

fun example05_run :: "(loopback \<times> int \<Rightarrow> Timestamp) \<Rightarrow> TempStep list
    \<Rightarrow> (loopback \<times> int) publisher \<times> (unit, loopback \<times> int) subscriber \<times> nat \<times> (loopback \<times> int)
    \<Rightarrow> (out list \<times> nat) option" where
  "example05_run clock [] (publisher, subscriber, notification_count, w) = Some ([], notification_count)"
| "example05_run clock (step # steps) st =
     (case example05_step clock step st of
        None \<Rightarrow> None
      | Some (os, st) \<Rightarrow> map_option (\<lambda>(os', n). (os @ os', n)) (example05_run clock steps st))"

text \<open>
  The summary: \<open>sizeof\<close> quotients are of type \<open>size_t\<close>, so the number of notifications is converted for the
  subtraction; the percentage is computed in \<open>int\<close>.
\<close>

definition example05_summary :: "nat \<Rightarrow> out list" where
  "example05_summary notification_count =
     [Endl, Text ''--- Summary ---'', Endl, Text ''  Total temperature changes: '', Dec (int (length example05_steps)), Endl,
      Text ''  Notifications sent:        '', Dec (int notification_count), Endl,
      Text ''  Notifications suppressed:  '', Dec ((int (length example05_steps) - int notification_count) mod 2 ^ 64), Endl,
      Endl, Text ''  Dead-band filtering reduced bus traffic by '',
      Dec (100 - 100 * int notification_count div int (length example05_steps)), Text ''%.'', Endl,
      Text ''  In standard Modbus, every poll sees the current value regardless'', Endl,
      Text ''  of whether it changed meaningfully -- wasting bandwidth.'', Endl,
      Endl, Text ''[done] Pub/Sub events example complete.'', Endl]"

definition example05_main :: "(loopback \<times> int \<Rightarrow> Timestamp) \<Rightarrow> Timestamp \<Rightarrow> (nat \<Rightarrow> double) \<Rightarrow> (nat \<Rightarrow> double)
    \<Rightarrow> out list option" where
  "example05_main clock now d1 d2 = map_option (\<lambda>os. Text ''=== modbus_pp Example 05: Pub/Sub Events ==='' # Endl # Endl # os)
     (case example05_publisher now of
        (Err ec, publisher) \<Rightarrow> Some [Text ''[server] Subscription failed: '', Message ec, Endl]
      | (Ok sub_id, publisher) \<Rightarrow>
          map_option (\<lambda>(os, notification_count).
              [Text ''[server] Subscription accepted, ID = '', Dec (uint sub_id), Endl,
               Text ''[server] Trigger: OnChange, dead-band = 5.0 degrees'', Endl, Endl,
               Text ''--- Simulating Temperature Changes ---'', Endl,
               Text ''  Dead-band = 5.0: only changes >= 5.0 degrees trigger notifications.'', Endl, Endl]
              @ os @ example05_summary notification_count)
            (example05_run clock example05_steps (publisher, example05_subscriber sub_id, 0, (connected_pair d1 d2, 2550))))"

lemma example05_readings:
  "map (\<lambda>step. float_to_int (float_times_100 (ts_new_temp step))) example05_steps =
     [2550, 2700, 2800, 3300, 3400, 2500, 2400, 3050, 3100, 3800]"
  "map example05_temperature [2550, 2700, 2800, 3300, 3400, 2500, 2400, 3050, 3100, 3800] = map ts_new_temp example05_steps"
  by code_simp+

section \<open>One step\<close>

definition example05_state :: "(loopback \<times> int) publisher \<Rightarrow> register list \<Rightarrow> bool" where
  "example05_state p base \<longleftrightarrow> (\<exists>t. p =
     \<lparr>pb_transport = Some (lift_transport (LoopbackTransport ServerSide)),
      pb_sources = [\<lparr>ds_start = 0, ds_count = 2, ds_reader = example05_source, ds_last_values = base, ds_has_baseline = (base \<noteq> [])\<rparr>],
      pb_subscriptions = [\<lparr>as_id = 1, as_client = 1, as_request = example05_request, as_last_notified = t\<rparr>],
      pb_next_sub_id = 2\<rparr>)"

lemma example05_publisher_state:
  "example05_publisher now = (Ok 1, p) \<Longrightarrow> example05_state p []"
  by (auto simp: example05_publisher_def accept_subscription_def register_data_source_def Publisher_def Let_def
      example05_state_def)

lemma example05_publisher_Ok: "\<exists>p. example05_publisher now = (Ok 1, p)"
  by (simp add: example05_publisher_def accept_subscription_def register_data_source_def Publisher_def Let_def)

lemma length_example05_registers [simp]: "length (example05_registers temp) = 2"
  using encode_two(1) [of ABCD "example05_temperature temp"] by (auto simp: example05_registers_def)

lemma take_registers [simp]: "take 2 (example05_registers temp) = example05_registers temp"
  by (simp add: take_all)

definition example05_fires :: "register list \<Rightarrow> register list \<Rightarrow> bool" where
  "example05_fires regs base \<longleftrightarrow> base = [] \<or> any_change (Fin 5) regs base"

lemma lift_inbox: "inbox T s fs s' \<Longrightarrow> inbox (lift_transport T) (s, d) fs (s', d)"
  by (induction rule: inbox.induct) (auto intro!: inbox.intros)

lemma example05_send:
  assumes "lb_healthy l"
  shows "send_notification (Some (lift_transport (LoopbackTransport ServerSide))) notif (l, temp) =
    (set_tx_queue ServerSide (tx_queue ServerSide l @ [PDU_serialize (notification_pdu notif)]) l, temp)"
  using assms by (simp add: send_notification_def lb_healthy_send lift_transport_def)

lemma example05_scan:
  fixes temp :: int and clock :: "loopback \<times> int \<Rightarrow> Timestamp"
  assumes "lb_healthy l" "tx_queue ServerSide l = []" "example05_state p base" "base = [] \<or> length base = 2"
  defines "regs \<equiv> example05_registers temp"
  defines "notif \<equiv> \<lparr>en_subscription_id = 1, en_start_address = 0, en_timestamp = clock (l, temp), en_current_values = regs,
    en_previous_values = base\<rparr>"
  shows "\<exists>p'. scan_and_notify clock p (l, temp) = Some (of_bool (example05_fires regs base), p',
      (if example05_fires regs base then set_tx_queue ServerSide [PDU_serialize (notification_pdu notif)] l else l, temp))
    \<and> example05_state p' regs"
proof -
  obtain t where p: "p = \<lparr>pb_transport = Some (lift_transport (LoopbackTransport ServerSide)),
      pb_sources = [\<lparr>ds_start = 0, ds_count = 2, ds_reader = example05_source, ds_last_values = base, ds_has_baseline = (base \<noteq> [])\<rparr>],
      pb_subscriptions = [\<lparr>as_id = 1, as_client = 1, as_request = example05_request, as_last_notified = t\<rparr>],
      pb_next_sub_id = 2\<rparr>"
    using assms(3) by (auto simp: example05_state_def)
  have regs: "take 2 regs = regs" "regs \<noteq> []"
    using length_example05_registers [of temp] by (auto simp: regs_def take_all simp del: length_example05_registers)
  have base2: "take 2 base = base" using assms(4) by auto
  have req: "sr_start_address example05_request = 0" "sr_count example05_request = 2"
    "sr_trigger example05_request = OnChange" "sr_dead_band example05_request = Fin 5"
    by (simp_all add: example05_request_def)
  show ?thesis
    using base2 assms(1,2)
    by (auto simp: p example05_state_def scan_and_notify_def example05_source_def notify_one_def Let_def vector_slice_eq
        should_notify_def example05_fires_def req regs notif_def example05_send simp flip: regs_def
        simp del: tx_queue.simps set_tx_queue.simps)
qed

lemma example05_poll:
  assumes "lb_healthy l" "tx_queue ServerSide l = []" "notification_fits notif" "en_subscription_id notif = 1"
  shows "\<exists>calls. subscriber_poll clock (example05_subscriber 1)
      (if b then set_tx_queue ServerSide [PDU_serialize (notification_pdu notif)] l else l, temp)
    = Some (of_bool b, calls, (l, temp)) \<and> length calls = of_bool b
    \<and> (b \<longrightarrow> calls = [((), notif\<lparr>en_previous_values := []\<rparr>)])"
proof -
  define notifs where "notifs = (if b then [notif] else [])"
  define l' where "l' = (if b then set_tx_queue ServerSide [PDU_serialize (notification_pdu notif)] l else l)"
  have id: "set_tx_queue ServerSide [] l = l" using assms(2) by (metis set_tx_queue_id)
  have l': "lb_healthy l'" "rx_queue ClientSide l' = map (PDU_serialize \<circ> notification_pdu) notifs" "set_rx_queue ClientSide [] l' = l"
    using assms(1,2) id by (auto simp: l'_def notifs_def simp del: tx_queue.simps set_tx_queue.simps)
  from lift_inbox [OF loopback_inbox [OF l'(1,2)], of temp]
  have "inbox (lift_transport (LoopbackTransport ClientSide)) (l', temp) (map (PDU_serialize \<circ> notification_pdu) notifs) (l, temp)"
    using l'(3) by simp
  from poll_loop_inbox [OF this refl, of clock "sb_handlers (example05_subscriber 1)" 0 "[]"] assms(3,4) l'(1)
  show ?thesis
    by (auto simp: subscriber_poll_def example05_subscriber_def on_event_def Subscriber_def lift_transport_def notifs_def
        dispatch_notification_def simp flip: l'_def)
qed


text \<open>What one step prints, given the number of the notification if it fires: a handler is always told that it was 0.0 before.\<close>

definition example05_said :: "float32 \<Rightarrow> string \<Rightarrow> nat option \<Rightarrow> string \<Rightarrow> out list" where
  "example05_said x description fired verdict =
     [Text ''  Set temp = '', Flt x, Text '' -- '', Text description, Endl]
     @ (case fired of None \<Rightarrow> []
        | Some n \<Rightarrow> [Text ''  [event #'', Dec (int n), Text ''] '', Text ''Temperature changed: '', Flt (Float32 0), Text '' -> '', Flt x,
            Text '' (delta = '', Difference x (Float32 0), Text '')'', Endl])
     @ [Text ''    -> notification '', Text (if fired = None then ''suppressed'' else ''FIRED''), Text verdict, Endl]"

definition ts_reading :: "TempStep \<Rightarrow> int" where
  "ts_reading step = float_to_int (float_times_100 (ts_new_temp step))"

text \<open>The float that the registers hold is the one the step sets.\<close>

definition ts_exact :: "TempStep \<Rightarrow> bool" where
  "ts_exact step \<longleftrightarrow> example05_temperature (ts_reading step) = ts_new_temp step"

lemma example05_event_said:
  assumes "en_current_values event = example05_registers temp" "en_previous_values event = []"
  shows "example05_event n event = Some [Text ''  [event #'', Dec (int n), Text ''] '', Text ''Temperature changed: '',
    Flt (Float32 0), Text '' -> '', Flt (example05_temperature temp), Text '' (delta = '',
    Difference (example05_temperature temp) (Float32 0), Text '')'', Endl]"
  using assms codec_registers(1) [of ABCD "example05_temperature temp"]
  by (auto simp: example05_event_def example05_registers_def)

lemma example05_step_eq:
  assumes "lb_healthy l" "tx_queue ServerSide l = []" "example05_state p base" "base = [] \<or> length base = 2" "ts_exact step"
  defines "temp' \<equiv> ts_reading step"
  defines "fires \<equiv> example05_fires (example05_registers temp') base"
  shows "\<exists>p'. example05_step clock step (p, example05_subscriber 1, n, (l, temp)) =
      Some (example05_said (ts_new_temp step) (ts_description step) (if fires then Some (n + 1) else None)
          (if fires = ts_expect_notification step then '' (expected)'' else '' (UNEXPECTED)''),
        p', example05_subscriber 1, n + of_bool fires, (l, temp')) \<and> example05_state p' (example05_registers temp')"
proof -
  define notif where "notif = \<lparr>en_subscription_id = 1, en_start_address = 0, en_timestamp = clock (l, temp'),
    en_current_values = example05_registers temp', en_previous_values = base\<rparr>"
  obtain p' where scan: "scan_and_notify clock p (l, temp') = Some (of_bool fires, p',
      (if fires then set_tx_queue ServerSide [PDU_serialize (notification_pdu notif)] l else l, temp'))"
    "example05_state p' (example05_registers temp')"
    using example05_scan [OF assms(1-4), of clock temp'] unfolding fires_def notif_def by blast
  have "notification_fits notif" "en_subscription_id notif = 1"
    by (simp_all add: notif_def notification_fits_def)
  from example05_poll [OF assms(1,2) this, of clock fires temp'] obtain calls where
    poll: "subscriber_poll clock (example05_subscriber 1)
      (if fires then set_tx_queue ServerSide [PDU_serialize (notification_pdu notif)] l else l, temp')
    = Some (of_bool fires, calls, (l, temp'))" "length calls = of_bool fires"
      "fires \<longrightarrow> calls = [((), notif\<lparr>en_previous_values := []\<rparr>)]"
    by blast
  have "example05_events n calls = Some (if fires then [Text ''  [event #'', Dec (int (n + 1)), Text ''] '',
    Text ''Temperature changed: '', Flt (Float32 0), Text '' -> '', Flt (ts_new_temp step), Text '' (delta = '',
    Difference (ts_new_temp step) (Float32 0), Text '')'', Endl] else [])"
    using poll(2,3) assms(5) example05_event_said [of "notif\<lparr>en_previous_values := []\<rparr>" temp' "n + 1"]
    by (cases fires) (simp_all add: notif_def ts_exact_def flip: temp'_def)
  then show ?thesis
    using scan poll(1,2) by (cases fires) (simp_all add: example05_step_def example05_said_def flip: ts_reading_def temp'_def)
qed

text \<open>The steps are the changes of the registers between one reading and the next.\<close>

fun example05_pattern :: "register list \<Rightarrow> TempStep list \<Rightarrow> bool list" where
  "example05_pattern base [] = []"
| "example05_pattern base (step # steps) =
     (let regs = example05_registers (ts_reading step) in example05_fires regs base # example05_pattern regs steps)"

fun example05_printed :: "nat \<Rightarrow> (TempStep \<times> bool) list \<Rightarrow> out list" where
  "example05_printed n [] = []"
| "example05_printed n ((step, fires) # steps) =
     example05_said (ts_new_temp step) (ts_description step) (if fires then Some (n + 1) else None)
       (if fires = ts_expect_notification step then '' (expected)'' else '' (UNEXPECTED)'')
     @ example05_printed (n + of_bool fires) steps"

lemma example05_run_eq:
  assumes "lb_healthy l" "tx_queue ServerSide l = []" "example05_state p base" "base = [] \<or> length base = 2"
    and "list_all ts_exact steps"
  shows "example05_run clock steps (p, example05_subscriber 1, n, (l, temp)) =
    Some (example05_printed n (zip steps (example05_pattern base steps)), n + length (filter id (example05_pattern base steps)))"
  using assms(3-5)
proof (induction steps arbitrary: p base n temp)
  case (Cons step steps)
  have "ts_exact step" using Cons.prems(3) by simp
  from example05_step_eq [OF assms(1,2) Cons.prems(1,2) this, of clock n temp] obtain p' where
    "example05_step clock step (p, example05_subscriber 1, n, (l, temp)) =
      Some (example05_said (ts_new_temp step) (ts_description step)
          (if example05_fires (example05_registers (ts_reading step)) base then Some (n + 1) else None)
          (if example05_fires (example05_registers (ts_reading step)) base = ts_expect_notification step
           then '' (expected)'' else '' (UNEXPECTED)''),
        p', example05_subscriber 1, n + of_bool (example05_fires (example05_registers (ts_reading step)) base), (l, ts_reading step))"
    "example05_state p' (example05_registers (ts_reading step))"
    by blast
  then show ?case
    using Cons.IH [of p' "example05_registers (ts_reading step)"] Cons.prems(3) by (simp add: Let_def)
qed (cases l, simp)

lemma example05_exact: "list_all ts_exact example05_steps"
  by code_simp

lemma example05_fired:
  "example05_pattern [] example05_steps = [True, True, True, True, False, True, True, True, False, True]"
  by code_simp

section \<open>Properties\<close>

text \<open>
  Property C18. Example 05 contradicts itself; this is all that it prints. With a dead band of 5.0 degrees, eight of its
  ten steps fire, and on three of them the program expected none: the dead band is compared with the change of each 16-bit
  register, and below 32 degrees a change of one degree moves the upper half of the float by 8. Every event reports a
  change from 0.0, and so the temperature itself as the change, since no notification carries the previous values.
\<close>

theorem example05_output:
  "example05_main clock now d1 d2 = Some
     ([Text ''=== modbus_pp Example 05: Pub/Sub Events ==='', Endl, Endl,
       Text ''[server] Subscription accepted, ID = '', Dec 1, Endl,
       Text ''[server] Trigger: OnChange, dead-band = 5.0 degrees'', Endl, Endl,
       Text ''--- Simulating Temperature Changes ---'', Endl,
       Text ''  Dead-band = 5.0: only changes >= 5.0 degrees trigger notifications.'', Endl, Endl]
      @ example05_said (Float32 0x41CC0000) ''Initial value (baseline)'' (Some 1) '' (expected)''
      @ example05_said (Float32 0x41D80000) ''Small change: +1.5 (within dead-band)'' (Some 2) '' (UNEXPECTED)''
      @ example05_said (Float32 0x41E00000) ''Small change: +1.0 (within dead-band)'' (Some 3) '' (UNEXPECTED)''
      @ example05_said (Float32 0x42040000) ''Large change: +5.0 (meets dead-band!)'' (Some 4) '' (expected)''
      @ example05_said (Float32 0x42080000) ''Small change: +1.0 (within dead-band)'' None '' (expected)''
      @ example05_said (Float32 0x41C80000) ''Large drop:  -9.0 (exceeds dead-band!)'' (Some 5) '' (expected)''
      @ example05_said (Float32 0x41C00000) ''Small change: -1.0 (within dead-band)'' (Some 6) '' (UNEXPECTED)''
      @ example05_said (Float32 0x41F40000) ''Large rise:  +6.5 (exceeds dead-band!)'' (Some 7) '' (expected)''
      @ example05_said (Float32 0x41F80000) ''Small change: +0.5 (within dead-band)'' None '' (expected)''
      @ example05_said (Float32 0x42180000) ''Large rise:  +7.0 (exceeds dead-band!)'' (Some 8) '' (expected)''
      @ [Endl, Text ''--- Summary ---'', Endl, Text ''  Total temperature changes: '', Dec 10, Endl,
       Text ''  Notifications sent:        '', Dec 8, Endl, Text ''  Notifications suppressed:  '', Dec 2, Endl, Endl,
       Text ''  Dead-band filtering reduced bus traffic by '', Dec 20, Text ''%.'', Endl,
       Text ''  In standard Modbus, every poll sees the current value regardless'', Endl,
       Text ''  of whether it changed meaningfully -- wasting bandwidth.'', Endl,
       Endl, Text ''[done] Pub/Sub events example complete.'', Endl])"
proof -
  obtain p where p: "example05_publisher now = (Ok 1, p)" using example05_publisher_Ok by blast
  have "tx_queue ServerSide (connected_pair d1 d2) = []" using connected_pair_ready by (simp add: link_ready_def)
  from example05_run_eq [OF connected_pair_healthy this example05_publisher_state [OF p] disjI1 [OF refl] example05_exact,
      of clock 0 2550]
  have "example05_run clock example05_steps (p, example05_subscriber 1, 0, (connected_pair d1 d2, 2550)) =
      Some (example05_printed 0 (zip example05_steps [True, True, True, True, False, True, True, True, False, True]), 8)"
    by (simp add: example05_fired)
  then show ?thesis
    unfolding example05_main_def p by (simp add: example05_steps_def example05_summary_def eval_nat_numeral)
qed

end
