(* ===== verification/Spec2Isabelle.thy ===== *)
theory Spec2Isabelle
  imports Tcp_Client Threads Shared_Link Pipelined_Peer Extended_Operations Example_Pipeline Example_Data Example_Pubsub
begin

text \<open>
  Verification of modbus\_pp, a C++17 Modbus client and server library with extensions
  (pipelining, batches, publish and subscribe, authentication, discovery). The model follows
  the files of \<open>include/modbus_pp\<close> and \<open>src\<close> one component at a time, then joins client and server
  on one link, and models the seven programs of \<open>examples\<close>, which use the library in full; this theory
  holds the properties that span components.

  The program. A \<open>Client\<close> turns an operation into a protocol data unit (PDU), the frame codec
  wraps it into a TCP or RTU envelope, a \<open>Transport\<close> carries the bytes, the \<open>Server\<close> at the other end
  unwraps, calls the handlers of the application and answers. Extended PDUs (function code
  0x6E) add a header with version, flags, correlation identifier, optional timestamp and
  optional HMAC. A \<open>Pipeline\<close> keeps several requests in flight and matches responses by
  correlation identifier, a \<open>Publisher\<close> pushes changes of registers to a \<open>Subscriber\<close>, a
  \<open>Scanner\<close> probes addresses; register maps, the type codec and the byte orders translate
  registers to values, and batches gather reads of many ranges.

  Theories, in the order of the imports, and the code they model:
  \<^item> \<open>Modbus_Prelude\<close>: big-endian bytes of words, register lists as bytes, checked reads of
    memory (\<open>fetch\<close>), the collection \<open>be_simps\<close>; the locale \<open>wire_codec\<close> for pairs of
    serialiser and parser.
  \<^item> \<open>Core_Types\<close> (\<open>core/types.hpp\<close>): \<open>StrongType\<close> and \<open>span_t\<close>. A span is the memory readable
    from its pointer and a claimed size; reading outside the memory is \<open>None\<close>.
  \<^item> \<open>Error_Result\<close> (\<open>core/error.hpp\<close>, \<open>core/error.cpp\<close>, \<open>core/result.hpp\<close>): error codes and their
    messages, \<open>Result<T>\<close> (\<open>Ok\<close>, \<open>Err\<close>) and \<open>Result<void>\<close> (\<open>VoidResult\<close>); \<open>Result_assertion\<close> is the
    assertion of the constructor from an error code.
  \<^item> \<open>Timestamps\<close> (\<open>core/timestamp.hpp\<close>), \<open>Pdu\<close> (\<open>core/function_codes.hpp\<close>, \<open>core/pdu.cpp\<close>):
    serialisers, parsers, flags and factories. The lemmas give the exact domain of the parser,
    round trips and memory safety on arbitrary bytes.
  \<^item> \<open>Crc16\<close> and \<open>Frame_Codec\<close> (\<open>transport/frame_codec.cpp\<close>): both envelopes; the checksum as a
    shift register, which detects bursts of 16 bits and odd numbers of bit errors.
  \<^item> \<open>Endian\<close> (\<open>core/endian.hpp\<close>), \<open>Type_Codec\<close> (\<open>register_map/type_codec.hpp\<close>) and \<open>Register_Map\<close>
    (\<open>register_map/register_descriptor.hpp\<close>, \<open>register_map/register_map.hpp\<close>): byte orders, values in registers,
    compile-time checks and field independence (locale \<open>indexed_store\<close>).
  \<^item> \<open>Batch\<close> (\<open>register_map/batch_request.hpp\<close>): merging of ranges and the wire forms.
  \<^item> \<open>Transport\<close> (\<open>transport/transport.hpp\<close>): the abstract class as a record of state
    transformers. \<open>Loopback\<close>, \<open>Tcp_Transport\<close> and \<open>Rtu_Transport\<close> implement it; the latter two over
    the POSIX calls of \<open>Posix\<close>, a record of functions on the state of the operating system.
  \<^item> \<open>Security\<close> (\<open>security/*\<close>), \<open>Pipeline\<close> (\<open>pipeline/*\<close>), \<open>Scanner\<close> (\<open>discovery/*\<close>), \<open>Pubsub\<close>
    (\<open>pubsub/*\<close>), \<open>Client\<close> (\<open>client/client.cpp\<close>) and \<open>Server\<close> (\<open>client/server.cpp\<close>).
  \<^item> \<open>Served_Link\<close>: the loopback pair with a \<open>Server\<close> at its other end, as a transport of the
    client (\<open>served_link\<close>, \<open>device_server\<close>); what each client operation, the scanner, a batch read and an
    authentication get from it. \<open>Pipelined_Link\<close>: what a \<open>Pipeline\<close> gets from it.
    \<open>Tcp_Client\<close>: both socket transports as transports of the client, and one exchange over TCP.
  \<^item> \<open>Register_File\<close>: the array of registers with bounds that the server of the examples keeps, and
    sequences of client operations on it against the same operations on the array.
  \<^item> \<open>Threads\<close>: the client's thread and the server's thread on one link, interleaved at the critical
    sections of the queues; \<open>transact\<close> and \<open>process_one\<close> cut at their waits (\<open>transact_split\<close>, \<open>process_one_split\<close>), the
    threads as a step relation (\<open>th_step\<close>) with an executable scheduler (\<open>th_run\<close>), and their specification,
    a device that executes one request after the other (\<open>replies\<close>).
  \<^item> \<open>Shared_Link\<close>: client and subscriber on one transport, with notifications on the link.
  \<^item> \<open>Pipelined_Peer\<close> and \<open>Extended_Operations\<close>: no code of the repository answers pipelined requests, batches or
    the handshake, so the peer is a specification here (\<open>peer_sends\<close>; \<open>authenticator\<close>, which follows the comment in
    \<open>security/session.hpp\<close>; \<open>batch_server\<close>), and the theorems say what the client's operations do with it.
  \<^item> \<open>Example_Client\<close> (\<open>examples/01_*\<close>, \<open>examples/03_*\<close>), \<open>Example_Data\<close> (\<open>examples/02_*\<close>, \<open>06_*\<close>, \<open>07_*\<close>),
    \<open>Example_Pipeline\<close> (\<open>examples/04_*\<close>) and \<open>Example_Pubsub\<close> (\<open>examples/05_*\<close>): each \<open>main\<close> as a function to
    the values it prints, and what these are. That of example 04 is \<open>None\<close>, as its loop does not end.

  Conventions. A class is a record of its members and every method a function from the
  object and the world to the result, the object and the world after it; the world \<open>'s\<close> is
  whatever the transport, the clock, the data sources and the handlers read and change.
  Undefined behaviour of the code (a read outside a buffer, a reversed iterator range) is \<open>None\<close>, an error is a
  value of the program. Integers have the width of the source wherever they can wrap; sizes
  are natural numbers, durations and clock differences integers. Callbacks are identifiers,
  and an operation returns the calls it makes in order; the callbacks of a scan are callable. Assertions are off
  (\<open>NDEBUG\<close>); the one that a frame of the peer can violate, \<open>Result_assertion\<close>, is stated where it matters
  (the properties on reading end to end and on exception code zero). Mutexes are not modelled: each operation of
  a guarded object is one atomic step. In \<open>Served_Link\<close> the server runs when the client waits; \<open>Threads\<close>
  lets it run at any time.

  What the lemmas show: exactness of every parser (which bytes are accepted and as what),
  memory safety of every parser and deframer, round trips of every wire form and register
  encoding; reassembly of TCP frames under any segmentation and of RTU frames under any
  bursts; FIFO channels of the loopback pair in every interleaving; correctness and
  maximality of batch merging; accounting of every pipelined callback, bounds on requests in
  flight and termination of \<open>submit_sync\<close>; exact triggers and delivery of notifications;
  that a scan visits its range once; what a successful authentication implies; and here that
  reading and writing through client, codec, link and server is reading and writing of the
  device, and of any sequence of operations that a client sees an array with bounds; what the server never answers;
  that the interleaving of the two threads cannot be observed until a wait times out, what is returned from then on (the
  answers in their order, whoever asked), that
  no state of the threads is a deadlock and when exactly an answer is due; what notifications on the link do to transactions; that pipelining, the handshake and batches work with a peer that knows them;
  that a read over TCP returns the peer's registers under any segmentation (the locale
  \<open>answering_link\<close> is what the client needs of a link, interpreted on the loopback link with a server
  behind it and on the peers of \<open>Extended_Operations\<close>, and \<open>tcp_transact\<close> is its counterpart for sockets). Where the code falls short, a property
  states what it does.

  Loops. Loops over data are recursions with termination proofs; \<open>scan_loop\<close> terminates although its
  8-bit counter may wrap, by the code's early exit. Loops that wait for the outside
  (\<open>tcp_read_loop\<close>, \<open>rtu_read_loop\<close>, \<open>subscriber_poll_loop\<close>, \<open>pipeline_sync_loop\<close>, \<open>server_run_loop\<close>,
  \<open>example04_wait\<close>) are
  \<open>partial_function (option)\<close> or carry what bounds them, and theorems that they return state what
  they need of the outside: no fuel is used that could hide divergence.

  Not modelled: the contents of OpenSSL (HMAC-SHA256 and random bytes are parameters), the
  operating system behind the POSIX calls, \<open>std::sort\<close> (a parameter with its specification), timing of the constant-time
  comparison, \<open>std::hash\<close> specialisations, the customisation hook \<open>StructCodec\<close> (declared only),
  memory ordering of atomics, real-time delays of the loopback transport beyond the order of its steps (the times
  that example 04 measures are arguments). Of the
  examples: manipulators of the streams (the values are kept). The umbrella header \<open>modbus_pp.hpp\<close>, tests, benchmarks,
  scripts and documentation hold no logic of the library.
\<close>

section \<open>Client and server on one link\<close>

text \<open>
  Property C10. Reading end to end: over a healthy loopback link served by a server with any
  read handler, for its unit or the broadcast address, \<open>read_holding_registers\<close> runs the
  handler once on the address and count of the call. It returns exactly the registers the handler returned, be they as
  many as asked for or not, and exactly its error when that is one of the library's error codes. Of any other error the
  wire carries the value modulo 256, which comes back as a code of the library; a value that is 0 modulo 256 is excluded,
  since no error can be built from it (\<open>Result_assertion\<close>).
\<close>

theorem read_over_loopback:
  assumes "cc_transport (cl_config cl) = served_link (device_server u rh wh)" and "link_ready (l, d)"
    and "u' = u \<or> u' = 0" and "rh addr cnt d = (r, d')" and "\<forall>regs. r = Ok regs \<longrightarrow> length regs < 32000"
    and "\<forall>ec. r = Err ec \<longrightarrow> ec_value ec mod 256 \<noteq> 0"
  shows "read_holding_registers u' addr cnt cl (l, d) =
      Some (case r of Ok regs \<Rightarrow> Ok regs | Err ec \<Rightarrow> Err (make_error_code (ec_value ec mod 256)),
          cl\<lparr>cl_next_transaction_id := cl_next_transaction_id cl + 1\<rparr>, (l, d'))
    \<and> ((\<forall>ec. r = Err ec \<longrightarrow> (\<exists>e. ec = mk_error e)) \<longrightarrow> read_holding_registers u' addr cnt cl (l, d) =
      Some (r, cl\<lparr>cl_next_transaction_id := cl_next_transaction_id cl + 1\<rparr>, (l, d')))
    \<and> (\<forall>ec. r = Err ec \<longrightarrow> Result_assertion (make_error_code (ec_value ec mod 256)))"
proof -
  have "make_error_code (ErrorCode_value e mod 256) = mk_error e" for e
    using ErrorCode_value_byte [of e] by (simp add: mk_error_def)
  then show ?thesis
    using served_read [OF assms(1-5)] assms(6)
    by (auto simp: Result_assertion_def ec_bool_def make_error_code_def split: Result.split)
qed

text \<open>
  Property C11. Writing end to end: both write operations run the write handler exactly once on
  the address and values of the call, and report success whatever the handler returned.
\<close>

theorem write_over_loopback:
  assumes "cc_transport (cl_config cl) = served_link (device_server u rh (Some wh))" and "link_ready (l, d)"
    and "u' = u \<or> u' = 0" and "length vals < 32000"
  shows "write_multiple_registers u' addr vals cl (l, d) =
      Some (void_ok, cl\<lparr>cl_next_transaction_id := cl_next_transaction_id cl + 1\<rparr>, (l, snd (wh addr vals d)))
    \<and> write_single_register u' addr val cl (l, d) =
      Some (void_ok, cl\<lparr>cl_next_transaction_id := cl_next_transaction_id cl + 1\<rparr>, (l, snd (wh addr [val] d)))"
  using assms by (rule served_write)

section \<open>A device\<close>

text \<open>A bank of registers that refuses to write below address 100.\<close>

definition bank_read :: "(address \<Rightarrow> register) ReadHandler" where
  "bank_read addr cnt bank = (Ok (map (\<lambda>i. bank (addr + of_nat i)) [0..<unat cnt]), bank)"

fun bank_store :: "address \<Rightarrow> register list \<Rightarrow> (address \<Rightarrow> register) \<Rightarrow> address \<Rightarrow> register" where
  "bank_store addr [] bank = bank"
| "bank_store addr (v # vs) bank = bank_store (addr + 1) vs (bank(addr := v))"

definition bank_write :: "(address \<Rightarrow> register) WriteHandler" where
  "bank_write addr vals bank =
     (if addr < 100 then (void_err IllegalDataAddress, bank) else (void_ok, bank_store addr vals bank))"

definition bank_client :: "(nat, nat, loopback \<times> (address \<Rightarrow> register)) client" where
  "bank_client = Client (ClientConfig_default (served_link (device_server 7 bank_read (Some bank_write))))"

definition quiet_link :: loopback where
  "quiet_link = connected_pair (\<lambda>_. Fin 0) (\<lambda>_. Fin 0)"

lemma bank_client_ready:
  "cc_transport (cl_config bank_client) = served_link (device_server 7 bank_read (Some bank_write))"
  "link_ready (quiet_link, bank)"
  by (simp_all add: bank_client_def Client_def ClientConfig_default_def link_ready_def quiet_link_def
      del: tx_queue.simps)

theorem read_over_loopback_witness:
  "map_option fst (read_holding_registers 7 500 3 bank_client (quiet_link, (\<lambda>a. a * 2))) = Some (Ok [1000, 1002, 1004])
   \<and> map_option fst (read_holding_registers 1 3 5 example01_client (quiet_link, [1, 2, 3, 4])) = Some (err IllegalDataAddress)"
proof
  show "map_option fst (read_holding_registers 7 500 3 bank_client (quiet_link, (\<lambda>a. a * 2))) = Some (Ok [1000, 1002, 1004])"
    using read_over_loopback [OF bank_client_ready(1) bank_client_ready(2) [of "\<lambda>a. a * 2"],
        where u' = 7 and addr = 500 and cnt = 3]
    by (simp add: bank_read_def upt_rec)
  have T: "cc_transport (cl_config example01_client) = served_link (device_server 1 register_file_read (Some register_file_write))"
    using example01_client_served by (simp add: file_served_to_def)
  have "register_file_read 3 5 [1, 2, 3, 4] = (Err (mk_error IllegalDataAddress), [1, 2, 3, 4])"
    by (simp add: register_file_read_def err_def)
  from read_over_loopback [OF T bank_client_ready(2) disjI1 [OF refl] this]
  show "map_option fst (read_holding_registers 1 3 5 example01_client (quiet_link, [1, 2, 3, 4])) = Some (err IllegalDataAddress)"
    by (auto simp: err_def)
qed

theorem write_over_loopback_witness:
  "write_single_register 0 20 1 bank_client (quiet_link, (\<lambda>_. 9)) =
     Some (void_ok, bank_client\<lparr>cl_next_transaction_id := 2\<rparr>, (quiet_link, (\<lambda>_. 9)))
   \<and> write_multiple_registers 7 200 [5, 6] bank_client (quiet_link, (\<lambda>_. 9)) =
     Some (void_ok, bank_client\<lparr>cl_next_transaction_id := 2\<rparr>, (quiet_link, (\<lambda>_. 9)(200 := 5, 201 := 6)))"
  using write_over_loopback [OF bank_client_ready(1) bank_client_ready(2) [of "\<lambda>_. 9"],
      where u' = 0 and vals = "[]" and addr = 20 and val = 1]
    write_over_loopback [OF bank_client_ready(1) bank_client_ready(2) [of "\<lambda>_. 9"],
      where u' = 7 and vals = "[5, 6]" and addr = 200]
  by (simp add: bank_write_def) (simp add: bank_client_def Client_def)

section \<open>Clients of served devices\<close>

text \<open>
  Property C1. A client sees an array: over a served link with the register file of the examples behind it, any
  sequence of reads and writes returns, operation by operation, what the same sequence on an
  array with bounds returns, and leaves the same registers; a write out of bounds changes
  nothing and is reported as done. Each operation uses up one transaction identifier and leaves the link ready.
\<close>

theorem register_file_refinement:
  assumes "cc_transport (cl_config cl) = served_link (device_server u register_file_read (Some register_file_write))"
    and "link_ready (l, rf)" and "u' = u \<or> u' = 0" and "length rf < 32000"
    and "\<forall>addr vals. WriteRegs addr vals \<in> set ops \<longrightarrow> length vals < 32000"
  shows "client_performs u' ops cl (l, rf) =
    Some (fst (file_ops ops rf), cl\<lparr>cl_next_transaction_id := cl_next_transaction_id cl + of_nat (length ops)\<rparr>,
          (l, snd (file_ops ops rf)))"
proof -
  have "\<forall>op \<in> set ops. op_size op < 32000"
  proof
    fix op assume "op \<in> set ops"
    with assms(5) show "op_size op < 32000" by (cases op) simp_all
  qed
  from client_performs_refines [OF _ assms(2-4) this, of cl] assms(1) show ?thesis
    by (simp add: file_served_to_def advance_txn_def)
qed

theorem register_file_refinement_witness:
  "map_option fst (client_performs 1 [WriteRegs 1 [7, 8], ReadRegs 0 4, WriteReg 9 5, ReadRegs 3 2] example01_client
     (quiet_link, [1, 2, 3, 4])) =
   Some [WriteDone void_ok, RegsRead (Ok [1, 7, 8, 4]), WriteDone void_ok, RegsRead (err IllegalDataAddress)]"
proof -
  have "cc_transport (cl_config example01_client) = served_link (device_server 1 register_file_read (Some register_file_write))"
    using example01_client_served by (simp add: file_served_to_def)
  from register_file_refinement [OF this, of quiet_link "[1, 2, 3, 4]" 1
      "[WriteRegs 1 [7, 8], ReadRegs 0 4, WriteReg 9 5, ReadRegs 3 2]"]
  show ?thesis by (auto simp: bank_client_ready file_put_def)
qed

text \<open>
  Property C3. Reading over TCP: on a connected socket, however the network cuts up the bytes
  of the request and of the reply, and whatever follows the reply in the stream, a read
  returns the registers that the peer's reply carries, or its exception, whatever unit and
  transaction the reply names; the bytes after the reply stay unread.
\<close>

theorem read_over_tcp:
  assumes "cc_transport (cl_config cl) = TCP px" and "tcp_connected t"
    and "stream_sink px (tcp_socket_fd t) sent" and "stream_source px (tcp_socket_fd t) incoming"
    and "stream_ready px (tcp_socket_fd t) incoming"
    and "peer_answers px (tcp_socket_fd t) sent incoming (tcp_os t)
      (wrap_tcp u (read_request addr cnt) (cl_next_transaction_id cl)) (wrap_tcp u' (read_response r) txn @ rest)"
    and "\<forall>regs. r = Ok regs \<longrightarrow> length regs < 32000"
  shows "\<exists>os. read_holding_registers u addr cnt cl (Some t) = Some
      (case r of Ok regs \<Rightarrow> Ok regs | Err ec \<Rightarrow> Err (make_error_code (ec_value ec mod 256)),
       cl\<lparr>cl_next_transaction_id := cl_next_transaction_id cl + 1\<rparr>, Some (t\<lparr>tcp_os := os\<rparr>))
    \<and> incoming os = rest"
proof -
  obtain os where "transact u (read_request addr cnt) cl (Some t) = Some (check_exception (read_response r),
      cl\<lparr>cl_next_transaction_id := cl_next_transaction_id cl + 1\<rparr>, Some (t\<lparr>tcp_os := os\<rparr>))" "incoming os = rest"
    using tcp_transact [OF assms(1-6)] read_response_carried [OF assms(7)] by blast
  with read_response_result [of r] show ?thesis
    by (intro exI [of _ os]) (cases "check_exception (read_response r)"; simp add: read_holding_registers_def)
qed

text \<open>A peer that answers one request, in pieces of at most three bytes, and sends one byte more.\<close>

definition peer_posix :: "byte list \<Rightarrow> byte list list \<Rightarrow> wire posix" where
  "peer_posix request chunks = (wire_posix 2)\<lparr>px_write := (\<lambda>fd bs w.
     (case px_write (wire_posix 2) fd bs w of (k, w) \<Rightarrow>
        (k, if wire_out w = request then w\<lparr>wire_in := chunks\<rparr> else w)))\<rparr>"

lemma peer_posix_stream:
  "stream_source (peer_posix request chunks) fd wire_incoming" "stream_ready (peer_posix request chunks) fd wire_incoming"
  "stream_sink (peer_posix request chunks) fd wire_out"
proof -
  show "stream_source (peer_posix request chunks) fd wire_incoming" "stream_ready (peer_posix request chunks) fd wire_incoming"
    using wire_stream_source [of 2 fd] wire_stream_ready [of 2 fd]
    by (simp_all add: stream_source_def stream_ready_def peer_posix_def)
  show "stream_sink (peer_posix request chunks) fd wire_out"
    unfolding stream_sink_def
  proof (intro allI impI)
    fix bs :: "byte list" and w assume "bs \<noteq> []"
    with wire_stream_sink [of 2 fd, unfolded stream_sink_def] obtain k w' where
      "0 < k" "k \<le> length bs" "px_write (wire_posix 2) fd bs w = (int k, w')" "wire_out w' = wire_out w @ take k bs"
      by blast
    then show "\<exists>k w'. 0 < k \<and> k \<le> length bs \<and> px_write (peer_posix request chunks) fd bs w = (int k, w')
        \<and> wire_out w' = wire_out w @ take k bs"
      by (intro exI [of _ k] exI [of _ "if wire_out w' = request then w'\<lparr>wire_in := chunks\<rparr> else w'"])
        (simp add: peer_posix_def)
  qed
qed

lemma peer_posix_answers:
  assumes "wire_out w = []" "request \<noteq> []"
  shows "peer_answers (peer_posix request chunks) fd wire_out wire_incoming w request (concat chunks)"
proof -
  have "wire_out w' = request \<longrightarrow> wire_incoming w' = concat chunks"
    if "written (peer_posix request chunks) fd w w'" for w'
    using that
  proof (induction rule: written.induct)
    case start
    then show ?case using assms by simp
  next
    case (more_bytes os1 bs k os2)
    then show ?case by (auto simp: peer_posix_def wire_incoming_def split: prod.splits if_splits)
  qed
  then show ?thesis using assms(1) by (simp add: peer_answers_def)
qed

definition tcp_request :: "byte list" where
  "tcp_request = wrap_tcp 17 (read_request 107 2) 1"

definition tcp_client :: "(nat, nat, wire tcp option) client" where
  "tcp_client = Client (ClientConfig_default (TCP (peer_posix tcp_request
     [take 4 (wrap_tcp 17 (read_response (Ok [555, 100])) 1), drop 4 (wrap_tcp 17 (read_response (Ok [555, 100])) 1) @ [99]])))"

theorem read_over_tcp_witness:
  "\<exists>os. read_holding_registers 17 107 2 tcp_client (Some (sample_tcp\<lparr>tcp_os := sample_wire\<lparr>wire_in := []\<rparr>\<rparr>)) =
     Some (Ok [555, 100], tcp_client\<lparr>cl_next_transaction_id := 2\<rparr>, Some (sample_tcp\<lparr>tcp_os := os\<rparr>)) \<and> wire_incoming os = [99]"
proof -
  let ?t = "sample_tcp\<lparr>tcp_os := sample_wire\<lparr>wire_in := []\<rparr>\<rparr>"
  let ?reply = "wrap_tcp 17 (read_response (Ok [555, 100])) 1"
  let ?px = "peer_posix tcp_request [take 4 ?reply, drop 4 ?reply @ [99]]"
  have cl: "cc_transport (cl_config tcp_client) = TCP ?px" "cl_next_transaction_id tcp_client = 1"
    by (simp_all add: tcp_client_def Client_def ClientConfig_default_def)
  have con: "tcp_connected ?t" by (simp add: sample_tcp_def)
  have "concat [take 4 ?reply, drop 4 ?reply @ [99]] = ?reply @ [99]" by simp
  moreover have "peer_answers ?px (tcp_socket_fd ?t) wire_out wire_incoming (tcp_os ?t) tcp_request
      (concat [take 4 ?reply, drop 4 ?reply @ [99]])"
    by (rule peer_posix_answers) (simp_all add: sample_wire_def tcp_request_def wrap_tcp_def Let_def)
  ultimately have "peer_answers ?px (tcp_socket_fd ?t) wire_out wire_incoming (tcp_os ?t)
      (wrap_tcp 17 (read_request 107 2) (cl_next_transaction_id tcp_client)) (?reply @ [99])"
    by (simp only: cl(2) tcp_request_def)
  from read_over_tcp [OF cl(1) con peer_posix_stream(3,1,2) this] cl(2) show ?thesis by simp
qed

section \<open>What the server does not do\<close>

text \<open>
  Property C14. Requests without a handler: over a link that a server with handlers serves, a request for
  another unit, or for its own with a function code other than 0x03, 0x06 and 0x10, is never
  answered; the client gets \<open>TimeoutExpired\<close> and the device is not touched. So batch reads and authentication, which
  the same library's client offers, always end so.
\<close>

theorem unhandled_request_times_out:
  assumes "cc_transport (cl_config cl) = served_link (device_server u rh wh)" and "link_ready (l, d)"
  shows "(PDU_wf request \<and> 1 + length (PDU_serialize request) < 2 ^ 16
      \<and> ((u' \<noteq> u \<and> u' \<noteq> 0) \<or> function_code request \<notin> {0x03, 0x06, 0x10}) \<longrightarrow>
      transact u' request cl (l, d) =
        Some (err TimeoutExpired, cl\<lparr>cl_next_transaction_id := cl_next_transaction_id cl + 1\<rparr>, (l, d)))
    \<and> (length (BatchRequest_serialize batch) < 65000 \<longrightarrow>
      batch_read clock u' batch cl (l, d) =
        Some (err TimeoutExpired, cl\<lparr>cl_next_transaction_id := cl_next_transaction_id cl + 1\<rparr>, (l, d)))
    \<and> (cc_credentials (cl_config cl) = Some lookup \<and> lookup u' = Ok secret \<and> length nonce = 16 \<longrightarrow>
      authenticate mac nonce u' cl (l, d) =
        Some (err TimeoutExpired, cl\<lparr>cl_next_transaction_id := cl_next_transaction_id cl + 1\<rparr>, (l, d)))"
proof (intro conjI impI, goal_cases)
  case 1
  then have "(u' \<noteq> u \<and> u' \<noteq> 0) \<or> server_reply (device_server u rh wh) request (l, d) = None"
    using server_reply_other [of request "device_server u rh wh" "(l, d)"] by argo
  then show ?case using 1 by (intro served_transact_timeout [OF assms]) simp_all
next
  case 2
  then show ?case by (rule batch_read_unanswered [OF assms])
next
  case 3
  then show ?case by (intro authenticate_unanswered [OF assms, where lookup = lookup and secret = secret]) simp_all
qed

theorem unhandled_request_times_out_witness:
  "batch_read (\<lambda>_. Timestamp 3) 7 (batch_add (BatchRequest []) 0 2 RT_UInt16 ABCD) bank_client (quiet_link, \<lambda>_. 9) =
     Some (err TimeoutExpired, bank_client\<lparr>cl_next_transaction_id := cl_next_transaction_id bank_client + 1\<rparr>, (quiet_link, \<lambda>_. 9))"
  using unhandled_request_times_out [OF bank_client_ready, where batch = "batch_add (BatchRequest []) 0 2 RT_UInt16 ABCD"]
  by (simp add: batch_add_def BatchRequest_serialize_def)

text \<open>
  Property C16. Discovery over a served link: whatever range is scanned, and whatever the read handler returns
  for the first register, the scan finds the device under its own address and under the broadcast address, if
  the range contains them, and under no other one, as a device without extensions.
\<close>

theorem discover_finds_device:
  assumes "cc_transport (cl_config cl) = served_link (device_server u rh wh)" and "link_ready (l, d)"
    and "rh 0 1 d = (r, d)" and "\<forall>regs. r = Ok regs \<longrightarrow> length regs < 32000"
  shows "discover clock cfg cl (l, d) =
    Some (map (\<lambda>i. DeviceInfo_default\<lparr>di_unit_id := i, di_discovered_at := clock (l, d)\<rparr>)
            (filter (\<lambda>i. i = u \<or> i = 0) (range_addresses (sc_range_start cfg) (sc_range_end cfg))), (l, d))"
  using assms by (rule served_discover)

theorem discover_finds_device_witness:
  "discover (\<lambda>_. Timestamp 5) \<lparr>sc_scan_timeout = 100, sc_range_start = 5, sc_range_end = 9\<rparr> bank_client (quiet_link, \<lambda>_. 9) =
     Some ([DeviceInfo_default\<lparr>di_unit_id := 7, di_discovered_at := Timestamp 5\<rparr>], (quiet_link, \<lambda>_. 9))"
proof -
  have "bank_read 0 1 (\<lambda>_. 9) = (Ok [9], \<lambda>_. 9)" by (simp add: bank_read_def)
  from discover_finds_device [OF bank_client_ready this, of "\<lambda>_. Timestamp 5"
      "\<lparr>sc_scan_timeout = 100, sc_range_start = 5, sc_range_end = 9\<rparr>"]
  show ?thesis by (simp add: range_addresses_def upt_rec)
qed

text \<open>
  Property C15. The pipeline and the server do not speak to each other: over a link served by any server of
  the library, a fresh pipeline may submit any requests of less than 768 bytes, up to 65534 of them, and poll as often as
  it likes: no callback is ever called, and the device is not touched.
\<close>

theorem pipeline_unanswered_by_server:
  assumes "link_ready (l, d)" and "length reqs < 65535"
    and "\<forall>(request, cb) \<in> set reqs. PDU_wf request \<and> length (PDU_serialize request) < 768"
  shows "\<exists>rs p l'. pipeline_submits (served_link (device_server u rh wh)) clock timeout reqs (Pipeline config) (l, d) = (rs, p, (l', d))
    \<and> (\<forall>n. \<exists>l''. pipeline_polls (served_link (device_server u rh wh)) clock n p (l', d) = Some ([], p, (l'', d)))"
proof -
  obtain rs p l' where
    "pipeline_submits (served_link (device_server u rh wh)) clock timeout reqs (Pipeline config) (l, d) = (rs, p, (l', d))"
    "mute_link u (l', d)"
    using mute_submits [OF link_ready_mute [OF assms(1)], of "Pipeline config" reqs u rh wh clock timeout] assms(2,3)
    by (auto simp: Pipeline_def)
  moreover from mute_polls [OF this(2)] have
    "\<forall>n. \<exists>l''. pipeline_polls (served_link (device_server u rh wh)) clock n p (l', d) = Some ([], p, (l'', d))" by metis
  ultimately show ?thesis by blast
qed

theorem pipeline_unanswered_by_server_witness:
  "\<exists>rs p l'. pipeline_submits (served_link (device_server 7 bank_read None)) (\<lambda>_. Timestamp 0) 10
      [(make_standard 3 [0, 0, 0, 1], Some ''a''), (make_standard 3 [0, 4, 0, 2], Some ''b'')] (Pipeline PipelineConfig_default)
      (quiet_link, \<lambda>_. 0) = (rs, p, (l', \<lambda>_. 0))
    \<and> (\<exists>l''. pipeline_polls (served_link (device_server 7 bank_read None)) (\<lambda>_. Timestamp 0) 1000 p (l', \<lambda>_. 0)
        = Some ([], p, (l'', \<lambda>_. 0)))"
proof -
  have "\<forall>(request, cb) \<in> set [(make_standard 3 [0, 0, 0, 1], Some ''a''), (make_standard 3 [0, 4, 0, 2], Some ''b'')].
      PDU_wf request \<and> length (PDU_serialize request) < 768" by simp
  from pipeline_unanswered_by_server [OF bank_client_ready(2) _ this] show ?thesis by fastforce
qed

section \<open>Every PDU on the wire\<close>

definition sendable :: "PDU \<Rightarrow> bool" where
  "sendable p \<longleftrightarrow> PDU_wf p \<and> 1 + length (PDU_serialize p) < 2 ^ 16"

lemma batch_request_sendable:
  assumes "length (br_items batch) < 10000"
  shows "sendable (batch_request_pdu clock batch cl s)"
  unfolding sendable_def batch_request_pdu_def Let_def
  by (intro conjI make_extended_carried)
    (use assms in \<open>simp_all add: FrameHeader_default_def BatchRequest_serialize_def Let_def\<close>)

lemma server_reply_wf:
  assumes "server_reply sv request s = Some (resp, s')"
  shows "PDU_wf resp \<and> (length (payload resp) < 65000 \<longrightarrow> sendable resp)"
proof -
  have "\<exists>fc pl. resp = make_standard fc pl \<and> fc \<in> {0x03, 0x83, 0x06, 0x10}"
    using assms by (auto simp: server_reply_def Let_def split: if_splits) (auto split: prod.splits Result.splits)
  then show ?thesis by (auto simp: sendable_def)
qed

text \<open>
  Property C12. Type correctness of what is sent. Every PDU that the library itself builds is a well-formed
  PDU, that is, one that its parser reads back as it is: the requests of the client (reads, writes, batches with and
  without a timestamp, both messages of the handshake), the two requests of a probe, the notifications, the
  requests of a pipeline, which wrap a well-formed one, and the replies of the server. Those that go into an envelope,
  the requests of client and scanner and the replies, also fit its length field within the stated sizes.
\<close>

theorem built_pdus_well_formed:
  "sendable (read_request addr cnt) \<and> sendable (write_single_request addr val)
   \<and> (length vals < 32000 \<longrightarrow> sendable (write_multiple_request addr vals))
   \<and> (length pl < 65000 \<longrightarrow> sendable (auth_pdu fc pl))
   \<and> (length (br_items batch) < 10000 \<longrightarrow> sendable (batch_request_pdu clock batch cl s))
   \<and> sendable (make_standard (FunctionCode_value ReadHoldingRegisters) [0x00, 0x00, 0x00, 0x01])
   \<and> sendable (make_extended (FrameHeader_default\<lparr>ext_function_code := ExtendedFunctionCode_value Discover\<rparr>) [] None)
   \<and> (notification_fits notif \<longrightarrow> PDU_wf (notification_pdu notif))
   \<and> (PDU_wf request \<and> length (PDU_serialize request) < 2 ^ 16 \<longrightarrow> PDU_wf (pipeline_wrap cid request))
   \<and> (server_reply sv request t = Some (resp, t') \<longrightarrow> PDU_wf resp \<and> (length (payload resp) < 65000 \<longrightarrow> sendable resp))"
proof (intro conjI impI)
  show "sendable (read_request addr cnt)" "sendable (write_single_request addr val)"
    "sendable (make_standard (FunctionCode_value ReadHoldingRegisters) [0x00, 0x00, 0x00, 0x01])"
    by (simp_all add: sendable_def read_request_def write_single_request_def)
  show "sendable (write_multiple_request addr vals)" if "length vals < 32000"
    using that by (simp add: sendable_def write_multiple_request_def Let_def length_regs_to_bytes)
  show "sendable (auth_pdu fc pl)" if "length pl < 65000"
    using auth_pdu_carried [OF that] by (simp add: sendable_def)
  show "sendable (make_extended (FrameHeader_default\<lparr>ext_function_code := ExtendedFunctionCode_value Discover\<rparr>) [] None)"
    unfolding sendable_def by (intro conjI make_extended_carried) (simp_all add: FrameHeader_default_def)
  show "sendable resp" if "server_reply sv request t = Some (resp, t')" "length (payload resp) < 65000"
    using server_reply_wf [OF that(1)] that(2) by simp
  show "PDU_wf resp" if "server_reply sv request t = Some (resp, t')"
    using server_reply_wf [OF that] by simp
  show "sendable (batch_request_pdu clock batch cl s)" if "length (br_items batch) < 10000"
    using that by (rule batch_request_sendable)
qed (simp_all add: notification_pdu_wf pipeline_wrap_wf)

theorem built_pdus_well_formed_witness:
  "sendable (write_multiple_request 5 [1, 2, 3]) \<and> sendable (auth_pdu AuthChallenge (replicate 16 0))
   \<and> sendable (batch_request_pdu (\<lambda>_. Timestamp 7) sample_batch bank_client (quiet_link, \<lambda>_. 9))
   \<and> PDU_wf (pipeline_wrap 4 (make_standard 3 [0, 1, 0, 1]))"
proof (intro conjI)
  note rest = built_pdus_well_formed [THEN conjunct2, THEN conjunct2]
  show "sendable (write_multiple_request 5 [1, 2, 3])"
    by (rule rest [THEN conjunct1, rule_format]) simp
  show "sendable (auth_pdu AuthChallenge (replicate 16 0))"
    by (rule rest [THEN conjunct2, THEN conjunct1, rule_format]) simp
  show "sendable (batch_request_pdu (\<lambda>_. Timestamp 7) sample_batch bank_client (quiet_link, \<lambda>_. 9))"
    by (rule rest [THEN conjunct2, THEN conjunct2, THEN conjunct1, rule_format]) (simp add: sample_batch_def batch_add_def)
  show "PDU_wf (pipeline_wrap 4 (make_standard 3 [0, 1, 0, 1]))"
    by (rule rest [THEN conjunct2, THEN conjunct2, THEN conjunct2, THEN conjunct2, THEN conjunct2, THEN conjunct2,
          THEN conjunct1, rule_format]) simp
qed

text \<open>
  Property C13. Memory safety of the parsers: on any bytes the PDU parser, the RTU deframer and
  the parsers of batches read inside their input and fail only with the stated errors; the TCP
  deframer too, unless the MBAP length field is zero, and then it does read outside the frame on every
  function code that is not an extended one.
\<close>

theorem parsers_memory_safe:
  "returns_within {InvalidFrame, UnsupportedVersion} (PDU_deserialize (span_of bs))
   \<and> unwrap_rtu (span_of bs) \<noteq> None
   \<and> returns_within {DeserializationFailed} (BatchRequest_deserialize (span_of bs))
   \<and> returns_within {DeserializationFailed} (BatchResponse_deserialize (span_of bs))
   \<and> (unwrap_tcp (span_of bs) = None \<longrightarrow> 8 \<le> length bs \<and> mbap_length bs = 0)
   \<and> (8 \<le> length bs \<and> length bs < 2 ^ 63 \<and> bs ! 2 = 0 \<and> bs ! 3 = 0 \<and> mbap_length bs = 0
        \<and> bs ! 7 \<notin> {FunctionCode_value Extended, FunctionCode_value ExtendedStream} \<longrightarrow> unwrap_tcp (span_of bs) = None)"
proof (intro conjI)
  show "returns_within {InvalidFrame, UnsupportedVersion} (PDU_deserialize (span_of bs))"
    by (rule PDU_deserialize_safe) simp
  show "unwrap_rtu (span_of bs) \<noteq> None" using returns_within_defined [OF unwrap_rtu_safe] by blast
  show "returns_within {DeserializationFailed} (BatchResponse_deserialize (span_of bs))"
    by (rule batch_response_safe) simp
  show "unwrap_tcp (span_of bs) = None \<longrightarrow> 8 \<le> length bs \<and> mbap_length bs = 0"
    using returns_within_defined [OF unwrap_tcp_safe [of bs]] by fastforce
qed (use batch_request_safe unwrap_tcp_zero_length in auto)

theorem parsers_memory_safe_witness:
  "unwrap_tcp (span_of [0, 1, 0, 0, 0, 0, 1, 3]) = None \<and> unwrap_rtu (span_of [0, 1, 0, 0, 0, 0, 1, 3]) \<noteq> None"
  using parsers_memory_safe [of "[0, 1, 0, 0, 0, 0, 1, 3]"] by (simp add: mbap_length_def be16_def)

end
